theory Spec2Isabelle
  imports Complex_Main
begin

section \<open>Strings\<close>

text \<open>
  A JavaScript string is a sequence of UTF-16 code units.  The model uses \<open>string\<close>
  (a list of 8-bit characters) and reads every character as the code unit of the same
  number, so it covers the titles written in Latin-1.  The white space of \<open>\s\<close> and of
  \<open>String.prototype.trim\<close> in that range is TAB, LF, VT, FF, CR, SPACE and NBSP.
\<close>

definition isSpace :: "char \<Rightarrow> bool" where
  "isSpace c = (c \<in> set [CHR 0x09, CHR 0x0A, CHR 0x0B, CHR 0x0C, CHR 0x0D, CHR 0x20, CHR 0xA0])"

definition isDigit :: "char \<Rightarrow> bool" where
  "isDigit c = (c \<in> set ''0123456789'')"

definition trim :: "string \<Rightarrow> string" where
  "trim s = rev (dropWhile isSpace (rev (dropWhile isSpace s)))"

text \<open>\<open>toLowerCase\<close> on one code unit: A-Z and the Latin-1 capitals (without the
  multiplication sign) move up by 32.\<close>

definition lowerChar :: "char \<Rightarrow> char" where
  "lowerChar c =
     (let n = (of_char c :: nat)
      in if (65 \<le> n \<and> n \<le> 90) \<or> (192 \<le> n \<and> n \<le> 222 \<and> n \<noteq> 215)
         then char_of (n + 32) else c)"

definition toLowerCase :: "string \<Rightarrow> string" where
  "toLowerCase s = map lowerChar s"

text \<open>The \<open>i\<close> flag of a regular expression: a pattern letter matches itself and its
  ASCII capital, nothing else in this range.\<close>

definition lowerAscii :: "char \<Rightarrow> char" where
  "lowerAscii c =
     (let n = (of_char c :: nat) in if 65 \<le> n \<and> n \<le> 90 then char_of (n + 32) else c)"

subsection \<open>The regular expressions of the title normaliser\<close>

datatype cclass = Space | Digit | OneOf string

datatype rx =
    Empty
  | Never
  | One cclass
  | Many cclass
  | Many1 cclass
  | WordI string
  | Seq rx rx
  | Alt rx rx
  | Opt rx

fun inClass :: "cclass \<Rightarrow> char \<Rightarrow> bool" where
  "inClass Space c = isSpace c"
| "inClass Digit c = isDigit c"
| "inClass (OneOf cs) c = (c \<in> set cs)"

text \<open>The remainders a greedy \<open>c*\<close> can leave, longest match first.\<close>

fun manyRests :: "cclass \<Rightarrow> string \<Rightarrow> string list" where
  "manyRests k [] = [[]]"
| "manyRests k (c # cs) = (if inClass k c then manyRests k cs @ [c # cs] else [c # cs])"

text \<open>\<open>rmatch r s\<close>: the remainders of \<open>s\<close> after each way \<open>r\<close> matches a prefix of it, in
  the order a backtracking matcher tries them.\<close>

fun rmatch :: "rx \<Rightarrow> string \<Rightarrow> string list" where
  "rmatch Empty s = [s]"
| "rmatch Never s = []"
| "rmatch (One k) s = (case s of [] \<Rightarrow> [] | c # cs \<Rightarrow> if inClass k c then [cs] else [])"
| "rmatch (Many k) s = manyRests k s"
| "rmatch (Many1 k) s =
     (case s of [] \<Rightarrow> [] | c # cs \<Rightarrow> if inClass k c then manyRests k cs else [])"
| "rmatch (WordI w) s =
     (if length w \<le> length s \<and> map lowerAscii (take (length w) s) = w
      then [drop (length w) s] else [])"
| "rmatch (Seq a b) s = concat (map (rmatch b) (rmatch a s))"
| "rmatch (Alt a b) s = rmatch a s @ rmatch b s"
| "rmatch (Opt a) s = rmatch a s @ [s]"

definition seqs :: "rx list \<Rightarrow> rx" where
  "seqs rs = foldr Seq rs Empty"

definition alts :: "rx list \<Rightarrow> rx" where
  "alts rs = foldr Alt rs Never"

text \<open>\<open>s.replace(/r$/, '')\<close>: the match starts at the leftmost position from which \<open>r\<close>
  reaches the end of the string, and everything from there on is removed.\<close>

definition matchesToEnd :: "rx \<Rightarrow> string \<Rightarrow> bool" where
  "matchesToEnd r s = ([] \<in> set (rmatch r s))"

fun replaceEnd :: "rx \<Rightarrow> string \<Rightarrow> string" where
  "replaceEnd r [] = []"
| "replaceEnd r (c # cs) = (if matchesToEnd r (c # cs) then [] else c # replaceEnd r cs)"

text \<open>\<open>s.replace(/^r/, '')\<close>: the first match found at position 0 is removed.\<close>

definition replaceStart :: "rx \<Rightarrow> string \<Rightarrow> string" where
  "replaceStart r s = (case rmatch r s of [] \<Rightarrow> s | rest # _ \<Rightarrow> rest)"

definition stripArticle :: "string \<Rightarrow> string" where
  "stripArticle s =
     trim (replaceStart (seqs [alts [WordI ''the'', WordI ''a'', WordI ''an''], Many1 Space]) s)"

definition ordinals :: "rx list" where
  "ordinals = [WordI ''first'', WordI ''second'', WordI ''third'', WordI ''fourth'',
     WordI ''fifth'', WordI ''sixth'', WordI ''seventh'', WordI ''eighth'', WordI ''ninth'',
     WordI ''tenth'']"

definition sep :: "rx" where
  "sep = One (OneOf ''-:'')"

definition seasonRx1 :: "rx" where
  "seasonRx1 = seqs [Many Space, One (OneOf ''(''),
     alts [WordI ''season'', WordI ''series'', WordI ''s''], Many Space, Many1 Digit,
     One (OneOf '')''), Many Space]"

definition seasonRx2 :: "rx" where
  "seasonRx2 = seqs [Many Space, sep, Many Space, Opt (seqs [WordI ''the'', Many1 Space]),
     Opt (seqs [WordI ''complete'', Many1 Space]), alts [WordI ''season'', WordI ''series''],
     Many1 Space, alts (Many1 Digit # ordinals), Many Space]"

definition seasonRx3 :: "rx" where
  "seasonRx3 = seqs [Many1 Space, Opt (seqs [WordI ''the'', Many1 Space]),
     Opt (seqs [WordI ''complete'', Many1 Space]), alts [WordI ''season'', WordI ''series''],
     Many1 Space, alts (Many1 Digit # ordinals), Many Space]"

definition seasonRx4 :: "rx" where
  "seasonRx4 = seqs [Many Space, sep, Many Space, WordI ''s'', Many1 Digit, Many Space]"

definition seasonRx5 :: "rx" where
  "seasonRx5 = seqs [Many Space, sep, Many Space, Opt (seqs [WordI ''the'', Many1 Space]),
     WordI ''complete'', Many1 Space, WordI ''series'', Many Space]"

definition seasonRx6 :: "rx" where
  "seasonRx6 = seqs [Many Space, sep, Many Space, Opt (seqs [WordI ''the'', Many1 Space]),
     WordI ''complete'', Many1 Space,
     alts (ordinals @ [seqs [Many1 Digit,
        Opt (alts [WordI ''st'', WordI ''nd'', WordI ''rd'', WordI ''th''])]]),
     Many1 Space, WordI ''season'', Many Space]"

definition seasonRxs :: "rx list" where
  "seasonRxs = [seasonRx1, seasonRx2, seasonRx3, seasonRx4, seasonRx5, seasonRx6]"

definition stripSeasonSuffix :: "string \<Rightarrow> string" where
  "stripSeasonSuffix s =
     (let cleaned = replaceEnd seasonRx1 s;
          cleaned = replaceEnd seasonRx2 cleaned;
          cleaned = replaceEnd seasonRx3 cleaned;
          cleaned = replaceEnd seasonRx4 cleaned;
          cleaned = replaceEnd seasonRx5 cleaned;
          cleaned = replaceEnd seasonRx6 cleaned
      in trim cleaned)"

definition yearRx :: "rx" where
  "yearRx = seqs [Many Space, One (OneOf ''(''), One Digit, One Digit, One Digit, One Digit,
     One (OneOf '')''), Many Space]"

definition extractSeriesName :: "string \<Rightarrow> string" where
  "extractSeriesName title =
     (let name = stripSeasonSuffix title;
          name = replaceEnd yearRx name
      in trim name)"

section \<open>Similarity scoring\<close>

text \<open>
  Scores are JavaScript numbers in the source.  The model computes them as exact
  rationals: the same operations in the same order, without the rounding of doubles.
  The section on double precision below repeats the score of one candidate with every
  operation rounded as the source rounds it.
\<close>

subsection \<open>Levenshtein distance\<close>

definition setCell :: "nat list list \<Rightarrow> nat \<Rightarrow> nat \<Rightarrow> nat \<Rightarrow> nat list list" where
  "setCell dp i j v = dp[i := (dp ! i)[j := v]]"

definition levCell :: "'a list \<Rightarrow> 'a list \<Rightarrow> nat list list \<Rightarrow> nat \<Rightarrow> nat \<Rightarrow> nat" where
  "levCell a b dp i j =
     (if a ! (i - 1) = b ! (j - 1) then dp ! (i - 1) ! (j - 1)
      else 1 + min (dp ! (i - 1) ! j) (min (dp ! i ! (j - 1)) (dp ! (i - 1) ! (j - 1))))"

definition levInit :: "nat \<Rightarrow> nat \<Rightarrow> nat list list" where
  "levInit m n =
     (let dp = replicate (m + 1) (replicate (n + 1) 0);
          dp = fold (\<lambda>i dp. setCell dp i 0 i) [0..<m + 1] dp
      in fold (\<lambda>j dp. setCell dp 0 j j) [0..<n + 1] dp)"

definition levRow :: "'a list \<Rightarrow> 'a list \<Rightarrow> nat \<Rightarrow> nat list list \<Rightarrow> nat list list" where
  "levRow a b i dp = fold (\<lambda>j dp. setCell dp i j (levCell a b dp i j)) [1..<length b + 1] dp"

definition levTable :: "'a list \<Rightarrow> 'a list \<Rightarrow> nat list list" where
  "levTable a b = fold (levRow a b) [1..<length a + 1] (levInit (length a) (length b))"

definition levenshtein :: "'a list \<Rightarrow> 'a list \<Rightarrow> nat" where
  "levenshtein a b = levTable a b ! length a ! length b"

definition normalizedSimilarity :: "string \<Rightarrow> string \<Rightarrow> rat" where
  "normalizedSimilarity a b =
     (if length a = 0 \<and> length b = 0 then 1
      else let maxLen = max (length a) (length b)
           in if maxLen = 0 then 1
              else 1 - of_nat (levenshtein a b) / of_nat maxLen)"

subsection \<open>Title score and confidence\<close>

datatype error = TypeError

text \<open>\<open>resultTitle\<close> is \<open>None\<close> when the catalog's JSON carries no title: calling
  \<open>toLowerCase\<close> on it throws.\<close>

definition computeTitleScore :: "string \<Rightarrow> string option \<Rightarrow> error + rat" where
  "computeTitleScore queryTitle resultTitle =
     (case resultTitle of
        None \<Rightarrow> Inl TypeError
      | Some rt \<Rightarrow>
          let t1 = stripArticle (toLowerCase queryTitle);
              t2 = stripArticle (toLowerCase rt);
              rawScore = normalizedSimilarity t1 t2;
              t1Stripped = stripArticle (toLowerCase (stripSeasonSuffix queryTitle));
              strippedScore = normalizedSimilarity t1Stripped t2
          in Inr (max rawScore strippedScore))"

datatype Confidence = High | Low | Unmatched

definition scoreToConfidence :: "rat \<Rightarrow> Confidence" where
  "scoreToConfidence score =
     (if score \<ge> 85 / 100 then High
      else if score \<ge> 50 / 100 then Low
      else Unmatched)"

subsection \<open>parseInt\<close>

definition digitTable :: "(char \<times> int) list" where
  "digitTable = [(CHR ''0'', 0), (CHR ''1'', 1), (CHR ''2'', 2), (CHR ''3'', 3), (CHR ''4'', 4),
     (CHR ''5'', 5), (CHR ''6'', 6), (CHR ''7'', 7), (CHR ''8'', 8), (CHR ''9'', 9),
     (CHR ''a'', 10), (CHR ''b'', 11), (CHR ''c'', 12), (CHR ''d'', 13), (CHR ''e'', 14),
     (CHR ''f'', 15)]"

definition digitVal :: "char \<Rightarrow> int" where
  "digitVal c = (case map_of digitTable (lowerAscii c) of None \<Rightarrow> 0 | Some v \<Rightarrow> v)"

definition isHexDigit :: "char \<Rightarrow> bool" where
  "isHexDigit c = (lowerAscii c \<in> set ''0123456789abcdef'')"

definition digitsVal :: "int \<Rightarrow> string \<Rightarrow> int" where
  "digitsVal radix ds = foldl (\<lambda>acc c. acc * radix + digitVal c) 0 ds"

text \<open>The sign and the digits of \<open>parseInt\<close>; \<open>None\<close> is NaN.\<close>

definition parseSigned :: "bool \<Rightarrow> string \<Rightarrow> int option" where
  "parseSigned autoHex s =
     (let s1 = dropWhile isSpace s;
          neg = (case s1 of c # _ \<Rightarrow> c = CHR ''-'' | [] \<Rightarrow> False);
          s2 = (case s1 of c # r \<Rightarrow> if c = CHR ''-'' \<or> c = CHR ''+'' then r else s1 | [] \<Rightarrow> s1);
          hex = (autoHex \<and> map lowerAscii (take 2 s2) = ''0x'');
          ds = (if hex then takeWhile isHexDigit (drop 2 s2) else takeWhile isDigit s2);
          v = digitsVal (if hex then 16 else 10) ds
      in if ds = [] then None else Some (if neg then - v else v))"

text \<open>\<open>parseInt(s)\<close> reads a \<open>0x\<close> prefix as hexadecimal; \<open>parseInt(s, 10)\<close> does not.\<close>

definition parseInt :: "string \<Rightarrow> int option" where
  "parseInt s = parseSigned True s"

definition parseInt10 :: "string \<Rightarrow> int option" where
  "parseInt10 s = parseSigned False s"

section \<open>Data model\<close>

datatype ItemType = Movie | TV | DVD | Vinyl | Game | Other

datatype MetadataSource = Tmdb | Plex | NoSource

text \<open>An absent \<open>year\<close> (\<open>undefined\<close>, \<open>null\<close>) is \<open>None\<close>.  A year that \<open>parseInt\<close>
  could not read (NaN) is \<open>None\<close> as well: every later test of a year is a truthiness
  test or a strict equality with a number, and both treat NaN like an absent year.\<close>

record LLMIdentifiedItem =
  title :: string
  creator :: string
  type :: ItemType
  year :: "int option"

record EnrichedItem = LLMIdentifiedItem +
  confidence :: Confidence
  source :: MetadataSource
  tmdbId :: "int option"
  imdbId :: "string option"
  tvdbId :: "int option"
  posterUrl :: "string option"
  overview :: "string option"
  rating :: "rat option"
  releaseDate :: "string option"
  genres :: "string option"
  director :: "string option"
  runtime :: "int option"
  network :: "string option"
  seasons :: "int option"
  showStatus :: "string option"
  plexMatch :: bool
  plexRatingKey :: "string option"

record TMDBMovieResult =
  mr_id :: int
  mr_title :: "string option"
  mr_overview :: "string option"
  mr_release_date :: "string option"
  mr_poster_path :: "string option"
  mr_genre_ids :: "int list"
  mr_vote_average :: "rat option"

record TMDBTVResult =
  tr_id :: int
  tr_name :: "string option"
  tr_overview :: "string option"
  tr_first_air_date :: "string option"
  tr_poster_path :: "string option"
  tr_genre_ids :: "int list"
  tr_vote_average :: "rat option"

record CrewMember =
  job :: string
  crewName :: string

record TMDBMovieDetails =
  md_imdb_id :: "string option"
  md_runtime :: "int option"
  md_crew :: "CrewMember list"

record TMDBTVDetails =
  td_imdb_id :: "string option"
  td_number_of_seasons :: "int option"
  td_status :: "string option"
  td_networks :: "string list"
  td_created_by :: "string list option"

subsection \<open>The outside world\<close>

text \<open>
  Every HTTP exchange is a function of the request: the catalogs are taken as stable
  while a scan runs.  A search answers \<open>None\<close> when the transport fails or the status is
  not 2xx.  The requests a function sends are returned beside its result, in order.
\<close>

datatype call =
    SearchMovie string "int option"
  | SearchTV string "int option"
  | MovieDetails int
  | TVDetails int
  | TvdbSearch string string "int option"
  | TvdbSearchRemoteId string
  | TvdbRemoteIdPath string

record TVDBSearchResult =
  tvdb_id :: "string option"
  sr_id :: "string option"
  objectID :: "string option"
  sr_name :: "string option"
  sr_type :: "string option"
  sr_primary_type :: "string option"
  sr_year :: "string option"

record RemoteIdResult =
  rr_series :: "int option option"
  rr_movie :: "int option option"

record PlexGuid =
  g_imdbId :: "string option"
  g_tmdbId :: "string option"
  g_tvdbId :: "string option"

record PlexItem =
  ratingKey :: string
  p_title :: string
  p_year :: "int option"
  guids :: PlexGuid

record Env =
  TMDB_API_KEY :: "string option"
  TVDB_API_KEY :: "string option"
  genreCache :: "int \<Rightarrow> string option"
  tmdbSearchMovie :: "string \<Rightarrow> int option \<Rightarrow> TMDBMovieResult list option"
  tmdbSearchTV :: "string \<Rightarrow> int option \<Rightarrow> TMDBTVResult list option"
  tmdbMovieDetails :: "int \<Rightarrow> TMDBMovieDetails option"
  tmdbTVDetails :: "int \<Rightarrow> TMDBTVDetails option"
  tvdbSearch :: "string \<Rightarrow> string \<Rightarrow> int option \<Rightarrow> TVDBSearchResult list option"
  tvdbSearchRemoteId :: "string \<Rightarrow> TVDBSearchResult list option"
  tvdbRemoteIdPath :: "string \<Rightarrow> RemoteIdResult list option"
  plexLibrary :: "PlexItem list option option"

text \<open>JavaScript truthiness of a string from the environment and of a number.\<close>

definition truthyStr :: "string option \<Rightarrow> bool" where
  "truthyStr s = (case s of None \<Rightarrow> False | Some v \<Rightarrow> v \<noteq> [])"

definition truthyNum :: "int option \<Rightarrow> bool" where
  "truthyNum y = (case y of None \<Rightarrow> False | Some v \<Rightarrow> v \<noteq> 0)"

definition isTMDBConfigured :: "Env \<Rightarrow> bool" where
  "isTMDBConfigured env = truthyStr (TMDB_API_KEY env)"

definition isTVDBConfigured :: "Env \<Rightarrow> bool" where
  "isTVDBConfigured env = truthyStr (TVDB_API_KEY env)"

section \<open>Primary catalog (TMDB) enrichment\<close>

definition TMDB_IMAGE_BASE :: string where
  "TMDB_IMAGE_BASE = ''https://image.tmdb.org/t/p/w500''"

definition joinWith :: "string \<Rightarrow> string list \<Rightarrow> string" where
  "joinWith s xs = (case xs of [] \<Rightarrow> [] | y # ys \<Rightarrow> foldl (\<lambda>acc z. acc @ s @ z) y ys)"

definition resolveGenres :: "Env \<Rightarrow> int list \<Rightarrow> string option" where
  "resolveGenres env genreIds =
     (if genreIds = [] then None
      else let names = filter (\<lambda>n. n \<noteq> []) (List.map_filter (genreCache env) genreIds)
           in if length names > 0 then Some (joinWith '', '' names) else None)"

definition buildUnmatched :: "LLMIdentifiedItem \<Rightarrow> EnrichedItem" where
  "buildUnmatched item =
     \<lparr> title = title item, creator = creator item, type = type item, year = year item,
       confidence = Unmatched, source = NoSource,
       tmdbId = None, imdbId = None, tvdbId = None, posterUrl = None, overview = None,
       rating = None, releaseDate = None, genres = None,
       director = None, runtime = None, network = None, seasons = None, showStatus = None,
       plexMatch = False, plexRatingKey = None \<rparr>"

text \<open>The year filter is sent only for \<open>year && year > 0\<close>.\<close>

definition yearFilter :: "int option \<Rightarrow> int option" where
  "yearFilter y = (if truthyNum y \<and> (case y of Some v \<Rightarrow> v > 0 | None \<Rightarrow> False) then y else None)"

definition searchTMDBMovies :: "Env \<Rightarrow> string \<Rightarrow> int option \<Rightarrow> TMDBMovieResult list \<times> call list" where
  "searchTMDBMovies env t y =
     (case tmdbSearchMovie env t (yearFilter y) of
        None \<Rightarrow> []
      | Some results \<Rightarrow> take 5 results,
      [SearchMovie t (yearFilter y)])"

definition searchTMDBTV :: "Env \<Rightarrow> string \<Rightarrow> int option \<Rightarrow> TMDBTVResult list \<times> call list" where
  "searchTMDBTV env t y =
     (case tmdbSearchTV env t (yearFilter y) of
        None \<Rightarrow> []
      | Some results \<Rightarrow> take 5 results,
      [SearchTV t (yearFilter y)])"

definition getMovieDetails :: "Env \<Rightarrow> int \<Rightarrow> TMDBMovieDetails option \<times> call list" where
  "getMovieDetails env i = (tmdbMovieDetails env i, [MovieDetails i])"

definition getTVDetails :: "Env \<Rightarrow> int \<Rightarrow> TMDBTVDetails option \<times> call list" where
  "getTVDetails env i = (tmdbTVDetails env i, [TVDetails i])"

text \<open>\<open>date ? parseInt(date.slice(0, 4)) : 0\<close>\<close>

definition resultYearOf :: "string option \<Rightarrow> int option" where
  "resultYearOf date =
     (case date of None \<Rightarrow> Some 0 | Some d \<Rightarrow> if d = [] then Some 0 else parseInt (take 4 d))"

text \<open>\<open>item.year && resultYear === item.year ? 0.1 : 0\<close>\<close>

definition yearBonus :: "int option \<Rightarrow> int option \<Rightarrow> rat" where
  "yearBonus itemYear resultYear =
     (if truthyNum itemYear \<and> resultYear \<noteq> None \<and> resultYear = itemYear then 1 / 10 else 0)"

text \<open>The body of the scoring loop: the total score of one candidate.\<close>

definition totalScore :: "LLMIdentifiedItem \<Rightarrow> string option \<Rightarrow> string option \<Rightarrow> error + rat" where
  "totalScore item candTitle candDate =
     (case computeTitleScore (title item) candTitle of
        Inl e \<Rightarrow> Inl e
      | Inr score \<Rightarrow> Inr (min (score + yearBonus (year item) (resultYearOf candDate)) 1))"

text \<open>The scoring loop, over any candidate type: \<open>sc\<close> is the total score of a
  candidate, the state is \<open>(bestResult, bestScore)\<close>.\<close>

fun scoreLoop :: "('c \<Rightarrow> error + rat) \<Rightarrow> 'c list \<Rightarrow> 'c option \<times> rat \<Rightarrow> error + ('c option \<times> rat)" where
  "scoreLoop sc [] st = Inr st"
| "scoreLoop sc (r # rs) (bestResult, bestScore) =
     (case sc r of
        Inl e \<Rightarrow> Inl e
      | Inr totalSc \<Rightarrow>
          scoreLoop sc rs (if totalSc > bestScore then (Some r, totalSc) else (bestResult, bestScore)))"

definition movieScore :: "LLMIdentifiedItem \<Rightarrow> TMDBMovieResult \<Rightarrow> error + rat" where
  "movieScore item r = totalScore item (mr_title r) (mr_release_date r)"

definition tvScore :: "LLMIdentifiedItem \<Rightarrow> TMDBTVResult \<Rightarrow> error + rat" where
  "tvScore item r = totalScore item (tr_name r) (tr_first_air_date r)"

definition posterOf :: "string option \<Rightarrow> string option" where
  "posterOf path = (case path of None \<Rightarrow> None
                    | Some p \<Rightarrow> if p = [] then None else Some (TMDB_IMAGE_BASE @ p))"

text \<open>\<open>date ? parseInt(date.slice(0, 4)) : null\<close>\<close>

definition releaseYearOf :: "string option \<Rightarrow> int option" where
  "releaseYearOf date =
     (case date of None \<Rightarrow> None | Some d \<Rightarrow> if d = [] then None else parseInt (take 4 d))"

text \<open>\<open>a || b\<close> on a nullable string and a string.\<close>

definition orElse :: "string option \<Rightarrow> string \<Rightarrow> string" where
  "orElse a b = (case a of None \<Rightarrow> b | Some v \<Rightarrow> if v = [] then b else v)"

definition movieRecord ::
  "LLMIdentifiedItem \<Rightarrow> TMDBMovieResult \<Rightarrow> Confidence \<Rightarrow> TMDBMovieDetails option \<Rightarrow> Env \<Rightarrow> EnrichedItem" where
  "movieRecord item bestResult conf details env =
     (let dir = (case details of None \<Rightarrow> None
                 | Some d \<Rightarrow> map_option crewName (find (\<lambda>c. job c = ''Director'') (md_crew d)));
          rt = (case details of None \<Rightarrow> None | Some d \<Rightarrow> md_runtime d);
          imdb = (case details of None \<Rightarrow> None | Some d \<Rightarrow> md_imdb_id d);
          releaseYear = releaseYearOf (mr_release_date bestResult)
      in \<lparr> title = title item, creator = orElse dir (creator item), type = Movie,
           year = releaseYear,
           confidence = conf, source = Tmdb,
           tmdbId = Some (mr_id bestResult), imdbId = imdb, tvdbId = None,
           posterUrl = posterOf (mr_poster_path bestResult),
           overview = map_option (take 500) (mr_overview bestResult),
           rating = mr_vote_average bestResult,
           releaseDate = mr_release_date bestResult,
           genres = resolveGenres env (mr_genre_ids bestResult),
           director = dir, runtime = rt, network = None, seasons = None, showStatus = None,
           plexMatch = False, plexRatingKey = None \<rparr>)"

definition enrichMovie :: "Env \<Rightarrow> LLMIdentifiedItem \<Rightarrow> (error + EnrichedItem) \<times> call list" where
  "enrichMovie env item =
     (let (results, t1) = searchTMDBMovies env (title item) (year item)
      in if length results = 0 then (Inr (buildUnmatched item), t1)
         else case scoreLoop (movieScore item) results (None, 0) of
           Inl e \<Rightarrow> (Inl e, t1)
         | Inr (None, bestScore) \<Rightarrow> (Inr (buildUnmatched item), t1)
         | Inr (Some bestResult, bestScore) \<Rightarrow>
             let conf = scoreToConfidence bestScore
             in if conf = Unmatched then (Inr (buildUnmatched item), t1)
                else let (details, t2) = getMovieDetails env (mr_id bestResult)
                     in (Inr (movieRecord item bestResult conf details env), t1 @ t2))"

definition tvRecord ::
  "LLMIdentifiedItem \<Rightarrow> TMDBTVResult \<Rightarrow> Confidence \<Rightarrow> TMDBTVDetails option \<Rightarrow> Env \<Rightarrow> EnrichedItem" where
  "tvRecord item bestResult conf details env =
     (let imdb = (case details of None \<Rightarrow> None | Some d \<Rightarrow> td_imdb_id d);
          net = (case details of None \<Rightarrow> None
                 | Some d \<Rightarrow> (case td_networks d of [] \<Rightarrow> None | n # _ \<Rightarrow> Some n));
          sns = (case details of None \<Rightarrow> None | Some d \<Rightarrow> td_number_of_seasons d);
          st = (case details of None \<Rightarrow> None | Some d \<Rightarrow> td_status d);
          createdBy = (case details of None \<Rightarrow> None
                       | Some d \<Rightarrow> map_option (joinWith '', '') (td_created_by d));
          firstAirYear = releaseYearOf (tr_first_air_date bestResult)
      in \<lparr> title = title item, creator = orElse createdBy (creator item), type = TV,
           year = firstAirYear,
           confidence = conf, source = Tmdb,
           tmdbId = Some (tr_id bestResult), imdbId = imdb, tvdbId = None,
           posterUrl = posterOf (tr_poster_path bestResult),
           overview = map_option (take 500) (tr_overview bestResult),
           rating = tr_vote_average bestResult,
           releaseDate = tr_first_air_date bestResult,
           genres = resolveGenres env (tr_genre_ids bestResult),
           director = None, runtime = None, network = net, seasons = sns, showStatus = st,
           plexMatch = False, plexRatingKey = None \<rparr>)"

text \<open>The three searches of \<open>enrichTV\<close>: the cleaned title, then the original title,
  then the cleaned title without the year.\<close>

definition tvSearches :: "Env \<Rightarrow> LLMIdentifiedItem \<Rightarrow> TMDBTVResult list \<times> call list" where
  "tvSearches env item =
     (let seriesName = extractSeriesName (title item);
          searchTitle = (if seriesName \<noteq> title item then seriesName else title item);
          (results, t1) = searchTMDBTV env searchTitle (year item);
          (results, t2) =
             (if length results = 0 \<and> searchTitle \<noteq> title item
              then searchTMDBTV env (title item) (year item) else (results, []));
          (results, t3) =
             (if length results = 0 \<and> truthyNum (year item)
                   \<and> (case year item of Some v \<Rightarrow> v > 0 | None \<Rightarrow> False)
              then searchTMDBTV env searchTitle None else (results, []))
      in (results, t1 @ t2 @ t3))"

definition enrichTV :: "Env \<Rightarrow> LLMIdentifiedItem \<Rightarrow> (error + EnrichedItem) \<times> call list" where
  "enrichTV env item =
     (let (results, t1) = tvSearches env item
      in if length results = 0 then (Inr (buildUnmatched item), t1)
         else case scoreLoop (tvScore item) results (None, 0) of
           Inl e \<Rightarrow> (Inl e, t1)
         | Inr (None, bestScore) \<Rightarrow> (Inr (buildUnmatched item), t1)
         | Inr (Some bestResult, bestScore) \<Rightarrow>
             let conf = scoreToConfidence bestScore
             in if conf = Unmatched then (Inr (buildUnmatched item), t1)
                else let (details, t2) = getTVDetails env (tr_id bestResult)
                     in (Inr (tvRecord item bestResult conf details env), t1 @ t2))"

definition enrichSingleItem :: "Env \<Rightarrow> LLMIdentifiedItem \<Rightarrow> (error + EnrichedItem) \<times> call list" where
  "enrichSingleItem env item =
     (case type item of
        Movie \<Rightarrow> enrichMovie env item
      | TV \<Rightarrow> enrichTV env item
      | DVD \<Rightarrow>
          (let (movieResult, t1) = enrichMovie env item
           in case movieResult of
                Inl e \<Rightarrow> (Inl e, t1)
              | Inr m \<Rightarrow>
                  if confidence m \<noteq> Unmatched then (Inr m, t1)
                  else let (tvResult, t2) = enrichTV env item
                       in case tvResult of
                            Inl e \<Rightarrow> (Inl e, t1 @ t2)
                          | Inr t \<Rightarrow>
                              if confidence t \<noteq> Unmatched then (Inr t, t1 @ t2)
                              else (Inr (buildUnmatched item), t1 @ t2))
      | _ \<Rightarrow> (Inr (buildUnmatched item), []))"

section \<open>The score of one candidate in double precision\<close>

text \<open>
  A JavaScript number is an IEEE 754 double (binary64): 53 significant bits, exponents
  from -1022 to 1023, every arithmetic result rounded to the nearest double, ties to the
  even significand.  \<open>fl x\<close> is the double nearest to the rational \<open>x\<close>.  Infinities and
  the sign of zero are not modelled: the scores stay between 0 and 2.
\<close>

text \<open>How often \<open>x\<close> has to be doubled to reach 1, and halved to fall below 2; the bounds
  are the exponent range, so a subnormal number keeps the exponent -1022.\<close>

fun scaleUp :: "nat \<Rightarrow> rat \<Rightarrow> nat" where
  "scaleUp 0 x = 0"
| "scaleUp (Suc n) x = (if x < 1 then Suc (scaleUp n (2 * x)) else 0)"

fun scaleDown :: "nat \<Rightarrow> rat \<Rightarrow> nat" where
  "scaleDown 0 x = 0"
| "scaleDown (Suc n) x = (if 2 \<le> x then Suc (scaleDown n (x / 2)) else 0)"

text \<open>The exponent \<open>e\<close> of a positive \<open>x\<close>: \<open>2 ^ e \<le> x < 2 ^ (e + 1)\<close>, and -1022 below the normal range.\<close>

definition exponentOf :: "rat \<Rightarrow> int" where
  "exponentOf x = (if x < 1 then - int (scaleUp 1022 x) else int (scaleDown 1023 x))"

definition pow2 :: "int \<Rightarrow> rat" where
  "pow2 k = (if 0 \<le> k then 2 ^ nat k else 1 / 2 ^ nat (- k))"

text \<open>The nearest integer, the even one of two that are equally near.\<close>

definition roundEven :: "rat \<Rightarrow> int" where
  "roundEven q =
     (let n = \<lfloor>q\<rfloor>; d = q - of_int n
      in if d < 1 / 2 then n else if 1 / 2 < d then n + 1 else if even n then n else n + 1)"

text \<open>The significand is the quotient by the unit in the last place, rounded.\<close>

definition fl :: "rat \<Rightarrow> rat" where
  "fl x =
     (if x = 0 then 0
      else let a = \<bar>x\<bar>; u = pow2 (exponentOf a - 52)
           in sgn x * of_int (roundEven (a / u)) * u)"

subsection \<open>\<open>normalizedSimilarity\<close>, \<open>computeTitleScore\<close> and the body of the scoring loops\<close>

text \<open>
  The lengths and the edit distance are integers below \<open>2 ^ 53\<close>, which are doubles.  The
  quotient, the difference, the literal \<open>0.1\<close> and the sum \<open>score + yearBonus\<close> are rounded;
  \<open>Math.max\<close> and \<open>Math.min\<close> are exact.
\<close>

definition normalizedSimilarity64 :: "string \<Rightarrow> string \<Rightarrow> rat" where
  "normalizedSimilarity64 a b =
     (if length a = 0 \<and> length b = 0 then 1
      else let maxLen = max (length a) (length b)
           in if maxLen = 0 then 1
              else fl (1 - fl (of_nat (levenshtein a b) / of_nat maxLen)))"

definition computeTitleScore64 :: "string \<Rightarrow> string option \<Rightarrow> error + rat" where
  "computeTitleScore64 queryTitle resultTitle =
     (case resultTitle of
        None \<Rightarrow> Inl TypeError
      | Some rt \<Rightarrow>
          let t1 = stripArticle (toLowerCase queryTitle);
              t2 = stripArticle (toLowerCase rt);
              rawScore = normalizedSimilarity64 t1 t2;
              t1Stripped = stripArticle (toLowerCase (stripSeasonSuffix queryTitle));
              strippedScore = normalizedSimilarity64 t1Stripped t2
          in Inr (max rawScore strippedScore))"

definition yearBonus64 :: "int option \<Rightarrow> int option \<Rightarrow> rat" where
  "yearBonus64 itemYear resultYear =
     (if truthyNum itemYear \<and> resultYear \<noteq> None \<and> resultYear = itemYear then fl (1 / 10) else 0)"

definition totalScore64 :: "LLMIdentifiedItem \<Rightarrow> string option \<Rightarrow> string option \<Rightarrow> error + rat" where
  "totalScore64 item candTitle candDate =
     (case computeTitleScore64 (title item) candTitle of
        Inl e \<Rightarrow> Inl e
      | Inr score \<Rightarrow> Inr (min (fl (score + yearBonus64 (year item) (resultYearOf candDate))) 1))"

definition movieScore64 :: "LLMIdentifiedItem \<Rightarrow> TMDBMovieResult \<Rightarrow> error + rat" where
  "movieScore64 item r = totalScore64 item (mr_title r) (mr_release_date r)"

definition tvScore64 :: "LLMIdentifiedItem \<Rightarrow> TMDBTVResult \<Rightarrow> error + rat" where
  "tvScore64 item r = totalScore64 item (tr_name r) (tr_first_air_date r)"

section \<open>Supplemental catalog (TVDB)\<close>

text \<open>
  The repository holds the module twice.  \<open>src/lib/tvdb.ts\<close> picks an exact name match or
  else the first search result; the copy in \<open>src/unnamed/part_002\<close> scores the results and
  applies a threshold.  The functions of the second copy carry the suffix \<open>2\<close> where the
  names coincide.  In both, \<open>searchTVDBSeries\<close> and \<open>searchTVDBMovie\<close> differ only in the
  \<open>type\<close> parameter of the request, which is the argument \<open>kind\<close> here.  The bearer token
  is part of the transport: a failed login makes the search answer \<open>None\<close>.
\<close>

datatype TvdbKind = Series | MovieKind

text \<open>\<open>if (year) params.set('year', String(year))\<close>\<close>

definition tvdbYearParam :: "int option \<Rightarrow> int option" where
  "tvdbYearParam y = (if truthyNum y then y else None)"

text \<open>\<open>parseInt(x, 10) || null\<close>\<close>

definition idOrNull :: "int option \<Rightarrow> int option" where
  "idOrNull v = (case v of None \<Rightarrow> None | Some n \<Rightarrow> if n = 0 then None else Some n)"

definition parseField :: "string option \<Rightarrow> int option" where
  "parseField f = (case f of None \<Rightarrow> None | Some s \<Rightarrow> parseInt10 s)"

subsection \<open>\<open>src/lib/tvdb.ts\<close>\<close>

definition searchTVDB :: "Env \<Rightarrow> string \<Rightarrow> string \<Rightarrow> int option \<Rightarrow> int option \<times> call list" where
  "searchTVDB env kind t y =
     (case tvdbSearch env kind t (tvdbYearParam y) of
        None \<Rightarrow> None
      | Some results \<Rightarrow>
          (case results of
             [] \<Rightarrow> None
           | r0 # _ \<Rightarrow>
               let normalizedTitle = trim (toLowerCase t)
               in case find (\<lambda>r. map_option (\<lambda>n. trim (toLowerCase n)) (sr_name r)
                                    = Some normalizedTitle) results of
                    Some exactMatch \<Rightarrow> idOrNull (parseField (tvdb_id exactMatch))
                  | None \<Rightarrow> idOrNull (parseField (tvdb_id r0))),
      [TvdbSearch kind t (tvdbYearParam y)])"

definition searchTVDBSeries :: "Env \<Rightarrow> string \<Rightarrow> int option \<Rightarrow> int option \<times> call list" where
  "searchTVDBSeries env t y = searchTVDB env ''series'' t y"

definition searchTVDBMovie :: "Env \<Rightarrow> string \<Rightarrow> int option \<Rightarrow> int option \<times> call list" where
  "searchTVDBMovie env t y = searchTVDB env ''movie'' t y"

text \<open>The first record with a nested series or movie; its id is passed on as it is.\<close>

fun firstRemote :: "RemoteIdResult list \<Rightarrow> (int option \<times> TvdbKind) option" where
  "firstRemote [] = None"
| "firstRemote (r # rs) =
     (case rr_series r of
        Some sid \<Rightarrow> Some (sid, Series)
      | None \<Rightarrow> (case rr_movie r of
                   Some mid \<Rightarrow> Some (mid, MovieKind)
                 | None \<Rightarrow> firstRemote rs))"

definition findTVDBByImdbId :: "Env \<Rightarrow> string \<Rightarrow> (int option \<times> TvdbKind) option \<times> call list" where
  "findTVDBByImdbId env imdb =
     (case tvdbRemoteIdPath env imdb of
        None \<Rightarrow> None
      | Some results \<Rightarrow> if length results = 0 then None else firstRemote results,
      [TvdbRemoteIdPath imdb])"

definition resolveTVDBId ::
  "Env \<Rightarrow> string \<Rightarrow> int option \<Rightarrow> string option \<Rightarrow> ItemType \<Rightarrow> int option \<times> call list" where
  "resolveTVDBId env t y imdb ty =
     (if \<not> isTVDBConfigured env then (None, [])
      else
        let (direct, t1) = (case imdb of
                              None \<Rightarrow> (None, [])
                            | Some i \<Rightarrow> if i = [] then (None, []) else findTVDBByImdbId env i)
        in case direct of
             Some result \<Rightarrow> (fst result, t1)
           | None \<Rightarrow>
               if ty = TV then
                 (let (foundId, t2) = searchTVDBSeries env t y in (foundId, t1 @ t2))
               else if ty = Movie then
                 (let (foundId, t2) = searchTVDBMovie env t y in (foundId, t1 @ t2))
               else
                 (let (movieId, t2) = searchTVDBMovie env t y
                  in if truthyNum movieId then (movieId, t1 @ t2)
                     else let (seriesId, t3) = searchTVDBSeries env t y
                          in (seriesId, t1 @ t2 @ t3)))"

subsection \<open>\<open>src/unnamed/part_002\<close>\<close>

text \<open>The part of \<open>s\<close> after its last dash, or all of \<open>s\<close>.\<close>

definition afterLastDash :: "string \<Rightarrow> string" where
  "afterLastDash s = (if CHR ''-'' \<in> set s then rev (takeWhile (\<lambda>c. c \<noteq> CHR ''-'') (rev s)) else s)"

definition validId :: "int option \<Rightarrow> bool" where
  "validId v = (case v of None \<Rightarrow> False | Some n \<Rightarrow> n > 0)"

definition extractTVDBId :: "TVDBSearchResult \<Rightarrow> int option" where
  "extractTVDBId result =
     (let p1 = (if truthyStr (tvdb_id result) then parseField (tvdb_id result) else None);
          p2 = (if truthyStr (sr_id result)
                then parseField (map_option afterLastDash (sr_id result)) else None);
          p3 = (if truthyStr (objectID result)
                then parseField (map_option afterLastDash (objectID result)) else None)
      in if validId p1 then p1
         else if validId p2 then p2
         else if validId p3 then p3
         else None)"

definition scoreTVDBResult :: "string \<Rightarrow> int option \<Rightarrow> TVDBSearchResult \<Rightarrow> rat" where
  "scoreTVDBResult queryTitle queryYear result =
     (let q = stripArticle (trim (toLowerCase queryTitle));
          r = stripArticle (trim (toLowerCase (case sr_name result of None \<Rightarrow> [] | Some n \<Rightarrow> n)));
          score = normalizedSimilarity q r;
          qStripped = stripArticle (trim (toLowerCase (extractSeriesName queryTitle)));
          score = (if qStripped \<noteq> q then max score (normalizedSimilarity qStripped r) else score)
      in if truthyNum queryYear \<and> truthyStr (sr_year result)
            \<and> parseField (sr_year result) \<noteq> None \<and> parseField (sr_year result) = queryYear
         then min (score + 1 / 10) 1
         else score)"

fun pickLoop ::
  "string \<Rightarrow> int option \<Rightarrow> TVDBSearchResult list \<Rightarrow> TVDBSearchResult option \<times> rat
     \<Rightarrow> TVDBSearchResult option \<times> rat" where
  "pickLoop t y [] st = st"
| "pickLoop t y (r # rs) (bestResult, bestScore) =
     (let score = scoreTVDBResult t y r
      in pickLoop t y rs (if score > bestScore then (Some r, score) else (bestResult, bestScore)))"

definition pickBestResult :: "string \<Rightarrow> int option \<Rightarrow> TVDBSearchResult list \<Rightarrow> TVDBSearchResult option" where
  "pickBestResult t y results =
     (if length results = 0 then None
      else let (bestResult, bestScore) = pickLoop t y results (None, 0)
           in if bestScore < 5 / 10 then None else bestResult)"

definition searchTVDB2 :: "Env \<Rightarrow> string \<Rightarrow> string \<Rightarrow> int option \<Rightarrow> int option \<times> call list" where
  "searchTVDB2 env kind t y =
     (case tvdbSearch env kind t (tvdbYearParam y) of
        None \<Rightarrow> None
      | Some results \<Rightarrow>
          if length results = 0 then None
          else (case pickBestResult t y results of
                  None \<Rightarrow> None
                | Some best \<Rightarrow> extractTVDBId best),
      [TvdbSearch kind t (tvdbYearParam y)])"

definition searchTVDBSeries2 :: "Env \<Rightarrow> string \<Rightarrow> int option \<Rightarrow> int option \<times> call list" where
  "searchTVDBSeries2 env t y = searchTVDB2 env ''series'' t y"

definition searchTVDBMovie2 :: "Env \<Rightarrow> string \<Rightarrow> int option \<Rightarrow> int option \<times> call list" where
  "searchTVDBMovie2 env t y = searchTVDB2 env ''movie'' t y"

definition resultTypeOf :: "TVDBSearchResult \<Rightarrow> string" where
  "resultTypeOf r =
     toLowerCase (case sr_type r of Some t \<Rightarrow> t
                  | None \<Rightarrow> (case sr_primary_type r of Some t \<Rightarrow> t | None \<Rightarrow> []))"

text \<open>Strategy 1: the first search result that is a series or a movie and has an id.\<close>

fun firstTyped :: "TVDBSearchResult list \<Rightarrow> (int \<times> TvdbKind) option" where
  "firstTyped [] = None"
| "firstTyped (r # rs) =
     (case extractTVDBId r of
        None \<Rightarrow> firstTyped rs
      | Some foundId \<Rightarrow>
          if foundId \<noteq> 0 \<and> (resultTypeOf r = ''series'' \<or> resultTypeOf r = ''movie'')
          then Some (foundId, if resultTypeOf r = ''series'' then Series else MovieKind)
          else firstTyped rs)"

definition viaSearch :: "TVDBSearchResult list \<Rightarrow> (int \<times> TvdbKind) option" where
  "viaSearch results =
     (case results of
        [] \<Rightarrow> None
      | r0 # _ \<Rightarrow>
          (case firstTyped results of
             Some found \<Rightarrow> Some found
           | None \<Rightarrow>
               (case extractTVDBId r0 of
                  None \<Rightarrow> None
                | Some foundId \<Rightarrow>
                    if foundId \<noteq> 0
                    then Some (foundId, if resultTypeOf r0 = ''movie'' then MovieKind else Series)
                    else None)))"

text \<open>Strategy 2: the first nested series or movie record with a positive id.\<close>

fun firstRemote2 :: "RemoteIdResult list \<Rightarrow> (int \<times> TvdbKind) option" where
  "firstRemote2 [] = None"
| "firstRemote2 (r # rs) =
     (case (case rr_series r of Some (Some sid) \<Rightarrow> if sid > 0 then Some sid else None
                              | _ \<Rightarrow> None) of
        Some sid \<Rightarrow> Some (sid, Series)
      | None \<Rightarrow>
          (case (case rr_movie r of Some (Some mid) \<Rightarrow> if mid > 0 then Some mid else None
                                  | _ \<Rightarrow> None) of
             Some mid \<Rightarrow> Some (mid, MovieKind)
           | None \<Rightarrow> firstRemote2 rs))"

definition findTVDBByImdbId2 :: "Env \<Rightarrow> string \<Rightarrow> (int \<times> TvdbKind) option \<times> call list" where
  "findTVDBByImdbId2 env imdb =
     (case (case tvdbSearchRemoteId env imdb of None \<Rightarrow> None
                                               | Some results \<Rightarrow> viaSearch results) of
        Some found \<Rightarrow> (Some found, [TvdbSearchRemoteId imdb])
      | None \<Rightarrow>
          (case tvdbRemoteIdPath env imdb of
             None \<Rightarrow> None
           | Some results \<Rightarrow> if length results = 0 then None else firstRemote2 results,
           [TvdbSearchRemoteId imdb, TvdbRemoteIdPath imdb]))"

definition resolveTVDBId2 ::
  "Env \<Rightarrow> string \<Rightarrow> int option \<Rightarrow> string option \<Rightarrow> ItemType \<Rightarrow> int option \<times> call list" where
  "resolveTVDBId2 env t y imdb ty =
     (if \<not> isTVDBConfigured env then (None, [])
      else
        let (direct, t1) = (case imdb of
                              None \<Rightarrow> (None, [])
                            | Some i \<Rightarrow> if i = [] then (None, []) else findTVDBByImdbId2 env i)
        in case direct of
             Some result \<Rightarrow> (Some (fst result), t1)
           | None \<Rightarrow>
               let searchTitle = (if ty = TV then extractSeriesName t else t)
               in if ty = TV then
                    (let (foundId, t2) = searchTVDBSeries2 env searchTitle y;
                         (foundId, t3) = (if \<not> truthyNum foundId \<and> searchTitle \<noteq> t
                                         then searchTVDBSeries2 env t y else (foundId, []))
                     in (foundId, t1 @ t2 @ t3))
                  else if ty = Movie then
                    (let (foundId, t2) = searchTVDBMovie2 env t y in (foundId, t1 @ t2))
                  else
                    (let (movieId, t2) = searchTVDBMovie2 env t y
                     in if truthyNum movieId then (movieId, t1 @ t2)
                        else let (seriesId, t3) = searchTVDBSeries2 env t y
                             in (seriesId, t1 @ t2 @ t3)))"

section \<open>Personal library (Plex) cross-reference\<close>

fun startsWith :: "string \<Rightarrow> string \<Rightarrow> bool" where
  "startsWith s [] = True"
| "startsWith [] (p # ps) = False"
| "startsWith (c # cs) (p # ps) = (c = p \<and> startsWith cs ps)"

text \<open>\<open>s.includes(sub)\<close>\<close>

fun includesStr :: "string \<Rightarrow> string \<Rightarrow> bool" where
  "includesStr [] sub = (sub = [])"
| "includesStr (c # cs) sub = (startsWith (c # cs) sub \<or> includesStr cs sub)"

text \<open>\<open>s.replace(/\s+/g, ' ')\<close>: every run of white space becomes one space.\<close>

fun collapseFrom :: "bool \<Rightarrow> string \<Rightarrow> string" where
  "collapseFrom inRun [] = []"
| "collapseFrom inRun (c # cs) =
     (if isSpace c then (if inRun then collapseFrom True cs else CHR '' '' # collapseFrom True cs)
      else c # collapseFrom False cs)"

definition collapseSpaces :: "string \<Rightarrow> string" where
  "collapseSpaces s = collapseFrom False s"

definition isLowerAlnum :: "char \<Rightarrow> bool" where
  "isLowerAlnum c = (c \<in> set ''abcdefghijklmnopqrstuvwxyz0123456789'')"

definition normalizeTitle :: "string \<Rightarrow> string" where
  "normalizeTitle t =
     trim (collapseSpaces (filter (\<lambda>c. isLowerAlnum c \<or> isSpace c) (toLowerCase t)))"

record PlexMatchResult =
  matched :: bool
  pm_plexRatingKey :: "string option"
  pm_imdbId :: "string option"
  pm_tmdbId :: "string option"
  pm_tvdbId :: "string option"

text \<open>\<open>year && plexItem.year && Math.abs(year - plexItem.year) > 1\<close>\<close>

definition yearMismatch :: "int option \<Rightarrow> int option \<Rightarrow> bool" where
  "yearMismatch y py =
     (truthyNum y \<and> truthyNum py
      \<and> (case (y, py) of (Some a, Some b) \<Rightarrow> \<bar>a - b\<bar> > 1 | _ \<Rightarrow> False))"

definition plexHit :: "PlexItem \<Rightarrow> PlexMatchResult" where
  "plexHit plexItem =
     \<lparr> matched = True, pm_plexRatingKey = Some (ratingKey plexItem),
       pm_imdbId = g_imdbId (guids plexItem),
       pm_tmdbId = g_tmdbId (guids plexItem),
       pm_tvdbId = g_tvdbId (guids plexItem) \<rparr>"

fun plexLoop :: "string \<Rightarrow> int option \<Rightarrow> PlexItem list \<Rightarrow> PlexMatchResult" where
  "plexLoop normalizedQuery y [] =
     \<lparr> matched = False, pm_plexRatingKey = None, pm_imdbId = None, pm_tmdbId = None,
       pm_tvdbId = None \<rparr>"
| "plexLoop normalizedQuery y (plexItem # rest) =
     (let normalizedPlex = normalizeTitle (p_title plexItem)
      in if normalizedQuery = normalizedPlex then
           (if yearMismatch y (p_year plexItem) then plexLoop normalizedQuery y rest
            else plexHit plexItem)
         else if includesStr normalizedQuery normalizedPlex \<or> includesStr normalizedPlex normalizedQuery then
           (if yearMismatch y (p_year plexItem) then plexLoop normalizedQuery y rest
            else plexHit plexItem)
         else plexLoop normalizedQuery y rest)"

definition matchWithPlex :: "string \<Rightarrow> int option \<Rightarrow> PlexItem list \<Rightarrow> PlexMatchResult" where
  "matchWithPlex t y plexItems = plexLoop (normalizeTitle t) y plexItems"

text \<open>The merge both callers apply to an enriched item after \<open>matchWithPlex\<close>.\<close>

definition plexMerge :: "PlexItem list \<Rightarrow> EnrichedItem \<Rightarrow> EnrichedItem" where
  "plexMerge plexItems item =
     (let plexMatch' = matchWithPlex (title item) (year item) plexItems
      in if matched plexMatch' then
           item \<lparr> plexMatch := True,
                  plexRatingKey := pm_plexRatingKey plexMatch',
                  imdbId := (if \<not> truthyStr (imdbId item) \<and> truthyStr (pm_imdbId plexMatch')
                             then pm_imdbId plexMatch' else imdbId item),
                  tvdbId := (if \<not> truthyNum (tvdbId item) \<and> truthyStr (pm_tvdbId plexMatch')
                             then idOrNull (parseField (pm_tvdbId plexMatch')) else tvdbId item) \<rparr>
         else item)"

section \<open>Enriching a list of items\<close>

datatype failure = ConfigError | MissingTitle | NotFound

text \<open>
  \<open>enrichItems\<close> with the resolver of the supplemental catalog as a parameter: either
  copy of \<open>resolveTVDBId\<close> fits.  \<open>Promise.allSettled\<close> keeps one outcome per item, in the
  order of the items, and the items share no mutable state but the caches the
  environment stands for; so the model maps over the list.
\<close>

type_synonym resolver = "Env \<Rightarrow> string \<Rightarrow> int option \<Rightarrow> string option \<Rightarrow> ItemType \<Rightarrow> error + int option"

definition settle :: "LLMIdentifiedItem list \<Rightarrow> (error + EnrichedItem) list \<Rightarrow> EnrichedItem list" where
  "settle items results =
     map (\<lambda>(result, i). case result of Inr v \<Rightarrow> v | Inl reason \<Rightarrow> buildUnmatched (items ! i))
         (zip results [0..<length results])"

definition tvdbLookups :: "resolver \<Rightarrow> Env \<Rightarrow> EnrichedItem list \<Rightarrow> (error + int option) list" where
  "tvdbLookups resolve env enriched =
     map (\<lambda>item. if confidence item = Unmatched then Inr None
                  else resolve env (title item) (year item) (imdbId item) (type item))
         enriched"

text \<open>The body of the loop that writes the ids back.\<close>

definition assignStep :: "(error + int option) list \<Rightarrow> nat \<Rightarrow> EnrichedItem list \<Rightarrow> EnrichedItem list" where
  "assignStep tvdbResults i enriched =
     (case tvdbResults ! i of
        Inr (Some v) \<Rightarrow> enriched[i := (enriched ! i)\<lparr>tvdbId := Some v\<rparr>]
      | _ \<Rightarrow> enriched)"

definition tvdbAssign :: "(error + int option) list \<Rightarrow> EnrichedItem list \<Rightarrow> EnrichedItem list" where
  "tvdbAssign tvdbResults enriched = fold (assignStep tvdbResults) [0..<length enriched] enriched"

definition enrichItemsWith :: "resolver \<Rightarrow> Env \<Rightarrow> LLMIdentifiedItem list \<Rightarrow> failure + EnrichedItem list" where
  "enrichItemsWith resolve env items =
     (if \<not> isTMDBConfigured env then Inl ConfigError
      else
        let results = map (\<lambda>item. fst (enrichSingleItem env item)) items;
            enriched = settle items results
        in if isTVDBConfigured env
           then Inr (tvdbAssign (tvdbLookups resolve env enriched) enriched)
           else Inr enriched)"

definition resolver1 :: resolver where
  "resolver1 env t y imdb ty = Inr (fst (resolveTVDBId env t y imdb ty))"

definition resolver2 :: resolver where
  "resolver2 env t y imdb ty = Inr (fst (resolveTVDBId2 env t y imdb ty))"

definition enrichItems :: "Env \<Rightarrow> LLMIdentifiedItem list \<Rightarrow> failure + EnrichedItem list" where
  "enrichItems env items = enrichItemsWith resolver1 env items"

definition enrichItems2 :: "Env \<Rightarrow> LLMIdentifiedItem list \<Rightarrow> failure + EnrichedItem list" where
  "enrichItems2 env items = enrichItemsWith resolver2 env items"

subsection \<open>The scan's enrichment step and the single-item edit\<close>

text \<open>\<open>plexLibrary env\<close> is \<open>None\<close> when Plex is not configured and \<open>Some None\<close> when fetching
  the library throws.  A failed fetch leaves every item as it was.\<close>

definition plexStep :: "Env \<Rightarrow> EnrichedItem list \<Rightarrow> EnrichedItem list" where
  "plexStep env enriched =
     (case plexLibrary env of
        None \<Rightarrow> enriched
      | Some None \<Rightarrow> enriched
      | Some (Some lib) \<Rightarrow> map (plexMerge lib) enriched)"

text \<open>The enriched part of the rows \<open>enrichAndSaveItems\<close> inserts.\<close>

definition enrichAndSaveItems :: "resolver \<Rightarrow> Env \<Rightarrow> LLMIdentifiedItem list \<Rightarrow> failure + EnrichedItem list" where
  "enrichAndSaveItems resolve env llmItems =
     (case enrichItemsWith resolve env llmItems of
        Inl e \<Rightarrow> Inl e
      | Inr enriched \<Rightarrow> Inr (plexStep env enriched))"

record ScanItemRow = EnrichedItem +
  rawTitle :: string
  rawCreator :: string
  rawYear :: "int option"

text \<open>\<open>PUT /api/scans/[id]/items/[itemId]\<close>: the body's title and creator, the stored row
  (\<open>None\<close> when no row has the id), and the enriched part of the updated row.\<close>

definition putItem ::
  "resolver \<Rightarrow> Env \<Rightarrow> string option \<Rightarrow> string option \<Rightarrow> ScanItemRow option \<Rightarrow> failure + EnrichedItem" where
  "putItem resolve env bodyTitle bodyCreator stored =
     (if \<not> truthyStr bodyTitle then Inl MissingTitle
      else case stored of
        None \<Rightarrow> Inl NotFound
      | Some item \<Rightarrow>
          let t = (case bodyTitle of Some v \<Rightarrow> v | None \<Rightarrow> []);
              llmItem = \<lparr> title = t,
                          creator = (case bodyCreator of Some c \<Rightarrow> c | None \<Rightarrow> creator item),
                          type = type item, year = rawYear item \<rparr>
          in case enrichItemsWith resolve env [llmItem] of
               Inl e \<Rightarrow> Inl e
             | Inr enriched \<Rightarrow>
                 (case plexStep env enriched of
                    enrichedItem # _ \<Rightarrow> Inr enrichedItem
                  | [] \<Rightarrow>
                      Inr ((buildUnmatched llmItem)
                             \<lparr> year := None, confidence := confidence item,
                               source := source item \<rparr>)))"

section \<open>Reading the vision model's answer\<close>

text \<open>JSON values.  Numbers are the integers: the only number of the schema is the year.\<close>

datatype json =
    JNull
  | JBool bool
  | JNum int
  | JStr string
  | JArr "json list"
  | JObj "(string \<times> json) list"

text \<open>\<open>!parsed\<close> is false.\<close>

definition truthyJson :: "json \<Rightarrow> bool" where
  "truthyJson v =
     (case v of JNull \<Rightarrow> False | JBool b \<Rightarrow> b | JNum n \<Rightarrow> n \<noteq> 0 | JStr s \<Rightarrow> s \<noteq> []
      | JArr xs \<Rightarrow> True | JObj kvs \<Rightarrow> True)"

subsection \<open>The fence pattern\<close>

text \<open>
  \<open>content.match(/```(?:json)?\s*([\s\S]*?)```/)\<close>.  The match starts at the first
  three backticks that are followed, three or more characters later, by three backticks
  again; the optional \<open>json\<close> and the white space are consumed greedily and hold no
  backtick, so the lazy group is the text from there up to the next three backticks.
  \<open>cutFence s\<close> splits \<open>s\<close> at its first three backticks.
\<close>

fun cutFence :: "string \<Rightarrow> (string \<times> string) option" where
  "cutFence [] = None"
| "cutFence (c # cs) =
     (if startsWith (c # cs) ''```'' then Some ([], drop 3 (c # cs))
      else case cutFence cs of None \<Rightarrow> None | Some (before, rest) \<Rightarrow> Some (c # before, rest))"

definition fenceMatch :: "string \<Rightarrow> string option" where
  "fenceMatch content =
     (case cutFence content of
        None \<Rightarrow> None
      | Some (before, rest) \<Rightarrow>
          let rest1 = (if startsWith rest ''json'' then drop 4 rest else rest);
              rest2 = dropWhile isSpace rest1
          in case cutFence rest2 of
               None \<Rightarrow> None
             | Some (inner, after) \<Rightarrow> Some inner)"

text \<open>\<open>JSON.parse\<close> is the parameter \<open>parse\<close>; \<open>None\<close> when it throws.  The function
  returns \<open>null\<close> when both attempts to parse fail.\<close>

definition tryParseJson :: "(string \<Rightarrow> json option) \<Rightarrow> string \<Rightarrow> json" where
  "tryParseJson parse content =
     (case parse content of
        Some v \<Rightarrow> v
      | None \<Rightarrow>
          (case fenceMatch content of
             None \<Rightarrow> JNull
           | Some inner \<Rightarrow> (case parse (trim inner) of Some v \<Rightarrow> v | None \<Rightarrow> JNull)))"

subsection \<open>Coercion and validation\<close>

fun setKey :: "string \<Rightarrow> json \<Rightarrow> (string \<times> json) list \<Rightarrow> (string \<times> json) list" where
  "setKey k v [] = [(k, v)]"
| "setKey k v (p # ps) = (if fst p = k then (k, v) # ps else p # setKey k v ps)"

definition delKey :: "string \<Rightarrow> (string \<times> json) list \<Rightarrow> (string \<times> json) list" where
  "delKey k kvs = filter (\<lambda>p. fst p \<noteq> k) kvs"

definition coerceType :: "(string \<times> json) list \<Rightarrow> (string \<times> json) list" where
  "coerceType i =
     (case map_of i ''type'' of
        Some (JStr t) \<Rightarrow>
          setKey ''type'' (JStr (if toLowerCase t = ''book'' then ''other'' else toLowerCase t)) i
      | _ \<Rightarrow> i)"

definition coerceAuthor :: "(string \<times> json) list \<Rightarrow> (string \<times> json) list" where
  "coerceAuthor i =
     (case map_of i ''author'' of
        Some a \<Rightarrow> if map_of i ''creator'' = None then delKey ''author'' (setKey ''creator'' a i) else i
      | None \<Rightarrow> i)"

definition coerceYear :: "(string \<times> json) list \<Rightarrow> (string \<times> json) list" where
  "coerceYear i =
     (case map_of i ''year'' of
        Some (JStr y) \<Rightarrow>
          (case parseInt y of None \<Rightarrow> delKey ''year'' i | Some parsed \<Rightarrow> setKey ''year'' (JNum parsed) i)
      | _ \<Rightarrow> i)"

definition coerceItem :: "json \<Rightarrow> json" where
  "coerceItem item =
     (case item of JObj i \<Rightarrow> JObj (coerceYear (coerceAuthor (coerceType i))) | _ \<Rightarrow> item)"

definition coerceItemTypes :: "json \<Rightarrow> json" where
  "coerceItemTypes data =
     (case data of
        JObj obj \<Rightarrow>
          (case map_of obj ''items'' of
             Some (JArr items) \<Rightarrow> JObj (setKey ''items'' (JArr (map coerceItem items)) obj)
           | _ \<Rightarrow> JObj obj)
      | _ \<Rightarrow> data)"

definition itemTypeOf :: "string \<Rightarrow> ItemType option" where
  "itemTypeOf s = map_of [(''movie'', Movie), (''tv'', TV), (''dvd'', DVD), (''vinyl'', Vinyl),
                          (''game'', Game), (''other'', Other)] s"

text \<open>\<open>LLMItemSchema\<close> and \<open>LLMResponseSchema\<close>.\<close>

definition validateItem :: "json \<Rightarrow> LLMIdentifiedItem option" where
  "validateItem j =
     (case j of
        JObj i \<Rightarrow>
          (case (map_of i ''title'', map_of i ''creator'', map_of i ''type'') of
             (Some (JStr t), Some (JStr c), Some (JStr ty)) \<Rightarrow>
               (case (length t \<ge> 1, itemTypeOf ty, map_of i ''year'') of
                  (True, Some k, None) \<Rightarrow>
                    Some \<lparr> title = t, creator = c, type = k, year = None \<rparr>
                | (True, Some k, Some (JNum y)) \<Rightarrow>
                    Some \<lparr> title = t, creator = c, type = k, year = Some y \<rparr>
                | _ \<Rightarrow> None)
           | _ \<Rightarrow> None)
      | _ \<Rightarrow> None)"

definition validate :: "json \<Rightarrow> LLMIdentifiedItem list option" where
  "validate data =
     (case data of
        JObj obj \<Rightarrow>
          (case map_of obj ''items'' of
             Some (JArr items) \<Rightarrow> those (map validateItem items)
           | _ \<Rightarrow> None)
      | _ \<Rightarrow> None)"

subsection \<open>The two attempts of the analysing step\<close>

datatype attemptError = EmptyResponse | ParseFailed | ValidationFailed

definition readResponse :: "(string \<Rightarrow> json option) \<Rightarrow> string \<Rightarrow> attemptError + LLMIdentifiedItem list" where
  "readResponse parse content =
     (if content = [] then Inl EmptyResponse
      else let parsed = tryParseJson parse content
           in if \<not> truthyJson parsed then Inl ParseFailed
              else case validate (coerceItemTypes parsed) of
                     None \<Rightarrow> Inl ValidationFailed
                   | Some items \<Rightarrow> Inr items)"

datatype scanError = CallThrew | NoItems "attemptError option"

text \<open>\<open>llm k\<close> is the content of the answer to call \<open>k\<close> (\<open>None\<close> when the call throws).
  The result comes with the number of calls made.\<close>

fun attemptLoop ::
  "(string \<Rightarrow> json option) \<Rightarrow> (nat \<Rightarrow> string option) \<Rightarrow> nat \<Rightarrow> nat \<Rightarrow> attemptError option
     \<Rightarrow> (scanError + LLMIdentifiedItem list) \<times> nat" where
  "attemptLoop parse llm attempt 0 lastError = (Inl (NoItems lastError), attempt)"
| "attemptLoop parse llm attempt (Suc remaining) lastError =
     (case llm attempt of
        None \<Rightarrow> (Inl CallThrew, Suc attempt)
      | Some content \<Rightarrow>
          (case readResponse parse content of
             Inr items \<Rightarrow> (Inr items, Suc attempt)
           | Inl e \<Rightarrow> attemptLoop parse llm (Suc attempt) remaining (Some e)))"

definition analyzeStep ::
  "(string \<Rightarrow> json option) \<Rightarrow> (nat \<Rightarrow> string option) \<Rightarrow> (scanError + LLMIdentifiedItem list) \<times> nat" where
  "analyzeStep parse llm = attemptLoop parse llm 0 2 None"

subsection \<open>A parser for the worked examples\<close>

text \<open>
  A recursive-descent reader of JSON texts: objects, arrays, strings with the simple
  escapes, integers and the three literals.  It stands for \<open>JSON.parse\<close> in the worked
  examples only; the general statements hold for every \<open>parse\<close>.  Each call consumes a
  character, so the length of the text is fuel enough.
\<close>

definition jsonWs :: "char \<Rightarrow> bool" where
  "jsonWs c = (c \<in> set [CHR 0x20, CHR 0x09, CHR 0x0A, CHR 0x0D])"

definition escapes :: "(char \<times> char) list" where
  "escapes = [(CHR 0x22, CHR 0x22), (CHR 0x5C, CHR 0x5C), (CHR ''/'', CHR ''/''),
     (CHR ''n'', CHR 0x0A), (CHR ''t'', CHR 0x09), (CHR ''r'', CHR 0x0D),
     (CHR ''b'', CHR 0x08), (CHR ''f'', CHR 0x0C)]"

fun parseStr :: "string \<Rightarrow> string \<Rightarrow> (string \<times> string) option" where
  "parseStr acc [] = None"
| "parseStr acc [c] = (if c = CHR 0x22 then Some (rev acc, []) else None)"
| "parseStr acc (c # d # cs) =
     (if c = CHR 0x22 then Some (rev acc, d # cs)
      else if c = CHR 0x5C then
        (case map_of escapes d of None \<Rightarrow> None | Some ch \<Rightarrow> parseStr (ch # acc) cs)
      else if (of_char c :: nat) < 32 then None
      else parseStr (c # acc) (d # cs))"

definition parseNum :: "string \<Rightarrow> (json \<times> string) option" where
  "parseNum s =
     (let neg = startsWith s ''-'';
          s1 = (if neg then drop 1 s else s);
          ds = takeWhile isDigit s1;
          rest = dropWhile isDigit s1
      in if ds = [] \<or> (length ds > 1 \<and> startsWith ds ''0'')
            \<or> startsWith rest ''.'' \<or> startsWith rest ''e'' \<or> startsWith rest ''E''
         then None
         else Some (JNum (if neg then - digitsVal 10 ds else digitsVal 10 ds), rest))"

fun parseValue :: "nat \<Rightarrow> string \<Rightarrow> (json \<times> string) option"
  and parseElems :: "nat \<Rightarrow> json list \<Rightarrow> string \<Rightarrow> (json list \<times> string) option"
  and parseMembers :: "nat \<Rightarrow> (string \<times> json) list \<Rightarrow> string \<Rightarrow> ((string \<times> json) list \<times> string) option"
where
  "parseValue 0 s = None"
| "parseValue (Suc f) s =
     (let t = dropWhile jsonWs s
      in if startsWith t ''{'' then
           (if startsWith (dropWhile jsonWs (drop 1 t)) ''}''
            then Some (JObj [], drop 1 (dropWhile jsonWs (drop 1 t)))
            else case parseMembers f [] (drop 1 t) of
                   None \<Rightarrow> None | Some (kvs, rest) \<Rightarrow> Some (JObj kvs, rest))
         else if startsWith t ''['' then
           (if startsWith (dropWhile jsonWs (drop 1 t)) '']''
            then Some (JArr [], drop 1 (dropWhile jsonWs (drop 1 t)))
            else case parseElems f [] (drop 1 t) of
                   None \<Rightarrow> None | Some (vs, rest) \<Rightarrow> Some (JArr vs, rest))
         else if startsWith t [CHR 0x22] then
           (case parseStr [] (drop 1 t) of
              None \<Rightarrow> None | Some (str, rest) \<Rightarrow> Some (JStr str, rest))
         else if startsWith t ''true'' then Some (JBool True, drop 4 t)
         else if startsWith t ''false'' then Some (JBool False, drop 5 t)
         else if startsWith t ''null'' then Some (JNull, drop 4 t)
         else parseNum t)"
| "parseElems 0 acc s = None"
| "parseElems (Suc f) acc s =
     (case parseValue f s of
        None \<Rightarrow> None
      | Some (v, rest) \<Rightarrow>
          let t = dropWhile jsonWs rest
          in if startsWith t '','' then parseElems f (acc @ [v]) (drop 1 t)
             else if startsWith t '']'' then Some (acc @ [v], drop 1 t)
             else None)"
| "parseMembers 0 acc s = None"
| "parseMembers (Suc f) acc s =
     (let t = dropWhile jsonWs s
      in if startsWith t [CHR 0x22] then
           (case parseStr [] (drop 1 t) of
              None \<Rightarrow> None
            | Some (k, rest) \<Rightarrow>
                let u = dropWhile jsonWs rest
                in if startsWith u '':'' then
                     (case parseValue f (drop 1 u) of
                        None \<Rightarrow> None
                      | Some (v, rest') \<Rightarrow>
                          let w = dropWhile jsonWs rest'
                          in if startsWith w '','' then parseMembers f (setKey k v acc) (drop 1 w)
                             else if startsWith w ''}'' then Some (setKey k v acc, drop 1 w)
                             else None)
                   else None)
         else None)"

definition jsonParse :: "string \<Rightarrow> json option" where
  "jsonParse s =
     (case parseValue (Suc (length s)) s of
        None \<Rightarrow> None
      | Some (v, rest) \<Rightarrow> if dropWhile jsonWs rest = [] then Some v else None)"

section \<open>Properties checked: vocabulary\<close>

text \<open>\<open>isBest sc results best bestScore\<close>: no candidate scores above \<open>bestScore\<close>, and
  \<open>best\<close> is a candidate that reaches it (or nobody scored above zero).\<close>

definition isBest :: "('c \<Rightarrow> error + rat) \<Rightarrow> 'c list \<Rightarrow> 'c option \<Rightarrow> rat \<Rightarrow> bool" where
  "isBest sc results best bestScore =
     ((\<forall>r \<in> set results. case sc r of Inl e \<Rightarrow> False | Inr s \<Rightarrow> s \<le> bestScore)
      \<and> (case best of None \<Rightarrow> bestScore = 0
          | Some b \<Rightarrow> b \<in> set results \<and> sc b = Inr bestScore \<and> bestScore > 0))"

text \<open>\<open>tiered item bestId bestScore out\<close>: the outcome carries the tier of the best score:
  \<open>high\<close> from 0.85, \<open>low\<close> from 0.50, and the unmatched record below.\<close>

definition tiered :: "LLMIdentifiedItem \<Rightarrow> int option \<Rightarrow> rat \<Rightarrow> error + EnrichedItem \<Rightarrow> bool" where
  "tiered item bestId bestScore out =
     (case out of
        Inl e \<Rightarrow> False
      | Inr e \<Rightarrow>
          if bestScore \<ge> 85 / 100 then confidence e = High \<and> source e = Tmdb \<and> tmdbId e = bestId
          else if bestScore \<ge> 50 / 100 then confidence e = Low \<and> source e = Tmdb \<and> tmdbId e = bestId
          else e = buildUnmatched item)"

text \<open>Requests of the movie path and of the TV path of the primary catalog.\<close>

definition isMovieCall :: "call \<Rightarrow> bool" where
  "isMovieCall c = (case c of SearchMovie t y \<Rightarrow> True | MovieDetails i \<Rightarrow> True | _ \<Rightarrow> False)"

definition isTVCall :: "call \<Rightarrow> bool" where
  "isTVCall c = (case c of SearchTV t y \<Rightarrow> True | TVDetails i \<Rightarrow> True | _ \<Rightarrow> False)"

text \<open>An attempt that returned, and returned an item of confidence \<open>unmatched\<close>.\<close>

definition yieldsUnmatched :: "error + EnrichedItem \<Rightarrow> bool" where
  "yieldsUnmatched out = (case out of Inl e \<Rightarrow> False | Inr e \<Rightarrow> confidence e = Unmatched)"

text \<open>A request of the supplemental catalog's title search.\<close>

definition isTitleSearch :: "call \<Rightarrow> bool" where
  "isTitleSearch c = (case c of TvdbSearch k t y \<Rightarrow> True | _ \<Rightarrow> False)"

text \<open>The enrichment of one item: its primary-catalog outcome (the unmatched record when
  the resolution throws), then the id of the supplemental catalog.\<close>

definition enrichmentOf :: "resolver \<Rightarrow> Env \<Rightarrow> LLMIdentifiedItem \<Rightarrow> EnrichedItem" where
  "enrichmentOf resolve env item =
     (let e = (case fst (enrichSingleItem env item) of
                 Inr v \<Rightarrow> v
               | Inl reason \<Rightarrow> buildUnmatched item)
      in if isTVDBConfigured env \<and> confidence e \<noteq> Unmatched
         then (case resolve env (title e) (year e) (imdbId e) (type e) of
                 Inr (Some v) \<Rightarrow> e\<lparr>tvdbId := Some v\<rparr>
               | _ \<Rightarrow> e)
         else e)"

definition catalogFieldsNull :: "EnrichedItem \<Rightarrow> bool" where
  "catalogFieldsNull e =
     (tmdbId e = None \<and> imdbId e = None \<and> tvdbId e = None \<and> posterUrl e = None
      \<and> overview e = None \<and> rating e = None \<and> releaseDate e = None \<and> genres e = None
      \<and> director e = None \<and> runtime e = None \<and> network e = None \<and> seasons e = None
      \<and> showStatus e = None)"

text \<open>The same without the two identifiers the personal library can fill.\<close>

definition descriptiveFieldsNull :: "EnrichedItem \<Rightarrow> bool" where
  "descriptiveFieldsNull e =
     (tmdbId e = None \<and> posterUrl e = None
      \<and> overview e = None \<and> rating e = None \<and> releaseDate e = None \<and> genres e = None
      \<and> director e = None \<and> runtime e = None \<and> network e = None \<and> seasons e = None
      \<and> showStatus e = None)"

text \<open>What the write-back loop leaves at position \<open>i\<close>.\<close>

definition assigned :: "(error + int option) list \<Rightarrow> EnrichedItem list \<Rightarrow> nat \<Rightarrow> EnrichedItem" where
  "assigned rs en i = (case rs ! i of Inr (Some v) \<Rightarrow> (en ! i)\<lparr>tvdbId := Some v\<rparr> | _ \<Rightarrow> en ! i)"

subsection \<open>A small catalog for the worked examples\<close>

definition alienMovie :: TMDBMovieResult where
  "alienMovie = \<lparr> mr_id = 348, mr_title = Some ''Alien'', mr_overview = Some ''A crew wakes up.'',
     mr_release_date = Some ''1979-05-25'', mr_poster_path = Some ''/alien.jpg'',
     mr_genre_ids = [27, 878], mr_vote_average = Some (81 / 10) \<rparr>"

definition breakingBad :: TMDBTVResult where
  "breakingBad = \<lparr> tr_id = 1396, tr_name = Some ''Breaking Bad'', tr_overview = None,
     tr_first_air_date = Some ''2008-01-20'', tr_poster_path = None,
     tr_genre_ids = [18], tr_vote_average = Some (89 / 10) \<rparr>"

definition lostInSpace :: TVDBSearchResult where
  "lostInSpace = \<lparr> tvdb_id = Some ''343253'', sr_id = Some ''series-343253'', objectID = None,
     sr_name = Some ''Lost in Space'', sr_type = Some ''series'', sr_primary_type = None,
     sr_year = Some ''2018'' \<rparr>"

definition breakingBadTvdb :: TVDBSearchResult where
  "breakingBadTvdb = \<lparr> tvdb_id = Some ''81189'', sr_id = Some ''series-81189'', objectID = None,
     sr_name = Some ''Breaking Bad'', sr_type = Some ''series'', sr_primary_type = None,
     sr_year = Some ''2008'' \<rparr>"

definition demoEnv :: Env where
  "demoEnv = \<lparr> TMDB_API_KEY = Some ''key'', TVDB_API_KEY = Some ''key'',
     genreCache = [18 \<mapsto> ''Drama'', 27 \<mapsto> ''Horror''],
     tmdbSearchMovie = (\<lambda>t y. Some [alienMovie]),
     tmdbSearchTV = (\<lambda>t y. Some [breakingBad]),
     tmdbMovieDetails = (\<lambda>i. Some \<lparr> md_imdb_id = Some ''tt0078748'', md_runtime = Some 117,
        md_crew = [\<lparr> job = ''Director'', crewName = ''Ridley Scott'' \<rparr>] \<rparr>),
     tmdbTVDetails = (\<lambda>i. None),
     tvdbSearch = (\<lambda>k t y. Some [lostInSpace]),
     tvdbSearchRemoteId = (\<lambda>i. Some [breakingBadTvdb]),
     tvdbRemoteIdPath = (\<lambda>i. Some [\<lparr> rr_series = Some (Some 81189), rr_movie = None \<rparr>]),
     plexLibrary = None \<rparr>"

definition alienInPlex :: PlexItem where
  "alienInPlex = \<lparr> ratingKey = ''42'', p_title = ''Alien'', p_year = Some 1979,
     guids = \<lparr> g_imdbId = Some ''tt0078748'', g_tmdbId = Some ''348'', g_tvdbId = None \<rparr> \<rparr>"

definition plexEnv :: Env where
  "plexEnv = demoEnv \<lparr> plexLibrary := Some (Some [alienInPlex]) \<rparr>"

definition discItem :: LLMIdentifiedItem where
  "discItem = \<lparr> title = ''Breaking Bad - Season 1'', creator = [], type = DVD, year = Some 2008 \<rparr>"

definition vinylItem :: LLMIdentifiedItem where
  "vinylItem = \<lparr> title = ''Alien'', creator = ''Jerry Goldsmith'', type = Vinyl, year = Some 0 \<rparr>"







definition movieItem :: LLMIdentifiedItem where
  "movieItem = \<lparr> title = ''Alien'', creator = [], type = Movie, year = Some 1979 \<rparr>"

text \<open>A catalog whose movie search answers with a candidate that has no title.\<close>

definition brokenEnv :: Env where
  "brokenEnv = demoEnv \<lparr> tmdbSearchMovie := (\<lambda>t y. Some [alienMovie \<lparr> mr_title := None \<rparr>]) \<rparr>"

definition plexedVinyl :: EnrichedItem where
  "plexedVinyl = (buildUnmatched vinylItem)
     \<lparr> imdbId := Some ''tt0078748'', plexMatch := True, plexRatingKey := Some ''42'' \<rparr>"

definition vinylRow :: ScanItemRow where
  "vinylRow = EnrichedItem.extend (buildUnmatched vinylItem)
     (ScanItemRow.fields ''Alien'' ''Jerry Goldsmith'' (Some 0))"

subsection \<open>Edit distance, as the textbook defines it\<close>

text \<open>\<open>editDist a b i j\<close> is the distance between the first \<open>i\<close> elements of \<open>a\<close> and the
  first \<open>j\<close> elements of \<open>b\<close>, with unit cost for insertion, deletion and substitution.\<close>

fun editDist :: "'a list \<Rightarrow> 'a list \<Rightarrow> nat \<Rightarrow> nat \<Rightarrow> nat" where
  "editDist a b 0 j = j"
| "editDist a b (Suc i) 0 = Suc i"
| "editDist a b (Suc i) (Suc j) =
     (if a ! i = b ! j then editDist a b i j
      else 1 + min (editDist a b i (Suc j)) (min (editDist a b (Suc i) j) (editDist a b i j)))"

text \<open>The table has \<open>m + 1\<close> rows of \<open>n + 1\<close> cells.\<close>

definition shaped :: "nat \<Rightarrow> nat \<Rightarrow> nat list list \<Rightarrow> bool" where
  "shaped m n dp = (length dp = Suc m \<and> (\<forall>i \<le> m. length (dp ! i) = Suc n))"

text \<open>Rows below \<open>k\<close> are filled in, and so are the first \<open>c\<close> cells of row \<open>k\<close> and the
  first column.\<close>

definition filled :: "'a list \<Rightarrow> 'a list \<Rightarrow> nat \<Rightarrow> nat \<Rightarrow> nat list list \<Rightarrow> bool" where
  "filled a b k c dp =
     (shaped (length a) (length b) dp
      \<and> (\<forall>i < k. \<forall>j \<le> length b. dp ! i ! j = editDist a b i j)
      \<and> (\<forall>j < c. k \<le> length a \<longrightarrow> dp ! k ! j = editDist a b k j)
      \<and> (\<forall>i \<le> length a. dp ! i ! 0 = i))"

subsection \<open>The title normalisations, in the words of the specification\<close>

text \<open>Lower case: each capital letter of the Latin-1 range is replaced by its small
  letter, every other character is kept.\<close>

definition capitals :: string where
  "capitals = ''ABCDEFGHIJKLMNOPQRSTUVWXYZ'' @
     [CHR 0xC0, CHR 0xC1, CHR 0xC2, CHR 0xC3, CHR 0xC4, CHR 0xC5, CHR 0xC6, CHR 0xC7,
      CHR 0xC8, CHR 0xC9, CHR 0xCA, CHR 0xCB, CHR 0xCC, CHR 0xCD, CHR 0xCE, CHR 0xCF,
      CHR 0xD0, CHR 0xD1, CHR 0xD2, CHR 0xD3, CHR 0xD4, CHR 0xD5, CHR 0xD6,
      CHR 0xD8, CHR 0xD9, CHR 0xDA, CHR 0xDB, CHR 0xDC, CHR 0xDD, CHR 0xDE]"

definition smalls :: string where
  "smalls = ''abcdefghijklmnopqrstuvwxyz'' @
     [CHR 0xE0, CHR 0xE1, CHR 0xE2, CHR 0xE3, CHR 0xE4, CHR 0xE5, CHR 0xE6, CHR 0xE7,
      CHR 0xE8, CHR 0xE9, CHR 0xEA, CHR 0xEB, CHR 0xEC, CHR 0xED, CHR 0xEE, CHR 0xEF,
      CHR 0xF0, CHR 0xF1, CHR 0xF2, CHR 0xF3, CHR 0xF4, CHR 0xF5, CHR 0xF6,
      CHR 0xF8, CHR 0xF9, CHR 0xFA, CHR 0xFB, CHR 0xFC, CHR 0xFD, CHR 0xFE]"

definition small :: "char \<Rightarrow> char" where
  "small c = (case map_of (zip capitals smalls) c of Some l \<Rightarrow> l | None \<Rightarrow> c)"

definition lowercase :: "string \<Rightarrow> string" where
  "lowercase s = map small s"

text \<open>Trimmed: without the white space at the start and at the end.\<close>

definition trimmed :: "string \<Rightarrow> string" where
  "trimmed s =
     (let l = length (takeWhile isSpace s); r = length (takeWhile isSpace (rev s))
      in take (length s - l - r) (drop l s))"

text \<open>Article-stripped: when the first word is \<open>the\<close>, \<open>a\<close> or \<open>an\<close> in any case and white
  space follows it, that word is removed; the result is trimmed.\<close>

definition articles :: "string list" where
  "articles = [''the'', ''a'', ''an'']"

definition withoutArticle :: "string \<Rightarrow> string" where
  "withoutArticle s =
     (let word = takeWhile (\<lambda>c. \<not> isSpace c) s; rest = dropWhile (\<lambda>c. \<not> isSpace c) s
      in trimmed (if lowercase word \<in> set articles \<and> rest \<noteq> [] then rest else s))"

text \<open>The strings a pattern describes: one character of a class, any number of them, at
  least one of them, a word with each of its letters in either case, one pattern after
  another, either of two patterns, a pattern or nothing.\<close>

fun lang :: "rx \<Rightarrow> string set" where
  "lang Empty = {[]}"
| "lang Never = {}"
| "lang (One k) = {[c] | c. inClass k c}"
| "lang (Many k) = {p. list_all (inClass k) p}"
| "lang (Many1 k) = {p. p \<noteq> [] \<and> list_all (inClass k) p}"
| "lang (WordI w) = {p. map lowerAscii p = w}"
| "lang (Seq a b) = {p @ q | p q. p \<in> lang a \<and> q \<in> lang b}"
| "lang (Alt a b) = lang a \<union> lang b"
| "lang (Opt a) = insert [] (lang a)"

text \<open>A trailing decoration is the longest non-empty end of the title that the pattern
  describes; \<open>cutTrailing\<close> removes it, and leaves the title as it is when there is
  none.\<close>

definition cutTrailing :: "rx \<Rightarrow> string \<Rightarrow> string" where
  "cutTrailing r s =
     (if \<exists>k < length s. drop k s \<in> lang r then take (LEAST k. drop k s \<in> lang r) s else s)"

text \<open>Suffix-stripped: the six patterns are applied one after the other, each to the
  result of the one before; the result is trimmed.\<close>

definition withoutSeasonSuffix :: "string \<Rightarrow> string" where
  "withoutSeasonSuffix s = trimmed (foldl (\<lambda>t r. cutTrailing r t) s seasonRxs)"

subsection \<open>The title score, in the words of the specification\<close>

text \<open>One minus the edit distance over the longer length, and 1 for two empty strings.
  \<open>rnd\<close> rounds the quotient and the difference: the identity for exact arithmetic,
  \<open>fl\<close> for doubles.\<close>

definition similarityBy :: "(rat \<Rightarrow> rat) \<Rightarrow> string \<Rightarrow> string \<Rightarrow> rat" where
  "similarityBy rnd a b =
     (if a = [] \<and> b = [] then 1
      else rnd (1 - rnd (of_nat (editDist a b (length a) (length b))
                           / of_nat (max (length a) (length b)))))"

text \<open>\<open>min(1, max(s_raw, s_stripped) + b)\<close>, where \<open>bonus\<close> says whether the year bonus of
  one tenth is due.\<close>

definition titleScoreBy :: "(rat \<Rightarrow> rat) \<Rightarrow> bool \<Rightarrow> string \<Rightarrow> string \<Rightarrow> rat" where
  "titleScoreBy rnd bonus query candidateName =
     (let candidate = withoutArticle (lowercase candidateName);
          sRaw = similarityBy rnd (withoutArticle (lowercase query)) candidate;
          sStripped = similarityBy rnd (withoutArticle (lowercase (withoutSeasonSuffix query)))
                        candidate;
          b = (if bonus then rnd (1 / 10) else 0)
      in min 1 (rnd (max sRaw sStripped + b)))"

text \<open>The score as the claim states it: exact arithmetic, and the bonus when both years
  are present and equal.\<close>

definition titleScoreStated :: "string \<Rightarrow> string \<Rightarrow> int option \<Rightarrow> int option \<Rightarrow> rat" where
  "titleScoreStated query candidateName queryYear candidateYear =
     titleScoreBy (\<lambda>x. x)
       (queryYear \<noteq> None \<and> candidateYear \<noteq> None \<and> queryYear = candidateYear)
       query candidateName"

text \<open>The score with the bonus the source gives: the query year must be present and must
  not be 0, and the candidate's year must equal it.  \<open>titleScoreExact\<close> is the exact
  value, \<open>titleScore64\<close> the value in double precision.\<close>

definition titleScoreExact :: "string \<Rightarrow> string \<Rightarrow> int option \<Rightarrow> int option \<Rightarrow> rat" where
  "titleScoreExact query candidateName queryYear candidateYear =
     titleScoreBy (\<lambda>x. x)
       (queryYear \<noteq> None \<and> queryYear \<noteq> Some 0 \<and> candidateYear = queryYear)
       query candidateName"

definition titleScore64 :: "string \<Rightarrow> string \<Rightarrow> int option \<Rightarrow> int option \<Rightarrow> rat" where
  "titleScore64 query candidateName queryYear candidateYear =
     titleScoreBy fl
       (queryYear \<noteq> None \<and> queryYear \<noteq> Some 0 \<and> candidateYear = queryYear)
       query candidateName"

text \<open>A title whose similarity to the candidate \<open>Inside Man\<close> is \<open>1 - 3/10\<close>, with the
  candidate's year; and a title with the year 0.\<close>

definition insideOut :: LLMIdentifiedItem where
  "insideOut = \<lparr> title = ''Inside Out'', creator = [], type = Movie, year = Some 2006 \<rparr>"

definition aliensYearZero :: LLMIdentifiedItem where
  "aliensYearZero = \<lparr> title = ''Aliens'', creator = [], type = Movie, year = Some 0 \<rparr>"

subsection \<open>Sample titles\<close>

text \<open>The titles the documentation of \<open>stripSeasonSuffix\<close> lists.\<close>

definition docSamples :: "string list" where
  "docSamples = [''Show - Season 1'', ''Show: Season 1'', ''Show Season 1'', ''Show - S01'',
     ''Show S01'', ''Show - The Complete First Season'', ''Show - Complete Season 3'',
     ''Show - The Complete Series'', ''Show: Complete Series'', ''Show - Series 1'',
     ''Show: Series 1'', ''Show (Season 1)'', ''Show (2005) - Season 1'']"

subsection \<open>Fenced answers\<close>

text \<open>A payload in a markdown code fence: the opening fence with its info string, a line
  break, the payload, a line break and the closing fence.\<close>

definition fenced :: "string \<Rightarrow> string \<Rightarrow> string" where
  "fenced tag payload = ''```'' @ tag @ [CHR 0x0A] @ payload @ [CHR 0x0A] @ ''```''"

text \<open>The general layout: any text without a backtick, the opening fence with its info
  string, white space, the payload, white space, the closing fence, and any text.\<close>

definition fencedAs :: "string \<Rightarrow> string \<Rightarrow> string \<Rightarrow> string \<Rightarrow> string \<Rightarrow> string \<Rightarrow> string" where
  "fencedAs before tag ws1 payload ws2 after
     = before @ ''```'' @ tag @ ws1 @ payload @ ws2 @ ''```'' @ after"

text \<open>White space, at least one character of it.\<close>

definition blank :: "string \<Rightarrow> bool" where
  "blank ws = (ws \<noteq> [] \<and> list_all isSpace ws)"

definition plainPayload :: string where
  \<open>plainPayload = ''{"items":[{"title":"Alien","creator":"","type":"Movie","year":"1979"}]}''\<close>

text \<open>A title that holds three backticks.\<close>

definition tickPayload :: string where
  \<open>tickPayload = ''{"items":[{"title":"a```b","creator":"","type":"other"}]}''\<close>

text \<open>An answer with a sentence before the fence and one after it.\<close>

definition proseAnswer :: string where
  "proseAnswer = fencedAs (''Here is the list:'' @ [CHR 0x0A]) ''json'' [CHR 0x0D, CHR 0x0A]
     plainPayload [CHR 0x0A] ([CHR 0x0A] @ ''Two spines were unreadable.'')"

definition plainJson :: json where
  "plainJson = JObj [(''items'', JArr [JObj [(''title'', JStr ''Alien''), (''creator'', JStr []),
     (''type'', JStr ''Movie''), (''year'', JStr ''1979'')]])]"

section \<open>Verification\<close>

subsection \<open>The scoring loop\<close>

lemma scoreLoop_Inr:
  "\<forall>r \<in> set rs. \<exists>s. sc r = Inr s \<Longrightarrow> \<exists>b s. scoreLoop sc rs st = Inr (b, s)"
proof (induction rs arbitrary: st)
  case Nil
  then show ?case by (cases st) simp
next
  case (Cons r rs)
  obtain b0 s0 where st: "st = (b0, s0)" by (cases st)
  from Cons.prems obtain x where x: "sc r = Inr x" by auto
  from Cons.prems have "\<forall>r \<in> set rs. \<exists>s. sc r = Inr s" by simp
  from Cons.IH[OF this] show ?case by (simp add: st x)
qed

lemma scoreLoop_best:
  "scoreLoop sc rs (b0, s0) = Inr (b, s) \<Longrightarrow>
     s0 \<le> s \<and> (\<forall>r \<in> set rs. case sc r of Inl e \<Rightarrow> False | Inr x \<Rightarrow> x \<le> s)
     \<and> ((b = b0 \<and> s = s0) \<or> (\<exists>r \<in> set rs. b = Some r \<and> sc r = Inr s \<and> s > s0))"
proof (induction rs arbitrary: b0 s0)
  case Nil
  then show ?case by simp
next
  case (Cons r rs)
  from Cons.prems obtain x where x: "sc r = Inr x"
    by (cases "sc r") auto
  show ?case
  proof (cases "x > s0")
    case True
    with Cons.prems x have "scoreLoop sc rs (Some r, x) = Inr (b, s)" by simp
    from Cons.IH[OF this] True x show ?thesis by auto
  next
    case False
    with Cons.prems x have "scoreLoop sc rs (b0, s0) = Inr (b, s)" by simp
    from Cons.IH[OF this] False x show ?thesis by auto
  qed
qed

lemma scoreLoop_isBest:
  assumes "\<forall>r \<in> set rs. \<exists>s. sc r = Inr s"
  shows "\<exists>b s. scoreLoop sc rs (None, 0) = Inr (b, s) \<and> isBest sc rs b s"
proof -
  from scoreLoop_Inr[OF assms] obtain b s where e: "scoreLoop sc rs (None, 0) = Inr (b, s)"
    by blast
  from scoreLoop_best[OF e] have "isBest sc rs b s"
    by (auto simp: isBest_def split: option.splits)
  with e show ?thesis by blast
qed


lemma movieScore_Inr: "mr_title r \<noteq> None \<Longrightarrow> \<exists>s. movieScore item r = Inr s"
  by (auto simp: movieScore_def totalScore_def computeTitleScore_def Let_def)

lemma tvScore_Inr: "tr_name r \<noteq> None \<Longrightarrow> \<exists>s. tvScore item r = Inr s"
  by (auto simp: tvScore_def totalScore_def computeTitleScore_def Let_def)

subsection \<open>Confidence tiers of the primary match\<close>

lemma enrichMovie_tiered:
  assumes s: "searchTMDBMovies env (title item) (year item) = (results, t)"
      and ne: "results \<noteq> []"
      and l: "scoreLoop (movieScore item) results (None, 0) = Inr (best, bestScore)"
      and b: "isBest (movieScore item) results best bestScore"
  shows "tiered item (map_option mr_id best) bestScore (fst (enrichMovie env item))"
proof (cases best)
  case None
  with b have "bestScore = 0" by (simp add: isBest_def)
  with None s ne l show ?thesis
    by (simp add: enrichMovie_def tiered_def)
next
  case (Some r)
  with s ne l show ?thesis
    by (simp add: enrichMovie_def tiered_def scoreToConfidence_def getMovieDetails_def
        movieRecord_def Let_def)
qed

lemma enrichTV_tiered:
  assumes s: "tvSearches env item = (results, t)"
      and ne: "results \<noteq> []"
      and l: "scoreLoop (tvScore item) results (None, 0) = Inr (best, bestScore)"
      and b: "isBest (tvScore item) results best bestScore"
  shows "tiered item (map_option tr_id best) bestScore (fst (enrichTV env item))"
proof (cases best)
  case None
  with b have "bestScore = 0" by (simp add: isBest_def)
  with None s ne l show ?thesis
    by (simp add: enrichTV_def tiered_def)
next
  case (Some r)
  with s ne l show ?thesis
    by (simp add: enrichTV_def tiered_def scoreToConfidence_def getTVDetails_def
        tvRecord_def Let_def)
qed

text \<open>
  Claim C1.  On the movie path and on the TV path, when the search returns a non-empty
  candidate list (every candidate carrying a title), the loop selects a candidate of
  maximal total score, and the outcome follows that score alone: \<open>high\<close> from 0.85,
  \<open>low\<close> in [0.50, 0.85), and the unmatched record when the best score is below 0.50.
\<close>

theorem primary_match_confidence_tiers:
  "(fst (searchTMDBMovies env (title item) (year item)) = results \<and> results \<noteq> []
      \<and> (\<forall>r \<in> set results. mr_title r \<noteq> None)
     \<longrightarrow> (\<exists>best bestScore. isBest (movieScore item) results best bestScore
            \<and> tiered item (map_option mr_id best) bestScore (fst (enrichMovie env item))))
   \<and> (fst (tvSearches env item) = tvResults \<and> tvResults \<noteq> []
      \<and> (\<forall>r \<in> set tvResults. tr_name r \<noteq> None)
     \<longrightarrow> (\<exists>best bestScore. isBest (tvScore item) tvResults best bestScore
            \<and> tiered item (map_option tr_id best) bestScore (fst (enrichTV env item))))"
proof (intro conjI impI)
  assume a: "fst (searchTMDBMovies env (title item) (year item)) = results \<and> results \<noteq> []
      \<and> (\<forall>r \<in> set results. mr_title r \<noteq> None)"
  then have "\<forall>r \<in> set results. \<exists>s. movieScore item r = Inr s"
    using movieScore_Inr by blast
  from scoreLoop_isBest[OF this] obtain b s where
    l: "scoreLoop (movieScore item) results (None, 0) = Inr (b, s)"
    and ib: "isBest (movieScore item) results b s" by blast
  obtain t where "searchTMDBMovies env (title item) (year item) = (results, t)"
    using a by (cases "searchTMDBMovies env (title item) (year item)") auto
  from enrichMovie_tiered[OF this _ l ib] a ib
  show "\<exists>best bestScore. isBest (movieScore item) results best bestScore
            \<and> tiered item (map_option mr_id best) bestScore (fst (enrichMovie env item))"
    by blast
next
  assume a: "fst (tvSearches env item) = tvResults \<and> tvResults \<noteq> []
      \<and> (\<forall>r \<in> set tvResults. tr_name r \<noteq> None)"
  then have "\<forall>r \<in> set tvResults. \<exists>s. tvScore item r = Inr s"
    using tvScore_Inr by blast
  from scoreLoop_isBest[OF this] obtain b s where
    l: "scoreLoop (tvScore item) tvResults (None, 0) = Inr (b, s)"
    and ib: "isBest (tvScore item) tvResults b s" by blast
  obtain t where "tvSearches env item = (tvResults, t)"
    using a by (cases "tvSearches env item") auto
  from enrichTV_tiered[OF this _ l ib] a ib
  show "\<exists>best bestScore. isBest (tvScore item) tvResults best bestScore
            \<and> tiered item (map_option tr_id best) bestScore (fst (enrichTV env item))"
    by blast
qed

theorem primary_match_confidence_tiers_witness:
  "(fst (searchTMDBMovies demoEnv (title discItem) (year discItem)) = [alienMovie]
      \<and> [alienMovie] \<noteq> [] \<and> mr_title alienMovie \<noteq> None)
   \<and> (\<exists>best bestScore. isBest (movieScore discItem) [alienMovie] best bestScore
         \<and> tiered discItem (map_option mr_id best) bestScore (fst (enrichMovie demoEnv discItem)))
   \<and> (fst (tvSearches demoEnv discItem) = [breakingBad]
      \<and> [breakingBad] \<noteq> [] \<and> tr_name breakingBad \<noteq> None)
   \<and> (\<exists>best bestScore. isBest (tvScore discItem) [breakingBad] best bestScore
         \<and> tiered discItem (map_option tr_id best) bestScore (fst (enrichTV demoEnv discItem)))"
proof -
  have m: "fst (searchTMDBMovies demoEnv (title discItem) (year discItem)) = [alienMovie]
      \<and> [alienMovie] \<noteq> [] \<and> mr_title alienMovie \<noteq> None"
    by (simp add: searchTMDBMovies_def demoEnv_def alienMovie_def)
  have t: "fst (tvSearches demoEnv discItem) = [breakingBad]
      \<and> [breakingBad] \<noteq> [] \<and> tr_name breakingBad \<noteq> None"
    by (simp add: tvSearches_def searchTMDBTV_def demoEnv_def breakingBad_def Let_def
        split: prod.splits)
  from primary_match_confidence_tiers[of demoEnv discItem "[alienMovie]" "[breakingBad]"] m t
  show ?thesis by simp
qed

subsection \<open>Dispatch by kind\<close>

lemma scoreToConfidence_Unmatched: "scoreToConfidence s = Unmatched \<longleftrightarrow> s < 1 / 2"
  by (simp add: scoreToConfidence_def)

lemma enrichMovie_unmatched:
  "fst (enrichMovie env item) = Inr m \<Longrightarrow> confidence m = Unmatched \<Longrightarrow> m = buildUnmatched item"
  by (auto simp: enrichMovie_def Let_def movieRecord_def getMovieDetails_def
      split: prod.splits sum.splits option.splits if_splits)

lemma enrichTV_unmatched:
  "fst (enrichTV env item) = Inr m \<Longrightarrow> confidence m = Unmatched \<Longrightarrow> m = buildUnmatched item"
  by (auto simp: enrichTV_def Let_def tvRecord_def getTVDetails_def
      split: prod.splits sum.splits option.splits if_splits)

lemma enrichMovie_trace:
  "snd (enrichMovie env item) \<noteq> [] \<and> list_all isMovieCall (snd (enrichMovie env item))"
  by (auto simp: enrichMovie_def Let_def searchTMDBMovies_def getMovieDetails_def isMovieCall_def
      split: prod.splits sum.splits option.splits if_splits)

lemma tvSearches_trace:
  "snd (tvSearches env item) \<noteq> [] \<and> list_all isTVCall (snd (tvSearches env item))"
  by (auto simp: tvSearches_def Let_def searchTMDBTV_def isTVCall_def
      split: prod.splits sum.splits option.splits if_splits)

lemma enrichTV_trace:
  "snd (enrichTV env item) \<noteq> [] \<and> list_all isTVCall (snd (enrichTV env item))"
  using tvSearches_trace[of env item]
  by (auto simp: enrichTV_def Let_def getTVDetails_def isTVCall_def
      split: prod.splits sum.splits option.splits if_splits)

lemma movie_not_tv: "isMovieCall c \<Longrightarrow> \<not> isTVCall c"
  by (cases c) (simp_all add: isMovieCall_def isTVCall_def)

lemma dvd_result:
  assumes "type item = DVD"
  shows "enrichSingleItem env item =
     (if yieldsUnmatched (fst (enrichMovie env item))
      then (fst (enrichTV env item), snd (enrichMovie env item) @ snd (enrichTV env item))
      else enrichMovie env item)"
proof (cases "enrichMovie env item")
  case (Pair mo t1)
  show ?thesis
  proof (cases mo)
    case (Inl e)
    with Pair assms show ?thesis
      by (simp add: enrichSingleItem_def yieldsUnmatched_def)
  next
    case (Inr m)
    show ?thesis
    proof (cases "confidence m = Unmatched")
      case False
      with Pair Inr assms show ?thesis
        by (simp add: enrichSingleItem_def yieldsUnmatched_def)
    next
      case True
      obtain tvo t2 where tv: "enrichTV env item = (tvo, t2)" by (cases "enrichTV env item")
      show ?thesis
      proof (cases tvo)
        case (Inl e)
        with Pair Inr True tv assms show ?thesis
          by (simp add: enrichSingleItem_def yieldsUnmatched_def)
      next
        case (Inr t)
        note tInr = this
        show ?thesis
        proof (cases "confidence t = Unmatched")
          case False
          with Pair \<open>mo = Inr m\<close> True tv tInr assms show ?thesis
            by (simp add: enrichSingleItem_def yieldsUnmatched_def)
        next
          case tU: True
          from tv tInr have "fst (enrichTV env item) = Inr t" by simp
          from enrichTV_unmatched[OF this tU] have "t = buildUnmatched item" .
          with Pair \<open>mo = Inr m\<close> True tv tInr tU assms show ?thesis
            by (simp add: enrichSingleItem_def yieldsUnmatched_def)
        qed
      qed
    qed
  qed
qed

text \<open>
  Claim C7.  For an item of kind \<open>dvd\<close> the requests of the movie attempt come first;
  requests of the TV attempt follow if and only if the movie attempt yields \<open>unmatched\<close>;
  the outcome is the movie's unless it is unmatched, and then the TV attempt's; when both
  yield \<open>unmatched\<close> the outcome is the unmatched record.  For vinyl, game and other the
  outcome is the unmatched record and no request is sent.
\<close>

theorem disc_dispatch:
  "(type item = DVD \<longrightarrow>
      snd (enrichSingleItem env item) =
        snd (enrichMovie env item)
          @ (if yieldsUnmatched (fst (enrichMovie env item)) then snd (enrichTV env item) else [])
      \<and> snd (enrichMovie env item) \<noteq> [] \<and> list_all isMovieCall (snd (enrichMovie env item))
      \<and> ((\<exists>c \<in> set (snd (enrichSingleItem env item)). isTVCall c)
            \<longleftrightarrow> yieldsUnmatched (fst (enrichMovie env item)))
      \<and> fst (enrichSingleItem env item) =
          (if yieldsUnmatched (fst (enrichMovie env item)) then fst (enrichTV env item)
           else fst (enrichMovie env item))
      \<and> (yieldsUnmatched (fst (enrichMovie env item)) \<and> yieldsUnmatched (fst (enrichTV env item))
            \<longrightarrow> fst (enrichSingleItem env item) = Inr (buildUnmatched item)))
   \<and> (type item = Vinyl \<or> type item = Game \<or> type item = Other
        \<longrightarrow> enrichSingleItem env item = (Inr (buildUnmatched item), []))"
proof (intro conjI impI)
  assume d: "type item = DVD"
  note r = dvd_result[OF d, of env]
  show "snd (enrichSingleItem env item) =
        snd (enrichMovie env item)
          @ (if yieldsUnmatched (fst (enrichMovie env item)) then snd (enrichTV env item) else [])"
    by (simp add: r)
  show "snd (enrichMovie env item) \<noteq> []" using enrichMovie_trace by blast
  show "list_all isMovieCall (snd (enrichMovie env item))" using enrichMovie_trace by blast
  show "(\<exists>c \<in> set (snd (enrichSingleItem env item)). isTVCall c)
            \<longleftrightarrow> yieldsUnmatched (fst (enrichMovie env item))"
  proof (cases "yieldsUnmatched (fst (enrichMovie env item))")
    case True
    from enrichTV_trace[of env item] obtain c where "c \<in> set (snd (enrichTV env item))" "isTVCall c"
      by (cases "snd (enrichTV env item)") auto
    with True show ?thesis by (auto simp: r)
  next
    case False
    from enrichMovie_trace[of env item] have "\<forall>c \<in> set (snd (enrichMovie env item)). \<not> isTVCall c"
      by (auto simp: list_all_iff dest: movie_not_tv)
    with False show ?thesis by (simp add: r)
  qed
  show "fst (enrichSingleItem env item) =
          (if yieldsUnmatched (fst (enrichMovie env item)) then fst (enrichTV env item)
           else fst (enrichMovie env item))"
    by (simp add: r)
next
  assume d: "type item = DVD"
    and u: "yieldsUnmatched (fst (enrichMovie env item)) \<and> yieldsUnmatched (fst (enrichTV env item))"
  then obtain t where t: "fst (enrichTV env item) = Inr t" "confidence t = Unmatched"
    by (auto simp: yieldsUnmatched_def split: sum.splits)
  from enrichTV_unmatched[OF t] t u show "fst (enrichSingleItem env item) = Inr (buildUnmatched item)"
    by (simp add: dvd_result[OF d])
next
  assume "type item = Vinyl \<or> type item = Game \<or> type item = Other"
  then show "enrichSingleItem env item = (Inr (buildUnmatched item), [])"
    by (auto simp: enrichSingleItem_def)
qed

theorem disc_dispatch_witness:
  "type discItem = DVD
   \<and> yieldsUnmatched (fst (enrichMovie demoEnv discItem))
   \<and> snd (enrichSingleItem demoEnv discItem)
       = snd (enrichMovie demoEnv discItem) @ snd (enrichTV demoEnv discItem)
   \<and> fst (enrichSingleItem demoEnv discItem) = fst (enrichTV demoEnv discItem)
   \<and> type vinylItem = Vinyl
   \<and> enrichSingleItem demoEnv vinylItem = (Inr (buildUnmatched vinylItem), [])"
proof -
  have d: "type discItem = DVD" by (simp add: discItem_def)
  have u: "yieldsUnmatched (fst (enrichMovie demoEnv discItem))" by code_simp
  have v: "type vinylItem = Vinyl" by (simp add: vinylItem_def)
  from disc_dispatch[of discItem demoEnv] disc_dispatch[of vinylItem demoEnv] d u v
  show ?thesis by simp
qed


subsection \<open>A year of zero\<close>





















subsection \<open>Direct lookup before title search\<close>

lemma resolve_direct:
  assumes "isTVDBConfigured env" "imdb \<noteq> []" "fst (findTVDBByImdbId env imdb) = Some result"
  shows "resolveTVDBId env t y (Some imdb) ty = (fst result, [TvdbRemoteIdPath imdb])"
proof -
  have "findTVDBByImdbId env imdb = (Some result, [TvdbRemoteIdPath imdb])"
    using assms(3) by (simp add: findTVDBByImdbId_def)
  with assms(1,2) show ?thesis by (simp add: resolveTVDBId_def)
qed

lemma find2_trace: "list_all (\<lambda>c. \<not> isTitleSearch c) (snd (findTVDBByImdbId2 env imdb))"
  by (simp add: findTVDBByImdbId2_def isTitleSearch_def split: option.splits)

lemma resolve2_direct:
  assumes "isTVDBConfigured env" "imdb \<noteq> []" "fst (findTVDBByImdbId2 env imdb) = Some result"
  shows "resolveTVDBId2 env t y (Some imdb) ty = (Some (fst result), snd (findTVDBByImdbId2 env imdb))"
proof -
  obtain tr where "findTVDBByImdbId2 env imdb = (Some result, tr)"
    using assms(3) by (cases "findTVDBByImdbId2 env imdb") auto
  with assms(1,2) show ?thesis by (simp add: resolveTVDBId2_def)
qed

text \<open>
  Claim C6.  In both copies of \<open>resolveTVDBId\<close>: when the supplemental catalog is
  configured, an IMDB id is at hand and the direct lookup returns a result, the id of
  that result is what the resolution returns, and the only requests sent are those of
  the direct lookup: no title search.  The resolution returns one optional id.
\<close>

theorem direct_lookup_wins:
  "(isTVDBConfigured env \<and> imdb \<noteq> [] \<and> fst (findTVDBByImdbId env imdb) = Some result
      \<longrightarrow> fst (resolveTVDBId env t y (Some imdb) ty) = fst result
          \<and> snd (resolveTVDBId env t y (Some imdb) ty) = [TvdbRemoteIdPath imdb])
   \<and> (isTVDBConfigured env \<and> imdb \<noteq> [] \<and> fst (findTVDBByImdbId2 env imdb) = Some result2
      \<longrightarrow> fst (resolveTVDBId2 env t y (Some imdb) ty) = Some (fst result2)
          \<and> snd (resolveTVDBId2 env t y (Some imdb) ty) = snd (findTVDBByImdbId2 env imdb)
          \<and> list_all (\<lambda>c. \<not> isTitleSearch c) (snd (resolveTVDBId2 env t y (Some imdb) ty)))"
  using find2_trace[of env imdb]
  by (auto simp: resolve_direct resolve2_direct)

theorem direct_lookup_wins_witness:
  "(isTVDBConfigured demoEnv \<and> ''tt0903747'' \<noteq> []
      \<and> fst (findTVDBByImdbId demoEnv ''tt0903747'') = Some (Some 81189, Series))
   \<and> fst (resolveTVDBId demoEnv ''Breaking Bad'' (Some 2008) (Some ''tt0903747'') TV) = Some 81189
   \<and> snd (resolveTVDBId demoEnv ''Breaking Bad'' (Some 2008) (Some ''tt0903747'') TV)
       = [TvdbRemoteIdPath ''tt0903747'']
   \<and> fst (findTVDBByImdbId2 demoEnv ''tt0903747'') = Some (81189, Series)
   \<and> fst (resolveTVDBId2 demoEnv ''Breaking Bad'' (Some 2008) (Some ''tt0903747'') TV) = Some 81189
   \<and> snd (resolveTVDBId2 demoEnv ''Breaking Bad'' (Some 2008) (Some ''tt0903747'') TV)
       = [TvdbSearchRemoteId ''tt0903747'']"
proof -
  have c: "isTVDBConfigured demoEnv" by (simp add: isTVDBConfigured_def demoEnv_def truthyStr_def)
  have n: "''tt0903747'' \<noteq> []" by simp
  have f1: "fst (findTVDBByImdbId demoEnv ''tt0903747'') = Some (Some 81189, Series)"
    by (simp add: findTVDBByImdbId_def demoEnv_def)
  have f2: "fst (findTVDBByImdbId2 demoEnv ''tt0903747'') = Some (81189, Series)"
    by code_simp
  have s2: "snd (findTVDBByImdbId2 demoEnv ''tt0903747'') = [TvdbSearchRemoteId ''tt0903747'']"
    by code_simp
  from direct_lookup_wins[of demoEnv "''tt0903747''" "(Some 81189, Series)" "''Breaking Bad''"
      "Some 2008" TV "(81189, Series)"] c n f1 f2 s2
  show ?thesis by simp
qed

subsection \<open>The supplemental title search\<close>

lemma pickLoop_best:
  "pickLoop t y rs (b0, s0) = (b, s) \<Longrightarrow>
     s0 \<le> s \<and> (\<forall>r \<in> set rs. scoreTVDBResult t y r \<le> s)
     \<and> ((b = b0 \<and> s = s0) \<or> (\<exists>r \<in> set rs. b = Some r \<and> scoreTVDBResult t y r = s \<and> s > s0))"
proof (induction rs arbitrary: b0 s0)
  case Nil
  then show ?case by simp
next
  case (Cons r rs)
  show ?case
  proof (cases "scoreTVDBResult t y r > s0")
    case True
    with Cons.prems have "pickLoop t y rs (Some r, scoreTVDBResult t y r) = (b, s)"
      by (simp add: Let_def)
    from Cons.IH[OF this] True show ?thesis by auto
  next
    case False
    with Cons.prems have "pickLoop t y rs (b0, s0) = (b, s)" by (simp add: Let_def)
    from Cons.IH[OF this] False show ?thesis by auto
  qed
qed

text \<open>The copy in \<open>part_002\<close> accepts a candidate only at 0.50 or above, and it is a
  candidate of maximal score.\<close>

lemma pickBestResult_threshold:
  assumes "pickBestResult t y results = Some best"
  shows "best \<in> set results \<and> scoreTVDBResult t y best \<ge> 1 / 2
         \<and> (\<forall>r \<in> set results. scoreTVDBResult t y r \<le> scoreTVDBResult t y best)"
proof -
  obtain b s where l: "pickLoop t y results (None, 0) = (b, s)"
    by (cases "pickLoop t y results (None, 0)")
  with assms have bs: "b = Some best" "\<not> s < 1 / 2"
    by (auto simp: pickBestResult_def split: if_splits)
  from pickLoop_best[OF l] bs show ?thesis by auto
qed

lemma searchTVDB2_threshold:
  assumes "fst (searchTVDB2 env kind t y) = Some i"
  shows "\<exists>results best. tvdbSearch env kind t (tvdbYearParam y) = Some results
           \<and> best \<in> set results \<and> extractTVDBId best = Some i
           \<and> scoreTVDBResult t y best \<ge> 1 / 2
           \<and> (\<forall>r \<in> set results. scoreTVDBResult t y r \<le> scoreTVDBResult t y best)"
proof -
  from assms obtain results best where
    r: "tvdbSearch env kind t (tvdbYearParam y) = Some results"
    and b: "pickBestResult t y results = Some best" and i: "extractTVDBId best = Some i"
    by (auto simp: searchTVDB2_def split: option.splits if_splits)
  from pickBestResult_threshold[OF b] r i show ?thesis by blast
qed

text \<open>
  Claim C8.  The title search of \<open>src/lib/tvdb.ts\<close> has no threshold: when the search
  for ``Lost'' answers with the single result ``Lost in Space'' (score 4/13) it returns
  the id of that result, where the copy in \<open>part_002\<close> returns nothing.
\<close>

theorem tvdb_first_result_below_threshold:
  "tvdbSearch demoEnv ''series'' ''Lost'' (tvdbYearParam None) = Some [lostInSpace]
   \<and> scoreTVDBResult ''Lost'' None lostInSpace = 4 / 13
   \<and> fst (searchTVDBSeries demoEnv ''Lost'' None) = Some 343253
   \<and> fst (searchTVDBSeries2 demoEnv ''Lost'' None) = None"
  by code_simp

subsection \<open>Index alignment and failure isolation\<close>

lemma settle_length: "length (settle items results) = length results"
  by (simp add: settle_def)

lemma settle_nth:
  "i < length results \<Longrightarrow>
     settle items results ! i = (case results ! i of Inr v \<Rightarrow> v | Inl reason \<Rightarrow> buildUnmatched (items ! i))"
  by (simp add: settle_def)

lemma assignStep_length: "length (assignStep rs i en) = length en"
  by (simp add: assignStep_def split: sum.splits option.splits)

lemma assignStep_nth:
  "k < length en \<Longrightarrow> i < length en \<Longrightarrow>
     assignStep rs k en ! i =
       (if i = k then (case rs ! k of Inr (Some v) \<Rightarrow> (en ! k)\<lparr>tvdbId := Some v\<rparr> | _ \<Rightarrow> en ! k)
        else en ! i)"
  by (simp add: assignStep_def nth_list_update split: sum.splits option.splits)

lemma assign_prefix:
  "k \<le> length en \<Longrightarrow>
     length (fold (assignStep rs) [0..<k] en) = length en
     \<and> (\<forall>i < length en. fold (assignStep rs) [0..<k] en ! i =
           (if i < k then assigned rs en i else en ! i))"
proof (induction k)
  case 0
  then show ?case by simp
next
  case (Suc k)
  let ?p = "fold (assignStep rs) [0..<k] en"
  from Suc have len: "length ?p = length en"
    and nth: "\<And>i. i < length en \<Longrightarrow> ?p ! i = (if i < k then assigned rs en i else en ! i)"
    by simp_all
  from Suc.prems have k: "k < length en" by simp
  have f: "fold (assignStep rs) [0..<Suc k] en = assignStep rs k ?p"
    by simp
  have l2: "length (assignStep rs k ?p) = length en"
    by (simp add: assignStep_length len)
  have n2: "assignStep rs k ?p ! i = (if i < Suc k then assigned rs en i else en ! i)"
    if i: "i < length en" for i
  proof (cases "i = k")
    case True
    have "?p ! k = en ! k" using nth[OF k] by simp
    then show ?thesis using True k
      by (simp add: assignStep_nth len assigned_def split: sum.splits option.splits)
  next
    case False
    have "assignStep rs k ?p ! i = ?p ! i"
      using False k i by (simp add: assignStep_nth len)
    also have "\<dots> = (if i < k then assigned rs en i else en ! i)" by (rule nth[OF i])
    finally show ?thesis using False by (simp add: less_Suc_eq)
  qed
  show ?case unfolding f
  proof (intro conjI allI impI)
    show "length (assignStep rs k ?p) = length en" by (rule l2)
  next
    fix i assume "i < length en"
    then show "assignStep rs k ?p ! i = (if i < Suc k then assigned rs en i else en ! i)"
      by (rule n2)
  qed
qed

lemma tvdbAssign_fold: "tvdbAssign rs en = fold (assignStep rs) [0..<length en] en"
  by (simp add: tvdbAssign_def)

lemma tvdbAssign_length: "length (tvdbAssign rs en) = length en"
  using assign_prefix[of "length en" en rs] by (simp add: tvdbAssign_fold)

lemma tvdbAssign_nth:
  "i < length en \<Longrightarrow>
     tvdbAssign rs en ! i = (case rs ! i of Inr (Some v) \<Rightarrow> (en ! i)\<lparr>tvdbId := Some v\<rparr> | _ \<Rightarrow> en ! i)"
  using assign_prefix[of "length en" en rs] by (simp add: tvdbAssign_fold assigned_def)

lemma enrichItemsWith_map:
  assumes "isTMDBConfigured env"
  shows "enrichItemsWith resolve env items = Inr (map (enrichmentOf resolve env) items)"
proof -
  let ?results = "map (\<lambda>item. fst (enrichSingleItem env item)) items"
  let ?en = "settle items ?results"
  have len: "length ?en = length items" by (simp add: settle_length)
  have en_nth: "\<And>i. i < length items \<Longrightarrow>
      ?en ! i = (case fst (enrichSingleItem env (items ! i)) of Inr v \<Rightarrow> v
                 | Inl reason \<Rightarrow> buildUnmatched (items ! i))"
    by (simp add: settle_nth)
  show ?thesis
  proof (cases "isTVDBConfigured env")
    case False
    have "?en = map (enrichmentOf resolve env) items"
      by (rule nth_equalityI) (simp_all add: len en_nth enrichmentOf_def False)
    with assms False show ?thesis by (simp add: enrichItemsWith_def Let_def)
  next
    case True
    let ?rs = "tvdbLookups resolve env ?en"
    have "tvdbAssign ?rs ?en = map (enrichmentOf resolve env) items"
    proof (rule nth_equalityI)
      show "length (tvdbAssign ?rs ?en) = length (map (enrichmentOf resolve env) items)"
        by (simp add: tvdbAssign_length len)
    next
      fix i assume "i < length (tvdbAssign ?rs ?en)"
      then have i: "i < length items" by (simp add: tvdbAssign_length len)
      then have i': "i < length ?en" by (simp add: len)
      have rs: "?rs ! i = (if confidence (?en ! i) = Unmatched then Inr None
                  else resolve env (title (?en ! i)) (year (?en ! i)) (imdbId (?en ! i)) (type (?en ! i)))"
        using i' by (simp add: tvdbLookups_def)
      define e0 where "e0 = (case fst (enrichSingleItem env (items ! i)) of Inr v \<Rightarrow> v
                 | Inl reason \<Rightarrow> buildUnmatched (items ! i))"
      have e: "?en ! i = e0" using en_nth[OF i] by (simp add: e0_def)
      have m: "map (enrichmentOf resolve env) items ! i =
          (if confidence e0 \<noteq> Unmatched
           then (case resolve env (title e0) (year e0) (imdbId e0) (type e0) of
                 Inr (Some v) \<Rightarrow> e0\<lparr>tvdbId := Some v\<rparr> | _ \<Rightarrow> e0)
           else e0)"
      proof -
        have "enrichmentOf resolve env (items ! i) =
          (if confidence e0 \<noteq> Unmatched
           then (case resolve env (title e0) (year e0) (imdbId e0) (type e0) of
                 Inr (Some v) \<Rightarrow> e0\<lparr>tvdbId := Some v\<rparr> | _ \<Rightarrow> e0)
           else e0)"
          unfolding enrichmentOf_def Let_def e0_def[symmetric] using True by simp
        with i show ?thesis by simp
      qed
      show "tvdbAssign ?rs ?en ! i = map (enrichmentOf resolve env) items ! i"
        unfolding m tvdbAssign_nth[OF i'] rs e by simp
    qed
    with assms True show ?thesis by (simp add: enrichItemsWith_def Let_def)
  qed
qed

lemma enrichmentOf_thrown:
  "fst (enrichSingleItem env item) = Inl e \<Longrightarrow> enrichmentOf resolve env item = buildUnmatched item"
  by (simp add: enrichmentOf_def buildUnmatched_def)

text \<open>
  Claim C3.  With the primary catalog configured, \<open>enrichItems\<close> (for either resolver)
  returns one enriched item per input, in the order of the inputs: the item at position
  \<open>i\<close> is the enrichment of the input at position \<open>i\<close> alone.  When the resolution of
  the input at \<open>i\<close> throws, the output at \<open>i\<close> is the unmatched record of that input; an
  output depends on no other input, so the other positions are what they would be had no
  item thrown.
\<close>

theorem enrichItems_index_aligned:
  "isTMDBConfigured env \<longrightarrow>
     enrichItemsWith resolve env items = Inr (map (enrichmentOf resolve env) items)
     \<and> length (map (enrichmentOf resolve env) items) = length items
     \<and> (\<forall>i < length items. \<forall>e. fst (enrichSingleItem env (items ! i)) = Inl e
           \<longrightarrow> map (enrichmentOf resolve env) items ! i = buildUnmatched (items ! i))
     \<and> (\<forall>items'. length items' = length items \<longrightarrow>
           (\<forall>j < length items. items' ! j = items ! j \<longrightarrow>
              map (enrichmentOf resolve env) items' ! j = map (enrichmentOf resolve env) items ! j))"
  by (auto simp: enrichItemsWith_map enrichmentOf_thrown)

theorem enrichItems_index_aligned_witness:
  "isTMDBConfigured brokenEnv
   \<and> fst (enrichSingleItem brokenEnv movieItem) = Inl TypeError
   \<and> enrichItemsWith resolver2 brokenEnv [movieItem, vinylItem]
       = Inr [buildUnmatched movieItem, buildUnmatched vinylItem]"
proof -
  have c: "isTMDBConfigured brokenEnv"
    by (simp add: isTMDBConfigured_def brokenEnv_def demoEnv_def truthyStr_def)
  have t: "fst (enrichSingleItem brokenEnv movieItem) = Inl TypeError" by code_simp
  have v: "enrichmentOf resolver2 brokenEnv vinylItem = buildUnmatched vinylItem" by code_simp
  from enrichItems_index_aligned[of brokenEnv resolver2 "[movieItem, vinylItem]"] c t v
  show ?thesis by (simp add: enrichmentOf_thrown)
qed


subsection \<open>Unmatched items\<close>

lemma enrichSingleItem_unmatched:
  assumes "fst (enrichSingleItem env item) = Inr m" "confidence m = Unmatched"
  shows "m = buildUnmatched item"
proof (cases "type item")
  case Movie
  with assms enrichMovie_unmatched show ?thesis by (simp add: enrichSingleItem_def)
next
  case TV
  with assms enrichTV_unmatched show ?thesis by (simp add: enrichSingleItem_def)
next
  case DVD
  show ?thesis
  proof (cases "yieldsUnmatched (fst (enrichMovie env item))")
    case True
    with assms DVD have "fst (enrichTV env item) = Inr m" by (simp add: dvd_result)
    from enrichTV_unmatched[OF this assms(2)] show ?thesis .
  next
    case False
    with assms DVD have "fst (enrichMovie env item) = Inr m" by (simp add: dvd_result)
    with False assms(2) show ?thesis by (simp add: yieldsUnmatched_def)
  qed
qed (use assms in \<open>auto simp: enrichSingleItem_def\<close>)

lemma enrichmentOf_unmatched:
  assumes "confidence (enrichmentOf resolve env item) = Unmatched"
  shows "enrichmentOf resolve env item = buildUnmatched item"
proof -
  define e0 where "e0 = (case fst (enrichSingleItem env item) of Inr v \<Rightarrow> v
                 | Inl reason \<Rightarrow> buildUnmatched item)"
  have eo: "enrichmentOf resolve env item =
      (if isTVDBConfigured env \<and> confidence e0 \<noteq> Unmatched
       then (case resolve env (title e0) (year e0) (imdbId e0) (type e0) of
               Inr (Some v) \<Rightarrow> e0\<lparr>tvdbId := Some v\<rparr> | _ \<Rightarrow> e0)
       else e0)"
    unfolding enrichmentOf_def Let_def e0_def[symmetric] by simp
  have c: "confidence (enrichmentOf resolve env item) = confidence e0"
    unfolding eo by (simp split: sum.splits option.splits)
  with assms have u: "confidence e0 = Unmatched" by simp
  then have "enrichmentOf resolve env item = e0" unfolding eo by simp
  moreover have "e0 = buildUnmatched item"
  proof (cases "fst (enrichSingleItem env item)")
    case (Inl a)
    then show ?thesis by (simp add: e0_def)
  next
    case (Inr m)
    then have "e0 = m" by (simp add: e0_def)
    with enrichSingleItem_unmatched[OF Inr] u show ?thesis by simp
  qed
  ultimately show ?thesis by simp
qed

lemma buildUnmatched_null: "catalogFieldsNull (buildUnmatched item) \<and> source (buildUnmatched item) = NoSource"
  by (simp add: catalogFieldsNull_def buildUnmatched_def)

lemma enrichItemsWith_unmatched:
  assumes "enrichItemsWith resolve env items = Inr out" "e \<in> set out" "confidence e = Unmatched"
  shows "catalogFieldsNull e \<and> source e = NoSource \<and> \<not> plexMatch e"
proof -
  from assms(1) have "isTMDBConfigured env"
    by (auto simp: enrichItemsWith_def split: if_splits)
  with assms(1) have "out = map (enrichmentOf resolve env) items"
    by (simp add: enrichItemsWith_map)
  with assms(2) obtain item where "e = enrichmentOf resolve env item" by auto
  with enrichmentOf_unmatched[of resolve env item] assms(3) have "e = buildUnmatched item" by simp
  then show ?thesis by (simp add: catalogFieldsNull_def buildUnmatched_def)
qed

lemma plexMerge_keeps:
  "confidence (plexMerge lib e) = confidence e \<and> source (plexMerge lib e) = source e
   \<and> descriptiveFieldsNull (plexMerge lib e) = descriptiveFieldsNull e
   \<and> (plexMatch (plexMerge lib e) \<or> plexMerge lib e = e)"
  by (simp add: plexMerge_def Let_def descriptiveFieldsNull_def)

lemma catalog_descriptive: "catalogFieldsNull e \<Longrightarrow> descriptiveFieldsNull e"
  by (simp add: catalogFieldsNull_def descriptiveFieldsNull_def)

lemma plexStep_unmatched:
  assumes "\<forall>e \<in> set en. confidence e = Unmatched \<longrightarrow> catalogFieldsNull e \<and> source e = NoSource"
    and "e' \<in> set (plexStep env en)" "confidence e' = Unmatched"
  shows "descriptiveFieldsNull e' \<and> source e' = NoSource \<and> (plexMatch e' \<or> catalogFieldsNull e')"
proof (cases "plexLibrary env")
  case None
  with assms show ?thesis by (auto simp: plexStep_def catalog_descriptive)
next
  case (Some l)
  show ?thesis
  proof (cases l)
    case None
    with Some assms show ?thesis by (auto simp: plexStep_def catalog_descriptive)
  next
    case (Some lib)
    with \<open>plexLibrary env = Some l\<close> assms(2) obtain e where e: "e \<in> set en" "e' = plexMerge lib e"
      by (auto simp: plexStep_def)
    from e(2) assms(3) plexMerge_keeps[of lib e] have "confidence e = Unmatched" by simp
    with assms(1) e(1) have n: "catalogFieldsNull e" "source e = NoSource" by auto
    from plexMerge_keeps[of lib e] n e(2) catalog_descriptive[OF n(1)] show ?thesis by auto
  qed
qed

lemma enrichAndSave_unmatched:
  assumes "enrichAndSaveItems resolve env items = Inr saved" "e \<in> set saved" "confidence e = Unmatched"
  shows "descriptiveFieldsNull e \<and> source e = NoSource \<and> (plexMatch e \<or> catalogFieldsNull e)"
proof -
  from assms(1) obtain en where en: "enrichItemsWith resolve env items = Inr en"
    and s: "saved = plexStep env en"
    by (auto simp: enrichAndSaveItems_def split: sum.splits)
  from enrichItemsWith_unmatched[OF en]
  have "\<forall>e \<in> set en. confidence e = Unmatched \<longrightarrow> catalogFieldsNull e \<and> source e = NoSource" by blast
  from plexStep_unmatched[OF this] assms(2,3) s show ?thesis by blast
qed

lemma plexStep_length: "length (plexStep env en) = length en"
  by (simp add: plexStep_def split: option.splits)

lemma putItem_unmatched:
  assumes "putItem resolve env bodyTitle bodyCreator stored = Inr e" "confidence e = Unmatched"
  shows "descriptiveFieldsNull e \<and> source e = NoSource \<and> (plexMatch e \<or> catalogFieldsNull e)"
proof -
  from assms(1) obtain item where st: "stored = Some item" and tt: "truthyStr bodyTitle"
    by (auto simp: putItem_def split: if_splits option.splits)
  define llmItem where "llmItem = \<lparr> title = (case bodyTitle of Some v \<Rightarrow> v | None \<Rightarrow> []),
       creator = (case bodyCreator of Some c \<Rightarrow> c | None \<Rightarrow> creator item),
       type = type item, year = rawYear item \<rparr>"
  from assms(1) st tt obtain en where en: "enrichItemsWith resolve env [llmItem] = Inr en"
    by (auto simp: putItem_def Let_def llmItem_def split: sum.splits)
  then have "isTMDBConfigured env" by (auto simp: enrichItemsWith_def split: if_splits)
  with en have "length en = 1" by (auto simp: enrichItemsWith_map)
  then have "length (plexStep env en) = 1" by (simp add: plexStep_length)
  then obtain x where x: "plexStep env en = [x]"
    by (cases "plexStep env en") auto
  with assms(1) st tt en have "e = x"
    by (simp add: putItem_def Let_def llmItem_def)
  with x have "e \<in> set (plexStep env en)" by simp
  moreover from enrichItemsWith_unmatched[OF en]
  have "\<forall>e \<in> set en. confidence e = Unmatched \<longrightarrow> catalogFieldsNull e \<and> source e = NoSource" by blast
  ultimately show ?thesis using plexStep_unmatched assms(2) by blast
qed

text \<open>
  Claim C2, amended.  An item of confidence \<open>unmatched\<close> returned by \<open>enrichItems\<close> has
  every catalog field null and source \<open>none\<close>.  After the personal-library step of a scan
  and of a single-item edit, an unmatched item still has source \<open>none\<close> and every
  descriptive catalog field null; \<open>imdbId\<close> and \<open>tvdbId\<close> are null as well unless the item
  matched an entry of the library, which may have filled them.
\<close>

theorem unmatched_invariant_amended:
  "(enrichItemsWith resolve env items = Inr out \<longrightarrow>
      (\<forall>e \<in> set out. confidence e = Unmatched \<longrightarrow> catalogFieldsNull e \<and> source e = NoSource))
   \<and> (enrichAndSaveItems resolve env items = Inr saved \<longrightarrow>
      (\<forall>e \<in> set saved. confidence e = Unmatched \<longrightarrow>
         descriptiveFieldsNull e \<and> source e = NoSource \<and> (plexMatch e \<or> catalogFieldsNull e)))
   \<and> (putItem resolve env bodyTitle bodyCreator stored = Inr e' \<and> confidence e' = Unmatched \<longrightarrow>
         descriptiveFieldsNull e' \<and> source e' = NoSource \<and> (plexMatch e' \<or> catalogFieldsNull e'))"
  using enrichItemsWith_unmatched enrichAndSave_unmatched putItem_unmatched
  by blast

theorem unmatched_invariant_amended_witness:
  "enrichItemsWith resolver1 plexEnv [vinylItem] = Inr [buildUnmatched vinylItem]
   \<and> enrichAndSaveItems resolver1 plexEnv [vinylItem] = Inr [plexedVinyl]
   \<and> putItem resolver1 plexEnv (Some ''Alien'') None (Some vinylRow) = Inr plexedVinyl
   \<and> confidence (buildUnmatched vinylItem) = Unmatched
   \<and> catalogFieldsNull (buildUnmatched vinylItem) \<and> source (buildUnmatched vinylItem) = NoSource
   \<and> confidence plexedVinyl = Unmatched
   \<and> descriptiveFieldsNull plexedVinyl \<and> source plexedVinyl = NoSource \<and> plexMatch plexedVinyl"
proof -
  have a: "enrichItemsWith resolver1 plexEnv [vinylItem] = Inr [buildUnmatched vinylItem]"
    by code_simp
  have b: "enrichAndSaveItems resolver1 plexEnv [vinylItem] = Inr [plexedVinyl]"
    by code_simp
  have c: "putItem resolver1 plexEnv (Some ''Alien'') None (Some vinylRow) = Inr plexedVinyl"
    by code_simp
  have d: "confidence (buildUnmatched vinylItem) = Unmatched" "confidence plexedVinyl = Unmatched"
    "plexMatch plexedVinyl"
    by (simp_all add: plexedVinyl_def buildUnmatched_def)
  from unmatched_invariant_amended[of resolver1 plexEnv "[vinylItem]" "[buildUnmatched vinylItem]"
      "[plexedVinyl]" "Some ''Alien''" None "Some vinylRow" plexedVinyl] a b c d
  show ?thesis by simp
qed

text \<open>
  Claim C2 as stated fails after the personal-library step: a vinyl record titled
  ``Alien'' stays unmatched, matches the film of that title in the library, and is saved
  with the film's IMDB id.
\<close>

theorem unmatched_item_gets_plex_ids:
  "enrichAndSaveItems resolver1 plexEnv [vinylItem] = Inr [plexedVinyl]
   \<and> confidence plexedVinyl = Unmatched
   \<and> imdbId plexedVinyl = Some ''tt0078748''
   \<and> \<not> catalogFieldsNull plexedVinyl"
  by code_simp

subsection \<open>The table computes the edit distance\<close>

lemma setCell_shaped:
  assumes "shaped m n dp"
  shows "shaped m n (setCell dp i j v)"
proof (cases "i \<le> m")
  case True
  with assms show ?thesis
    by (simp add: shaped_def setCell_def nth_list_update)
next
  case False
  with assms have "length dp \<le> i" by (simp add: shaped_def)
  then have "setCell dp i j v = dp" by (simp add: setCell_def list_update_beyond)
  with assms show ?thesis by simp
qed

lemma shaped_replicate: "shaped m n (replicate (Suc m) (replicate (Suc n) 0))"
  unfolding shaped_def
proof (intro conjI allI impI)
  show "length (replicate (Suc m) (replicate (Suc n) (0::nat))) = Suc m" by (rule length_replicate)
next
  fix i assume "i \<le> m"
  then have "i < Suc m" by simp
  then have "replicate (Suc m) (replicate (Suc n) (0::nat)) ! i = replicate (Suc n) 0"
    by (rule nth_replicate)
  then show "length (replicate (Suc m) (replicate (Suc n) (0::nat)) ! i) = Suc n"
    by (simp only: length_replicate)
qed

lemma setCell_nth:
  "shaped m n dp \<Longrightarrow> i \<le> m \<Longrightarrow> j \<le> n \<Longrightarrow>
     setCell dp i j v ! i' ! j' = (if i' = i \<and> j' = j then v else dp ! i' ! j')"
  by (auto simp: shaped_def setCell_def nth_list_update)

lemma editDist_col0: "editDist a b i 0 = i"
  by (cases i) simp_all

text \<open>The two initialising loops.\<close>

lemma init_col:
  assumes sh0: "shaped m n dp0"
  shows "k \<le> Suc m \<Longrightarrow>
     shaped m n (fold (\<lambda>i dp. setCell dp i 0 i) [0..<k] dp0)
     \<and> (\<forall>i < k. fold (\<lambda>i dp. setCell dp i 0 i) [0..<k] dp0 ! i ! 0 = i)"
proof (induction k)
  case 0
  show ?case using sh0 by simp
next
  case (Suc k)
  let ?p = "fold (\<lambda>i dp. setCell dp i 0 i) [0..<k] dp0"
  from Suc have sh: "shaped m n ?p" and v: "\<And>i. i < k \<Longrightarrow> ?p ! i ! 0 = i" and k: "k \<le> m"
    by simp_all
  have f: "fold (\<lambda>i dp. setCell dp i 0 i) [0..<Suc k] dp0 = setCell ?p k 0 k" by simp
  have z: "(0::nat) \<le> n" by simp
  show ?case unfolding f
  proof (intro conjI allI impI)
    show "shaped m n (setCell ?p k 0 k)" by (rule setCell_shaped[OF sh])
  next
    fix i assume "i < Suc k"
    then show "setCell ?p k 0 k ! i ! 0 = i"
      using v by (cases "i = k") (simp_all add: setCell_nth[OF sh k z])
  qed
qed

lemma init_row:
  assumes sh: "shaped m n dp0" and c: "\<forall>i \<le> m. dp0 ! i ! 0 = i"
  shows "k \<le> Suc n \<Longrightarrow>
     shaped m n (fold (\<lambda>j dp. setCell dp 0 j j) [0..<k] dp0)
     \<and> (\<forall>j < k. fold (\<lambda>j dp. setCell dp 0 j j) [0..<k] dp0 ! 0 ! j = j)
     \<and> (\<forall>i \<le> m. fold (\<lambda>j dp. setCell dp 0 j j) [0..<k] dp0 ! i ! 0 = i)"
proof (induction k)
  case 0
  show ?case using sh c by simp
next
  case (Suc k)
  let ?p = "fold (\<lambda>j dp. setCell dp 0 j j) [0..<k] dp0"
  from Suc have shp: "shaped m n ?p" and v: "\<And>j. j < k \<Longrightarrow> ?p ! 0 ! j = j"
    and col: "\<And>i. i \<le> m \<Longrightarrow> ?p ! i ! 0 = i" and k: "k \<le> n"
    by simp_all
  have f: "fold (\<lambda>j dp. setCell dp 0 j j) [0..<Suc k] dp0 = setCell ?p 0 k k" by simp
  have z: "(0::nat) \<le> m" by simp
  show ?case unfolding f
  proof (intro conjI allI impI)
    show "shaped m n (setCell ?p 0 k k)" by (rule setCell_shaped[OF shp])
  next
    fix j assume "j < Suc k"
    then show "setCell ?p 0 k k ! 0 ! j = j"
      using v by (cases "j = k") (simp_all add: setCell_nth[OF shp z k])
  next
    fix i assume "i \<le> m"
    then show "setCell ?p 0 k k ! i ! 0 = i"
      using col by (simp add: setCell_nth[OF shp z k])
  qed
qed

lemma levInit_filled: "filled a b 1 0 (levInit (length a) (length b))"
proof -
  let ?m = "length a" and ?n = "length b"
  let ?d1 = "fold (\<lambda>i dp. setCell dp i 0 i) [0..<Suc ?m] (replicate (Suc ?m) (replicate (Suc ?n) 0))"
  from init_col[OF shaped_replicate, of "Suc ?m" ?m ?n] have sh: "shaped ?m ?n ?d1" and c: "\<forall>i \<le> ?m. ?d1 ! i ! 0 = i"
    by (simp_all add: less_Suc_eq_le)
  from init_row[OF sh c, of "Suc ?n"]
  have r: "shaped ?m ?n (fold (\<lambda>j dp. setCell dp 0 j j) [0..<Suc ?n] ?d1)"
    "\<forall>j \<le> ?n. fold (\<lambda>j dp. setCell dp 0 j j) [0..<Suc ?n] ?d1 ! 0 ! j = j"
    "\<forall>i \<le> ?m. fold (\<lambda>j dp. setCell dp 0 j j) [0..<Suc ?n] ?d1 ! i ! 0 = i"
    by (simp_all add: less_Suc_eq_le)
  have e: "levInit ?m ?n = fold (\<lambda>j dp. setCell dp 0 j j) [0..<Suc ?n] ?d1"
    by (simp add: levInit_def Let_def)
  show ?thesis unfolding e filled_def using r by simp
qed

text \<open>One cell, then one row.\<close>

lemma cell_step:
  assumes f: "filled a b i j dp" and i: "1 \<le> i" "i \<le> length a" and j: "1 \<le> j" "j \<le> length b"
  shows "filled a b i (Suc j) (setCell dp i j (levCell a b dp i j))"
proof -
  from f have sh: "shaped (length a) (length b) dp"
    and rows: "\<And>i' j'. i' < i \<Longrightarrow> j' \<le> length b \<Longrightarrow> dp ! i' ! j' = editDist a b i' j'"
    and cur: "\<And>j'. j' < j \<Longrightarrow> dp ! i ! j' = editDist a b i j'"
    and col: "\<And>i'. i' \<le> length a \<Longrightarrow> dp ! i' ! 0 = i'"
    using i(2) by (simp_all add: filled_def)
  obtain i0 where i0: "i = Suc i0" using i(1) by (cases i) simp_all
  obtain j0 where j0: "j = Suc j0" using j(1) by (cases j) simp_all
  have v: "levCell a b dp i j = editDist a b i j"
    using rows[of i0 j0] rows[of i0 j] cur[of j0] j(2)
    by (simp add: levCell_def i0 j0)
  note n = setCell_nth[OF sh i(2) j(2)]
  show ?thesis unfolding filled_def
  proof (intro conjI allI impI)
    show "shaped (length a) (length b) (setCell dp i j (levCell a b dp i j))"
      by (rule setCell_shaped[OF sh])
  next
    fix i' j' assume "i' < i" "j' \<le> length b"
    then show "setCell dp i j (levCell a b dp i j) ! i' ! j' = editDist a b i' j'"
      by (simp add: n rows)
  next
    fix j' assume "j' < Suc j" "i \<le> length a"
    then show "setCell dp i j (levCell a b dp i j) ! i ! j' = editDist a b i j'"
      by (cases "j' = j") (simp_all add: n v cur)
  next
    fix i' assume "i' \<le> length a"
    then show "setCell dp i j (levCell a b dp i j) ! i' ! 0 = i'"
      using j(1) by (simp add: n col)
  qed
qed

lemma row_prefix:
  assumes f: "filled a b i 1 dp" and i: "1 \<le> i" "i \<le> length a"
  shows "k \<le> length b \<Longrightarrow>
     filled a b i (Suc k) (fold (\<lambda>j dp. setCell dp i j (levCell a b dp i j)) [1..<Suc k] dp)"
proof (induction k)
  case 0
  show ?case using f by simp
next
  case (Suc k)
  let ?p = "fold (\<lambda>j dp. setCell dp i j (levCell a b dp i j)) [1..<Suc k] dp"
  from Suc have p: "filled a b i (Suc k) ?p" and k: "Suc k \<le> length b" by simp_all
  have e: "fold (\<lambda>j dp. setCell dp i j (levCell a b dp i j)) [1..<Suc (Suc k)] dp
      = setCell ?p i (Suc k) (levCell a b ?p i (Suc k))"
    by simp
  show ?case unfolding e by (rule cell_step[OF p i _ k]) simp
qed

lemma filled_next_row:
  assumes f: "filled a b i (Suc (length b)) dp" and i: "i \<le> length a"
  shows "filled a b (Suc i) 1 dp"
proof -
  from f have sh: "shaped (length a) (length b) dp"
    and rows: "\<And>i' j'. i' < i \<Longrightarrow> j' \<le> length b \<Longrightarrow> dp ! i' ! j' = editDist a b i' j'"
    and cur: "\<And>j'. j' \<le> length b \<Longrightarrow> dp ! i ! j' = editDist a b i j'"
    and col: "\<And>i'. i' \<le> length a \<Longrightarrow> dp ! i' ! 0 = i'"
    using i by (simp_all add: filled_def less_Suc_eq_le)
  show ?thesis unfolding filled_def
  proof (intro conjI allI impI)
    show "shaped (length a) (length b) dp" by (rule sh)
  next
    fix i' j' assume "i' < Suc i" "j' \<le> length b"
    then show "dp ! i' ! j' = editDist a b i' j'"
      using rows cur by (cases "i' = i") simp_all
  next
    fix j' :: nat assume "j' < 1" "Suc i \<le> length a"
    then show "dp ! Suc i ! j' = editDist a b (Suc i) j'"
      using col[of "Suc i"] by simp
  next
    fix i' assume "i' \<le> length a"
    then show "dp ! i' ! 0 = i'" by (rule col)
  qed
qed

lemma levRow_filled:
  assumes f: "filled a b i 1 dp" and i: "1 \<le> i" "i \<le> length a"
  shows "filled a b (Suc i) 1 (levRow a b i dp)"
proof -
  from row_prefix[OF f i, of "length b"]
  have "filled a b i (Suc (length b)) (levRow a b i dp)" by (simp add: levRow_def)
  from filled_next_row[OF this i(2)] show ?thesis .
qed

lemma filled_start: "filled a b k 0 dp \<Longrightarrow> k \<le> length a \<Longrightarrow> filled a b k 1 dp"
  by (auto simp: filled_def editDist_col0)

lemma rows_prefix:
  "k \<le> length a \<Longrightarrow>
     filled a b (Suc k) 1 (fold (levRow a b) [1..<Suc k] (levInit (length a) (length b)))"
proof (induction k)
  case 0
  from levInit_filled[of a b] have "filled a b 1 0 (levInit (length a) (length b))" .
  then have "filled a b (Suc 0) (Suc 0) (levInit (length a) (length b))"
    by (auto simp: filled_def editDist_col0)
  then show ?case by simp
next
  case (Suc k)
  let ?p = "fold (levRow a b) [1..<Suc k] (levInit (length a) (length b))"
  from Suc have p: "filled a b (Suc k) 1 ?p" and k: "Suc k \<le> length a" by simp_all
  have e: "fold (levRow a b) [1..<Suc (Suc k)] (levInit (length a) (length b)) = levRow a b (Suc k) ?p"
    by simp
  show ?case unfolding e by (rule levRow_filled[OF p _ k]) simp
qed

lemma levenshtein_editDist: "levenshtein a b = editDist a b (length a) (length b)"
proof -
  from rows_prefix[of "length a" a b]
  have "filled a b (Suc (length a)) 1 (levTable a b)" by (simp add: levTable_def)
  then show ?thesis by (simp add: levenshtein_def filled_def)
qed

subsection \<open>The title normalisations\<close>

text \<open>The functions of the source compute what the specification describes.\<close>

lemma all_chars_D: "list_all P Enum.enum \<Longrightarrow> P (c :: char)"
  by (simp add: list_all_iff UNIV_enum[symmetric])

lemma lowerChar_small: "lowerChar c = small c"
proof -
  have "list_all (\<lambda>c. lowerChar c = small c) Enum.enum" by code_simp
  then show ?thesis by (rule all_chars_D)
qed

lemma toLowerCase_lowercase: "toLowerCase s = lowercase s"
  by (simp add: toLowerCase_def lowercase_def lowerChar_small)

lemma trim_trimmed: "trim s = trimmed s"
proof (cases "dropWhile isSpace s = []")
  case True
  then have tw: "takeWhile isSpace s = s" by (simp add: dropWhile_eq_Nil_conv takeWhile_eq_all_conv)
  have "trimmed s = []" unfolding trimmed_def Let_def tw by simp
  moreover have "trim s = rev (dropWhile isSpace (rev []))" by (simp only: trim_def True)
  ultimately show ?thesis by simp
next
  case False
  define t where "t = dropWhile isSpace s"
  define l where "l = length (takeWhile isSpace s)"
  have t: "t = drop l s" by (simp add: t_def l_def dropWhile_eq_drop)
  from False have "\<not> isSpace (hd t)" unfolding t_def by (rule hd_dropWhile)
  moreover from False have "hd t \<in> set (rev t)" by (simp add: t_def)
  ultimately have k: "takeWhile isSpace (rev t @ rev (takeWhile isSpace s)) = takeWhile isSpace (rev t)"
    by (intro takeWhile_append1) auto
  have "rev s = rev t @ rev (takeWhile isSpace s)"
    unfolding t_def by (simp add: rev_append[symmetric] del: rev_append)
  with k have r: "takeWhile isSpace (rev s) = takeWhile isSpace (rev t)" by simp
  have lt: "length t = length s - l" by (simp add: t)
  have "trim s = rev (drop (length (takeWhile isSpace (rev t))) (rev t))"
    by (simp add: trim_def t_def dropWhile_eq_drop)
  also have "\<dots> = take (length t - length (takeWhile isSpace (rev t))) t"
    by (simp add: rev_drop)
  finally show ?thesis
    by (simp add: trimmed_def Let_def r lt l_def[symmetric] t[symmetric])
qed

lemma manyRests_hd: "manyRests k s \<noteq> [] \<and> hd (manyRests k s) = dropWhile (inClass k) s"
  by (induction s) simp_all

lemma space_lowerAscii: "isSpace c \<Longrightarrow> lowerAscii c = c"
  by (auto simp: isSpace_def lowerAscii_def)

lemma small_letter: "x \<in> set ''thean'' \<Longrightarrow> (small c = x) = (lowerAscii c = x)"
proof -
  let ?Q = "\<lambda>c. list_all (\<lambda>x. (small c = x) = (lowerAscii c = x)) ''thean''"
  have "list_all ?Q Enum.enum" by code_simp
  then have "?Q c" by (rule all_chars_D)
  then show "x \<in> set ''thean'' \<Longrightarrow> ?thesis" unfolding list_all_iff by blast
qed

lemma lowercase_word:
  "set X \<subseteq> set ''thean'' \<Longrightarrow> (lowercase w = X) = (map lowerAscii w = X)"
proof (induction w arbitrary: X)
  case Nil
  show ?case by (simp add: lowercase_def)
next
  case (Cons c cs)
  show ?case
  proof (cases X)
    case Nil
    then show ?thesis by (simp add: lowercase_def)
  next
    case (Cons x xs)
    with Cons.prems have x: "x \<in> set ''thean''" and xs: "set xs \<subseteq> set ''thean''" by auto
    from Cons.IH[OF xs] small_letter[OF x, of c] Cons show ?thesis
      by (simp add: lowercase_def)
  qed
qed

text \<open>An article and the white space after it, at the start of \<open>s\<close>.\<close>

lemma article_rests:
  assumes X: "\<forall>x \<in> set X. \<not> isSpace x"
  shows "concat (map (rmatch (Many1 Space)) (rmatch (WordI X) s))
     = (if map lowerAscii (takeWhile (\<lambda>c. \<not> isSpace c) s) = X \<and> dropWhile (\<lambda>c. \<not> isSpace c) s \<noteq> []
        then manyRests Space (tl (dropWhile (\<lambda>c. \<not> isSpace c) s)) else [])"
proof -
  define word where "word = takeWhile (\<lambda>c. \<not> isSpace c) s"
  define rest where "rest = dropWhile (\<lambda>c. \<not> isSpace c) s"
  have s: "s = word @ rest" by (simp add: word_def rest_def)
  have wn: "\<forall>c \<in> set word. \<not> isSpace c" unfolding word_def by (auto dest: set_takeWhileD)
  have rs: "rest \<noteq> [] \<Longrightarrow> isSpace (hd rest)"
    unfolding rest_def using hd_dropWhile[of "\<lambda>c. \<not> isSpace c" s] by simp
  show ?thesis
  proof (cases "map lowerAscii word = X \<and> rest \<noteq> []")
    case True
    then have l: "length X = length word" by auto
    from True obtain c cs where r: "rest = c # cs" by (cases rest) auto
    with rs have c: "isSpace c" by simp
    have "rmatch (WordI X) s = [rest]" using True l by (simp add: s)
    with True r c show ?thesis
      unfolding word_def[symmetric] rest_def[symmetric] by simp
  next
    case False
    have "concat (map (rmatch (Many1 Space)) (rmatch (WordI X) s)) = []"
    proof (cases "length X \<le> length s \<and> map lowerAscii (take (length X) s) = X")
      case False
      then show ?thesis by auto
    next
      case True
      define p where "p = take (length X) s"
      define q where "q = drop (length X) s"
      have pq: "s = p @ q" by (simp add: p_def q_def)
      from True have px: "map lowerAscii p = X" by (simp add: p_def)
      have pn: "\<forall>c \<in> set p. \<not> isSpace c"
      proof
        fix c assume c: "c \<in> set p"
        then have "lowerAscii c \<in> set X" using px by force
        with X have "\<not> isSpace (lowerAscii c)" by simp
        with space_lowerAscii[of c] show "\<not> isSpace c" by auto
      qed
      show ?thesis
      proof (cases q)
        case Nil
        with True show ?thesis by (simp add: q_def[symmetric])
      next
        case (Cons d ds)
        show ?thesis
        proof (cases "isSpace d")
          case False
          with True Cons show ?thesis by (simp add: q_def[symmetric])
        next
          case sp: True
          have "takeWhile (\<lambda>c. \<not> isSpace c) (p @ d # ds) = p"
            using pn sp by (simp add: takeWhile_append2 takeWhile_tail)
          moreover have "dropWhile (\<lambda>c. \<not> isSpace c) (p @ d # ds) = d # ds"
            using pn sp by (simp add: dropWhile_append2)
          ultimately have "word = p" "rest = d # ds"
            unfolding word_def rest_def pq Cons by simp_all
          with px \<open>\<not> (map lowerAscii word = X \<and> rest \<noteq> [])\<close> show ?thesis by simp
        qed
      qed
    qed
    with False show ?thesis unfolding word_def[symmetric] rest_def[symmetric] by simp
  qed
qed

lemma inClass_Space: "inClass Space = isSpace"
  by (rule ext) simp

lemma concat_singletons: "concat (map (\<lambda>x. [x]) xs) = xs"
  by (induction xs) simp_all

lemma rmatch_seq_empty: "rmatch (Seq a Empty) = rmatch a"
proof
  fix s
  have "rmatch Empty = (\<lambda>x. [x])" by (rule ext) simp
  then show "rmatch (Seq a Empty) s = rmatch a s" by (simp add: concat_singletons)
qed

lemma trim_dropWhile: "trim (dropWhile isSpace s) = trim s"
  by (simp add: trim_def)

lemma trim_after_space: "isSpace c \<Longrightarrow> trim (c # s) = trim s"
  by (simp add: trim_def)

lemma stripArticle_withoutArticle: "stripArticle s = withoutArticle s"
proof -
  define word where "word = takeWhile (\<lambda>c. \<not> isSpace c) s"
  define rest where "rest = dropWhile (\<lambda>c. \<not> isSpace c) s"
  have plain: "\<forall>x \<in> set ''the''. \<not> isSpace x" "\<forall>x \<in> set ''a''. \<not> isSpace x"
      "\<forall>x \<in> set ''an''. \<not> isSpace x"
    by (simp_all add: isSpace_def)
  have rm: "rmatch (seqs [alts [WordI ''the'', WordI ''a'', WordI ''an''], Many1 Space]) s
      = concat (map (rmatch (Many1 Space)) (rmatch (WordI ''the'') s))
        @ concat (map (rmatch (Many1 Space)) (rmatch (WordI ''a'') s))
        @ concat (map (rmatch (Many1 Space)) (rmatch (WordI ''an'') s))"
    by (simp add: seqs_def alts_def rmatch_seq_empty del: rmatch.simps(5,6))
  have low: "(lowercase word \<in> set articles)
      = (map lowerAscii word = ''the'' \<or> map lowerAscii word = ''a'' \<or> map lowerAscii word = ''an'')"
    using lowercase_word[of "''the''" word] lowercase_word[of "''a''" word]
      lowercase_word[of "''an''" word]
    by (simp add: articles_def)
  have rs: "rest \<noteq> [] \<Longrightarrow> isSpace (hd rest)"
    unfolding rest_def using hd_dropWhile[of "\<lambda>c. \<not> isSpace c" s] by simp
  show ?thesis
  proof (cases "lowercase word \<in> set articles \<and> rest \<noteq> []")
    case True
    then obtain c cs where r: "rest = c # cs" by (cases rest) auto
    with rs have c: "isSpace c" by simp
    from True low have "rmatch (seqs [alts [WordI ''the'', WordI ''a'', WordI ''an''], Many1 Space]) s
        = manyRests Space cs"
      unfolding rm article_rests[OF plain(1)] article_rests[OF plain(2)] article_rests[OF plain(3)]
        word_def[symmetric] rest_def[symmetric] r
      by auto
    then have "replaceStart (seqs [alts [WordI ''the'', WordI ''a'', WordI ''an''], Many1 Space]) s
        = dropWhile isSpace cs"
      using manyRests_hd[of Space cs]
      by (cases "manyRests Space cs") (simp_all add: replaceStart_def inClass_Space)
    then have "stripArticle s = trim rest"
      by (simp add: stripArticle_def trim_dropWhile r trim_after_space[OF c])
    moreover from True have "withoutArticle s = trimmed rest"
      by (simp add: withoutArticle_def Let_def word_def[symmetric] rest_def[symmetric])
    ultimately show ?thesis by (simp add: trim_trimmed)
  next
    case False
    with low have "rmatch (seqs [alts [WordI ''the'', WordI ''a'', WordI ''an''], Many1 Space]) s = []"
      unfolding rm article_rests[OF plain(1)] article_rests[OF plain(2)] article_rests[OF plain(3)]
        word_def[symmetric] rest_def[symmetric]
      by auto
    then have "stripArticle s = trim s" by (simp add: stripArticle_def replaceStart_def)
    moreover from False have "withoutArticle s = trimmed s"
      by (auto simp: withoutArticle_def Let_def word_def[symmetric] rest_def[symmetric])
    ultimately show ?thesis by (simp add: trim_trimmed)
  qed
qed

lemma manyRests_set:
  "set (manyRests k s) = {t. \<exists>p. s = p @ t \<and> list_all (inClass k) p}"
proof (induction s)
  case Nil
  show ?case by auto
next
  case (Cons c cs)
  show ?case
  proof (cases "inClass k c")
    case True
    have "{t. \<exists>p. c # cs = p @ t \<and> list_all (inClass k) p}
        = insert (c # cs) {t. \<exists>p. cs = p @ t \<and> list_all (inClass k) p}"
    proof (intro set_eqI iffI)
      fix t assume "t \<in> {t. \<exists>p. c # cs = p @ t \<and> list_all (inClass k) p}"
      then obtain p where p: "c # cs = p @ t" "list_all (inClass k) p" by blast
      show "t \<in> insert (c # cs) {t. \<exists>p. cs = p @ t \<and> list_all (inClass k) p}"
      proof (cases p)
        case Nil
        with p show ?thesis by simp
      next
        case (Cons d ds)
        with p have "cs = ds @ t" "list_all (inClass k) ds" by simp_all
        then show ?thesis by blast
      qed
    next
      fix t assume "t \<in> insert (c # cs) {t. \<exists>p. cs = p @ t \<and> list_all (inClass k) p}"
      then consider "t = c # cs" | p where "cs = p @ t" "list_all (inClass k) p" by blast
      then show "t \<in> {t. \<exists>p. c # cs = p @ t \<and> list_all (inClass k) p}"
      proof cases
        case 1
        then have "c # cs = [] @ t \<and> list_all (inClass k) []" by simp
        then show ?thesis by blast
      next
        case 2
        with True have "c # cs = (c # p) @ t \<and> list_all (inClass k) (c # p)" by simp
        then show ?thesis by blast
      qed
    qed
    with True Cons.IH show ?thesis by simp
  next
    case False
    have "{t. \<exists>p. c # cs = p @ t \<and> list_all (inClass k) p} = {c # cs}"
    proof (intro set_eqI iffI)
      fix t assume "t \<in> {t. \<exists>p. c # cs = p @ t \<and> list_all (inClass k) p}"
      then obtain p where p: "c # cs = p @ t" "list_all (inClass k) p" by blast
      with False have "p = []" by (cases p) auto
      with p show "t \<in> {c # cs}" by simp
    next
      fix t assume "t \<in> {c # cs}"
      then have "c # cs = [] @ t \<and> list_all (inClass k) []" by simp
      then show "t \<in> {t. \<exists>p. c # cs = p @ t \<and> list_all (inClass k) p}" by blast
    qed
    with False show ?thesis by simp
  qed
qed

text \<open>The matcher is sound and complete for the patterns' languages.\<close>

lemma rmatch_lang: "set (rmatch r s) = {t. \<exists>p \<in> lang r. s = p @ t}"
proof (induction r arbitrary: s)
  case Empty
  show ?case by auto
next
  case Never
  show ?case by simp
next
  case (One k)
  show ?case by (cases s) auto
next
  case (Many k)
  show ?case by (auto simp: manyRests_set)
next
  case (Many1 k)
  show ?case
  proof (cases s)
    case Nil
    then show ?thesis by auto
  next
    case (Cons c cs)
    show ?thesis
    proof (intro set_eqI iffI)
      fix t assume "t \<in> set (rmatch (Many1 k) s)"
      with Cons have c: "inClass k c" and "t \<in> set (manyRests k cs)"
        by (auto split: if_splits)
      then obtain p where "cs = p @ t" "list_all (inClass k) p" by (auto simp: manyRests_set)
      with c Cons have "c # p \<in> lang (Many1 k)" "s = (c # p) @ t" by simp_all
      then show "t \<in> {t. \<exists>p \<in> lang (Many1 k). s = p @ t}" by blast
    next
      fix t assume "t \<in> {t. \<exists>p \<in> lang (Many1 k). s = p @ t}"
      then obtain p where p: "p \<noteq> []" "list_all (inClass k) p" "s = p @ t" by auto
      then obtain d ds where d: "p = d # ds" by (cases p) auto
      with p Cons have "c = d" "cs = ds @ t" "inClass k c" "list_all (inClass k) ds" by simp_all
      then have "t \<in> set (manyRests k cs)" "inClass k c" by (auto simp: manyRests_set)
      with Cons show "t \<in> set (rmatch (Many1 k) s)" by simp
    qed
  qed
next
  case (WordI w)
  show ?case
  proof (intro set_eqI iffI)
    fix t assume "t \<in> set (rmatch (WordI w) s)"
    then have a: "length w \<le> length s" "map lowerAscii (take (length w) s) = w"
        "t = drop (length w) s"
      by (auto split: if_splits)
    then have "take (length w) s \<in> lang (WordI w)" "s = take (length w) s @ t" by simp_all
    then show "t \<in> {t. \<exists>p \<in> lang (WordI w). s = p @ t}" by blast
  next
    fix t assume "t \<in> {t. \<exists>p \<in> lang (WordI w). s = p @ t}"
    then obtain p where p: "map lowerAscii p = w" "s = p @ t" by auto
    then have "length w = length p" by auto
    with p show "t \<in> set (rmatch (WordI w) s)" by simp
  qed
next
  case (Seq a b)
  show ?case
  proof (intro set_eqI iffI)
    fix t assume "t \<in> set (rmatch (Seq a b) s)"
    then obtain u where "u \<in> set (rmatch a s)" "t \<in> set (rmatch b u)" by auto
    with Seq.IH obtain p q where "p \<in> lang a" "s = p @ u" "q \<in> lang b" "u = q @ t" by blast
    then have "p @ q \<in> lang (Seq a b)" "s = (p @ q) @ t" by auto
    then show "t \<in> {t. \<exists>p \<in> lang (Seq a b). s = p @ t}" by blast
  next
    fix t assume "t \<in> {t. \<exists>p \<in> lang (Seq a b). s = p @ t}"
    then obtain p q where pq: "p \<in> lang a" "q \<in> lang b" "s = (p @ q) @ t" by auto
    then have "q @ t \<in> set (rmatch a s)" using Seq.IH(1)[of s] by auto
    moreover from pq have "t \<in> set (rmatch b (q @ t))" using Seq.IH(2)[of "q @ t"] by auto
    ultimately show "t \<in> set (rmatch (Seq a b) s)" by auto
  qed
next
  case (Alt a b)
  then show ?case by auto
next
  case (Opt a)
  then show ?case by auto
qed

lemma matchesToEnd_lang: "matchesToEnd r s = (s \<in> lang r)"
  by (auto simp: matchesToEnd_def rmatch_lang)

lemma replaceEnd_cutTrailing: "replaceEnd r s = cutTrailing r s"
proof (induction s)
  case Nil
  show ?case by (simp add: cutTrailing_def)
next
  case (Cons c cs)
  show ?case
  proof (cases "c # cs \<in> lang r")
    case True
    then have l: "(LEAST k. drop k (c # cs) \<in> lang r) = 0" by (intro Least_eq_0) simp
    from True have e: "\<exists>k < length (c # cs). drop k (c # cs) \<in> lang r"
      by (intro exI[of _ 0]) simp
    have "cutTrailing r (c # cs) = []" unfolding cutTrailing_def if_P[OF e] l by simp
    with True show ?thesis by (simp add: matchesToEnd_lang)
  next
    case False
    then have step: "replaceEnd r (c # cs) = c # cutTrailing r cs"
      by (simp add: matchesToEnd_lang Cons.IH)
    show ?thesis
    proof (cases "\<exists>k < length cs. drop k cs \<in> lang r")
      case True
      then obtain k where k: "k < length cs" "drop k cs \<in> lang r" by blast
      then have e: "\<exists>k < length (c # cs). drop k (c # cs) \<in> lang r"
        by (intro exI[of _ "Suc k"]) simp
      have "(LEAST k. drop k (c # cs) \<in> lang r) = Suc (LEAST k. drop (Suc k) (c # cs) \<in> lang r)"
        using k(2) False by (intro Least_Suc[of _ "Suc k"]) simp_all
      then have "take (LEAST k. drop k (c # cs) \<in> lang r) (c # cs)
          = c # take (LEAST k. drop k cs \<in> lang r) cs" by simp
      then have "cutTrailing r (c # cs) = c # cutTrailing r cs"
        unfolding cutTrailing_def if_P[OF e] if_P[OF True] .
      with step show ?thesis by simp
    next
      case n: False
      have ne: "\<not> (\<exists>k < length (c # cs). drop k (c # cs) \<in> lang r)"
      proof
        assume "\<exists>k < length (c # cs). drop k (c # cs) \<in> lang r"
        then obtain k where k: "k < length (c # cs)" "drop k (c # cs) \<in> lang r" by blast
        with False obtain j where "k = Suc j" by (cases k) auto
        with k n show False by auto
      qed
      have "cutTrailing r (c # cs) = c # cutTrailing r cs"
        unfolding cutTrailing_def if_not_P[OF ne] if_not_P[OF n] ..
      with step show ?thesis by simp
    qed
  qed
qed

lemma stripSeasonSuffix_without: "stripSeasonSuffix s = withoutSeasonSuffix s"
  by (simp add: stripSeasonSuffix_def withoutSeasonSuffix_def seasonRxs_def Let_def
      replaceEnd_cutTrailing trim_trimmed)

subsection \<open>Rounding\<close>

lemma roundEven_err: "\<bar>of_int (roundEven q) - q\<bar> \<le> 1 / 2"
proof -
  define n where "n = \<lfloor>q\<rfloor>"
  have "of_int n \<le> q" "q < of_int n + 1" unfolding n_def by linarith+
  then show ?thesis unfolding roundEven_def Let_def n_def[symmetric]
    by (auto simp: abs_le_iff)
qed

lemma scaleDown_small: "x < 2 \<Longrightarrow> scaleDown n x = 0"
  by (cases n) simp_all

lemma exponentOf_small: "x < 2 \<Longrightarrow> exponentOf x \<le> 0"
  by (simp add: exponentOf_def scaleDown_small)

lemma pow2_small: "k \<le> - 52 \<Longrightarrow> 0 < pow2 k \<and> pow2 k \<le> 1 / 2 ^ 52"
proof -
  assume k: "k \<le> - 52"
  then have n: "52 \<le> nat (- k)" by simp
  have "(2 :: rat) ^ 52 \<le> 2 ^ nat (- k)" using n by (intro power_increasing) simp_all
  then have "1 / (2 :: rat) ^ nat (- k) \<le> 1 / 2 ^ 52" by (intro divide_left_mono) simp_all
  with k show ?thesis by (simp add: pow2_def)
qed

text \<open>Below 2 in absolute value, rounding moves a number by at most \<open>2\<^sup>-\<^sup>5\<^sup>3\<close>.\<close>

lemma fl_err:
  assumes "\<bar>x\<bar> < 2"
  shows "\<bar>fl x - x\<bar> \<le> 1 / 2 ^ 53"
proof (cases "x = 0")
  case True
  then show ?thesis by (simp add: fl_def)
next
  case False
  define u where "u = pow2 (exponentOf \<bar>x\<bar> - 52)"
  define r where "r = roundEven (\<bar>x\<bar> / u)"
  from exponentOf_small[OF assms] have "exponentOf \<bar>x\<bar> - 52 \<le> - 52" by simp
  from pow2_small[OF this] have u: "0 < u" "u \<le> 1 / 2 ^ 52" by (simp_all add: u_def)
  have f: "fl x = sgn x * of_int r * u" using False by (simp add: fl_def Let_def u_def r_def)
  have "(of_int r - \<bar>x\<bar> / u) * u = of_int r * u - \<bar>x\<bar>"
    using u(1) by (simp add: field_simps)
  then have "fl x - x = sgn x * ((of_int r - \<bar>x\<bar> / u) * u)"
    by (simp add: f right_diff_distrib sgn_mult_abs mult.assoc)
  then have "\<bar>fl x - x\<bar> = \<bar>of_int r - \<bar>x\<bar> / u\<bar> * u"
    using False u(1) by (simp add: abs_mult abs_sgn_eq)
  also have "\<dots> \<le> (1 / 2) * u"
    using roundEven_err[of "\<bar>x\<bar> / u"] u(1) unfolding r_def by (intro mult_right_mono) simp_all
  also have "\<dots> \<le> 1 / 2 ^ 53" using u(2) by simp
  finally show ?thesis .
qed

lemma editDist_le: "editDist a b i j \<le> max i j"
  by (induction a b i j rule: editDist.induct) auto

lemma similarity_exact_bounds:
  "0 \<le> similarityBy (\<lambda>x. x) a b \<and> similarityBy (\<lambda>x. x) a b \<le> 1"
proof (cases "a = [] \<and> b = []")
  case True
  then show ?thesis by (simp add: similarityBy_def)
next
  case False
  define d where "d = editDist a b (length a) (length b)"
  define m where "m = max (length a) (length b)"
  from False have m: "0 < m" by (cases a; cases b; simp add: m_def)
  have "d \<le> m" unfolding d_def m_def by (rule editDist_le)
  then have "(of_nat d :: rat) \<le> of_nat m" by simp
  with m have "(of_nat d :: rat) / of_nat m \<le> 1" by (simp add: divide_le_eq)
  moreover have "0 \<le> (of_nat d :: rat) / of_nat m" by simp
  ultimately show ?thesis
    unfolding similarityBy_def if_not_P[OF False] d_def[symmetric] m_def[symmetric] by simp
qed

lemma similarity_err:
  "\<bar>similarityBy fl a b - similarityBy (\<lambda>x. x) a b\<bar> \<le> 1 / 2 ^ 52"
proof (cases "a = [] \<and> b = []")
  case True
  then show ?thesis by (simp add: similarityBy_def)
next
  case False
  define q where "q = (of_nat (editDist a b (length a) (length b)) :: rat)
                        / of_nat (max (length a) (length b))"
  define eps where "eps = (1 :: rat) / 2 ^ 53"
  have eps: "0 < eps" "eps < 1 / 2" "2 * eps = 1 / 2 ^ 52" by (simp_all add: eps_def)
  have x: "similarityBy (\<lambda>x. x) a b = 1 - q"
    unfolding similarityBy_def q_def if_not_P[OF False] ..
  have y: "similarityBy fl a b = fl (1 - fl q)"
    unfolding similarityBy_def q_def if_not_P[OF False] ..
  from similarity_exact_bounds[of a b] have q: "0 \<le> 1 - q" "1 - q \<le> 1" unfolding x by simp_all
  then have "\<bar>q\<bar> < 2" by linarith
  from fl_err[OF this] have e1: "\<bar>fl q - q\<bar> \<le> eps" unfolding eps_def .
  with q eps(1,2) have "\<bar>1 - fl q\<bar> < 2" by linarith
  from fl_err[OF this] have e2: "\<bar>fl (1 - fl q) - (1 - fl q)\<bar> \<le> eps" unfolding eps_def .
  from e1 e2 have "\<bar>fl (1 - fl q) - (1 - q)\<bar> \<le> 2 * eps" by linarith
  then show ?thesis unfolding x y eps(3) .
qed

text \<open>The double-precision score is within \<open>2\<^sup>-\<^sup>5\<^sup>1\<close> of the exact one.\<close>

lemma titleScore_err:
  "\<bar>titleScoreBy fl bonus query candidateName - titleScoreBy (\<lambda>x. x) bonus query candidateName\<bar>
     \<le> 1 / 2 ^ 51"
proof -
  define cand where "cand = withoutArticle (lowercase candidateName)"
  define q1 where "q1 = withoutArticle (lowercase query)"
  define q2 where "q2 = withoutArticle (lowercase (withoutSeasonSuffix query))"
  define s1 where "s1 = similarityBy fl q1 cand"
  define s2 where "s2 = similarityBy fl q2 cand"
  define x1 where "x1 = similarityBy (\<lambda>x. x) q1 cand"
  define x2 where "x2 = similarityBy (\<lambda>x. x) q2 cand"
  define b where "b = (if bonus then fl (1 / 10) else 0)"
  define c where "c = (if bonus then (1 :: rat) / 10 else 0)"
  define eps where "eps = (1 :: rat) / 2 ^ 53"
  have eps: "0 < eps" "eps < 1 / 100" "4 * eps = 1 / 2 ^ 51" "2 * eps = 1 / 2 ^ 52"
    by (simp_all add: eps_def)
  have d1: "\<bar>s1 - x1\<bar> \<le> 2 * eps" unfolding s1_def x1_def eps(4) by (rule similarity_err)
  have d2: "\<bar>s2 - x2\<bar> \<le> 2 * eps" unfolding s2_def x2_def eps(4) by (rule similarity_err)
  have r1: "0 \<le> x1" "x1 \<le> 1" using similarity_exact_bounds[of q1 cand] by (simp_all add: x1_def)
  have r2: "0 \<le> x2" "x2 \<le> 1" using similarity_exact_bounds[of q2 cand] by (simp_all add: x2_def)
  have "\<bar>(1 :: rat) / 10\<bar> < 2" by simp
  from fl_err[OF this] have "\<bar>fl (1 / 10) - 1 / 10\<bar> \<le> eps" unfolding eps_def .
  then have db: "\<bar>b - c\<bar> \<le> eps" using eps(1) by (simp add: b_def c_def)
  have c: "0 \<le> c" "c \<le> 1 / 10" by (simp_all add: c_def)
  have dm: "\<bar>max s1 s2 - max x1 x2\<bar> \<le> 2 * eps" using d1 d2 by linarith
  have rm: "0 \<le> max x1 x2" "max x1 x2 \<le> 1" using r1 r2 by linarith+
  from dm db have ds: "\<bar>(max s1 s2 + b) - (max x1 x2 + c)\<bar> \<le> 3 * eps" by linarith
  with rm c eps(1,2) have "\<bar>max s1 s2 + b\<bar> < 2" by linarith
  from fl_err[OF this] have "\<bar>fl (max s1 s2 + b) - (max s1 s2 + b)\<bar> \<le> eps" unfolding eps_def .
  with ds have "\<bar>fl (max s1 s2 + b) - (max x1 x2 + c)\<bar> \<le> 4 * eps" by linarith
  then have "\<bar>min 1 (fl (max s1 s2 + b)) - min 1 (max x1 x2 + c)\<bar> \<le> 4 * eps" by linarith
  then show ?thesis
    unfolding titleScoreBy_def Let_def cand_def[symmetric] q1_def[symmetric] q2_def[symmetric]
      s1_def[symmetric] s2_def[symmetric] x1_def[symmetric] x2_def[symmetric]
      b_def[symmetric] c_def[symmetric] eps(3) .
qed

subsection \<open>The title score\<close>

lemma normalizedSimilarity64_by: "normalizedSimilarity64 a b = similarityBy fl a b"
  by (auto simp: normalizedSimilarity64_def similarityBy_def levenshtein_editDist Let_def)

lemma normalizedSimilarity_by: "normalizedSimilarity a b = similarityBy (\<lambda>x. x) a b"
  by (auto simp: normalizedSimilarity_def similarityBy_def levenshtein_editDist Let_def)

lemma yearBonus64_amended:
  "yearBonus64 y (resultYearOf date)
     = (if y \<noteq> None \<and> y \<noteq> Some 0 \<and> releaseYearOf date = y then fl (1 / 10) else 0)"
  by (auto simp: yearBonus64_def truthyNum_def resultYearOf_def releaseYearOf_def
      split: option.splits)

lemma yearBonus_amended:
  "yearBonus y (resultYearOf date)
     = (if y \<noteq> None \<and> y \<noteq> Some 0 \<and> releaseYearOf date = y then 1 / 10 else 0)"
  by (auto simp: yearBonus_def truthyNum_def resultYearOf_def releaseYearOf_def
      split: option.splits)

text \<open>The exact-rational score of the tier proofs is the same formula without rounding.\<close>

lemma totalScore_exact:
  "totalScore item (Some candidateName) candDate
     = Inr (titleScoreExact (title item) candidateName (year item) (releaseYearOf candDate))"
  by (simp add: totalScore_def computeTitleScore_def titleScoreExact_def titleScoreBy_def Let_def
      normalizedSimilarity_by yearBonus_amended min.commute
      stripArticle_withoutArticle toLowerCase_lowercase stripSeasonSuffix_without)

lemma titleScoreStated_code:
  "titleScoreStated q c qy cy
     = (case computeTitleScore q (Some c) of
          Inl e \<Rightarrow> 0
        | Inr s \<Rightarrow> min 1 (s + (if qy \<noteq> None \<and> cy \<noteq> None \<and> qy = cy then 1 / 10 else 0)))"
  by (simp add: computeTitleScore_def titleScoreStated_def titleScoreBy_def Let_def
      normalizedSimilarity_by stripArticle_withoutArticle toLowerCase_lowercase
      stripSeasonSuffix_without)

text \<open>
  Claim C4, amended.  The total score the scoring loops give a candidate is
  \<open>min(1, max(s_raw, s_stripped) + b)\<close> evaluated in double precision: \<open>s_raw\<close> the
  similarity (one minus the edit distance over the longer length, 1 for two empty
  strings) of the lower-cased, article-stripped query and candidate, \<open>s_stripped\<close> the same
  with the season suffix stripped from the query first, and \<open>b\<close> one tenth when the query
  year is present, is not 0 and equals the candidate's year, which is read from the first
  four characters of its date.  The quotient, the difference, the constant and the sum are
  each rounded to the nearest double, so the score is within \<open>1 / 2 ^ 51\<close> of the exact
  value of the formula, which is the score of the exact-rational model.
\<close>

theorem title_score_formula_amended:
  "totalScore64 item (Some candidateName) candDate
     = Inr (titleScore64 (title item) candidateName (year item) (releaseYearOf candDate))
   \<and> movieScore64 item r = totalScore64 item (mr_title r) (mr_release_date r)
   \<and> tvScore64 item r' = totalScore64 item (tr_name r') (tr_first_air_date r')
   \<and> \<bar>titleScore64 (title item) candidateName (year item) (releaseYearOf candDate)
        - titleScoreExact (title item) candidateName (year item) (releaseYearOf candDate)\<bar>
       \<le> 1 / 2 ^ 51
   \<and> totalScore item (Some candidateName) candDate
       = Inr (titleScoreExact (title item) candidateName (year item) (releaseYearOf candDate))"
proof (intro conjI)
  show "totalScore64 item (Some candidateName) candDate
     = Inr (titleScore64 (title item) candidateName (year item) (releaseYearOf candDate))"
    by (simp add: totalScore64_def computeTitleScore64_def titleScore64_def titleScoreBy_def Let_def
        normalizedSimilarity64_by yearBonus64_amended min.commute
        stripArticle_withoutArticle toLowerCase_lowercase stripSeasonSuffix_without)
  show "\<bar>titleScore64 (title item) candidateName (year item) (releaseYearOf candDate)
        - titleScoreExact (title item) candidateName (year item) (releaseYearOf candDate)\<bar>
       \<le> 1 / 2 ^ 51"
    unfolding titleScore64_def titleScoreExact_def by (rule titleScore_err)
  show "totalScore item (Some candidateName) candDate
       = Inr (titleScoreExact (title item) candidateName (year item) (releaseYearOf candDate))"
    by (rule totalScore_exact)
qed (simp_all add: movieScore64_def tvScore64_def)

theorem title_score_formula_amended_witness:
  "totalScore64 discItem (Some ''Breaking Bad'') (Some ''2008-01-20'') = Inr 1
   \<and> titleScore64 ''Breaking Bad - Season 1'' ''Breaking Bad'' (Some 2008) (Some 2008) = 1
   \<and> totalScore64 insideOut (Some ''Inside Man'') (Some ''2006-03-24'')
       = Inr (7205759403792793 / 9007199254740992)
   \<and> titleScore64 ''Inside Out'' ''Inside Man'' (Some 2006) (Some 2006)
       = 7205759403792793 / 9007199254740992
   \<and> totalScore insideOut (Some ''Inside Man'') (Some ''2006-03-24'') = Inr (4 / 5)
   \<and> titleScoreExact ''Inside Out'' ''Inside Man'' (Some 2006) (Some 2006) = 4 / 5
   \<and> lowercase ''The AvengerS'' = ''the avengers''
   \<and> map withoutArticle [''the matrix'', ''The Avengers'', ''a'', ''an education'', '' the x'',
          ''theatre'', ''A  Bug'']
       = [''matrix'', ''Avengers'', ''a'', ''education'', ''the x'', ''theatre'', ''Bug'']
   \<and> map withoutSeasonSuffix docSamples
       = [''Show'', ''Show'', ''Show'', ''Show'', ''Show S01'', ''Show'', ''Show'', ''Show'',
          ''Show'', ''Show'', ''Show'', ''Show'', ''Show (2005)'']"
proof -
  have a: "totalScore64 discItem (Some ''Breaking Bad'') (Some ''2008-01-20'') = Inr 1"
    by code_simp
  have b: "totalScore64 insideOut (Some ''Inside Man'') (Some ''2006-03-24'')
       = Inr (7205759403792793 / 9007199254740992)"
    by code_simp
  have c: "releaseYearOf (Some ''2008-01-20'') = Some 2008"
    "releaseYearOf (Some ''2006-03-24'') = Some 2006" by code_simp+
  have d: "totalScore insideOut (Some ''Inside Man'') (Some ''2006-03-24'') = Inr (4 / 5)"
    by code_simp
  have e: "lowercase ''The AvengerS'' = ''the avengers''" by code_simp
  have f: "map withoutArticle [''the matrix'', ''The Avengers'', ''a'', ''an education'', '' the x'',
          ''theatre'', ''A  Bug'']
       = [''matrix'', ''Avengers'', ''a'', ''education'', ''the x'', ''theatre'', ''Bug'']"
    by code_simp
  have w: "stripSeasonSuffix = withoutSeasonSuffix"
    by (rule ext) (rule stripSeasonSuffix_without)
  have "map stripSeasonSuffix docSamples
       = [''Show'', ''Show'', ''Show'', ''Show'', ''Show S01'', ''Show'', ''Show'', ''Show'',
          ''Show'', ''Show'', ''Show'', ''Show'', ''Show (2005)'']"
    by code_simp
  then have g: "map withoutSeasonSuffix docSamples
       = [''Show'', ''Show'', ''Show'', ''Show'', ''Show S01'', ''Show'', ''Show'', ''Show'',
          ''Show'', ''Show'', ''Show'', ''Show'', ''Show (2005)'']"
    unfolding w .
  from title_score_formula_amended[of discItem "''Breaking Bad''" "Some ''2008-01-20''"]
    title_score_formula_amended[of insideOut "''Inside Man''" "Some ''2006-03-24''"] a b c d
  have "totalScore64 discItem (Some ''Breaking Bad'') (Some ''2008-01-20'') = Inr 1
   \<and> titleScore64 ''Breaking Bad - Season 1'' ''Breaking Bad'' (Some 2008) (Some 2008) = 1
   \<and> totalScore64 insideOut (Some ''Inside Man'') (Some ''2006-03-24'')
       = Inr (7205759403792793 / 9007199254740992)
   \<and> titleScore64 ''Inside Out'' ''Inside Man'' (Some 2006) (Some 2006)
       = 7205759403792793 / 9007199254740992
   \<and> totalScore insideOut (Some ''Inside Man'') (Some ''2006-03-24'') = Inr (4 / 5)
   \<and> titleScoreExact ''Inside Out'' ''Inside Man'' (Some 2006) (Some 2006) = 4 / 5"
    by (simp add: discItem_def insideOut_def)
  with e f g show ?thesis by (simp only: simp_thms)
qed

text \<open>
  Claim C4 as stated fails in two ways.  With the query \<open>Inside Out\<close> and the candidate
  \<open>Inside Man\<close> of the same year the formula gives \<open>(1 - 3/10) + 1/10 = 4/5\<close>, and the
  source, in doubles, the next double below.  With a query year of 0 and a candidate whose
  date starts with \<open>0000\<close>, both years are present and equal, and the source gives no
  bonus.
\<close>

theorem title_score_not_as_stated:
  "totalScore64 insideOut (Some ''Inside Man'') (Some ''2006-03-24'')
     = Inr (7205759403792793 / 9007199254740992)
   \<and> titleScoreStated ''Inside Out'' ''Inside Man'' (Some 2006) (releaseYearOf (Some ''2006-03-24''))
       = 4 / 5
   \<and> totalScore64 aliensYearZero (Some ''Alien'') (Some ''0000-01-01'')
       = Inr (7505999378950827 / 9007199254740992)
   \<and> releaseYearOf (Some ''0000-01-01'') = Some 0
   \<and> titleScoreStated ''Aliens'' ''Alien'' (Some 0) (releaseYearOf (Some ''0000-01-01''))
       = 14 / 15"
proof -
  have a: "totalScore64 insideOut (Some ''Inside Man'') (Some ''2006-03-24'')
     = Inr (7205759403792793 / 9007199254740992)" by code_simp
  have b: "(case computeTitleScore ''Inside Out'' (Some ''Inside Man'') of
          Inl e \<Rightarrow> 0
        | Inr s \<Rightarrow> min 1 (s + (if Some 2006 \<noteq> None \<and> releaseYearOf (Some ''2006-03-24'') \<noteq> None
             \<and> Some 2006 = releaseYearOf (Some ''2006-03-24'') then 1 / 10 else 0))) = 4 / 5"
    by code_simp
  have c: "totalScore64 aliensYearZero (Some ''Alien'') (Some ''0000-01-01'')
       = Inr (7505999378950827 / 9007199254740992)" by code_simp
  have d: "(case computeTitleScore ''Aliens'' (Some ''Alien'') of
          Inl e \<Rightarrow> 0
        | Inr s \<Rightarrow> min 1 (s + (if Some 0 \<noteq> None \<and> releaseYearOf (Some ''0000-01-01'') \<noteq> None
             \<and> Some 0 = releaseYearOf (Some ''0000-01-01'') then 1 / 10 else 0))) = 14 / 15"
    by code_simp
  have e: "releaseYearOf (Some ''0000-01-01'') = Some 0" by code_simp
  show ?thesis unfolding titleScoreStated_code using a b c d e by simp
qed

subsection \<open>Stripping the season suffix twice\<close>

lemma trim_idem: "trim (trim s) = trim s"
proof -
  define t where "t = dropWhile isSpace s"
  define u where "u = dropWhile isSpace (rev t)"
  have tr: "trim s = rev u" by (simp add: trim_def t_def u_def)
  have "dropWhile isSpace (rev u) = rev u"
  proof (cases "u = []")
    case True
    then show ?thesis by simp
  next
    case False
    then have "rev t \<noteq> []" by (auto simp: u_def)
    then have tne: "t \<noteq> []" by simp
    then have h: "\<not> isSpace (hd t)" unfolding t_def by (rule hd_dropWhile)
    obtain pre where "rev t = pre @ u" unfolding u_def
      by (metis takeWhile_dropWhile_id)
    with False have "last (rev t) = last u" by simp
    with tne have "last u = hd t" by (simp add: last_rev)
    with False have "hd (rev u) = hd t" by (simp add: hd_rev)
    with h False show ?thesis by (cases "rev u") simp_all
  qed
  moreover have "dropWhile isSpace u = u"
  proof (cases "u = []")
    case True
    then show ?thesis by simp
  next
    case False
    then have "\<not> isSpace (hd u)" unfolding u_def by (rule hd_dropWhile)
    with False show ?thesis by (cases u) simp_all
  qed
  ultimately have "trim (rev u) = rev u" by (simp add: trim_def)
  then show ?thesis by (simp add: tr)
qed

lemma replaceEnd_length: "length (replaceEnd r s) \<le> length s"
  by (induction s) simp_all

lemma replaceEnd_same: "length (replaceEnd r s) = length s \<Longrightarrow> replaceEnd r s = s"
proof (induction s)
  case Nil
  then show ?case by simp
next
  case (Cons c cs)
  then show ?case using replaceEnd_length[of r cs]
    by (auto split: if_splits)
qed

lemma trim_length: "length (trim s) \<le> length s"
proof -
  have "length (dropWhile isSpace (rev (dropWhile isSpace s))) \<le> length (rev (dropWhile isSpace s))"
    by (rule length_dropWhile_le)
  also have "\<dots> \<le> length s" by (simp add: length_dropWhile_le)
  finally show ?thesis by (simp add: trim_def)
qed

lemma strip_trimmed: "trim (stripSeasonSuffix x) = stripSeasonSuffix x"
  by (simp add: stripSeasonSuffix_def Let_def trim_idem)

lemma strip_fixed_iff:
  "stripSeasonSuffix y = y \<longleftrightarrow> trim y = y \<and> (\<forall>r \<in> set seasonRxs. replaceEnd r y = y)"
proof
  assume fx: "stripSeasonSuffix y = y"
  define c1 where "c1 = replaceEnd seasonRx1 y"
  define c2 where "c2 = replaceEnd seasonRx2 c1"
  define c3 where "c3 = replaceEnd seasonRx3 c2"
  define c4 where "c4 = replaceEnd seasonRx4 c3"
  define c5 where "c5 = replaceEnd seasonRx5 c4"
  define c6 where "c6 = replaceEnd seasonRx6 c5"
  have s: "stripSeasonSuffix y = trim c6"
    by (simp add: stripSeasonSuffix_def Let_def c1_def c2_def c3_def c4_def c5_def c6_def)
  have l: "length c1 \<le> length y" "length c2 \<le> length c1" "length c3 \<le> length c2"
    "length c4 \<le> length c3" "length c5 \<le> length c4" "length c6 \<le> length c5"
    "length (trim c6) \<le> length c6"
    by (simp_all add: c1_def c2_def c3_def c4_def c5_def c6_def replaceEnd_length trim_length)
  from fx s have "length (trim c6) = length y" by simp
  with l have e: "length c1 = length y" "length c2 = length c1" "length c3 = length c2"
    "length c4 = length c3" "length c5 = length c4" "length c6 = length c5"
    by linarith+
  have 1: "c1 = y" using e(1) replaceEnd_same unfolding c1_def by blast
  have 2: "c2 = c1" using e(2) replaceEnd_same unfolding c2_def by blast
  have 3: "c3 = c2" using e(3) replaceEnd_same unfolding c3_def by blast
  have 4: "c4 = c3" using e(4) replaceEnd_same unfolding c4_def by blast
  have 5: "c5 = c4" using e(5) replaceEnd_same unfolding c5_def by blast
  have 6: "c6 = c5" using e(6) replaceEnd_same unfolding c6_def by blast
  have all: "c1 = y" "c2 = y" "c3 = y" "c4 = y" "c5 = y" "c6 = y"
    using 1 2 3 4 5 6 by simp_all
  have r: "replaceEnd seasonRx1 y = y" "replaceEnd seasonRx2 y = y" "replaceEnd seasonRx3 y = y"
    "replaceEnd seasonRx4 y = y" "replaceEnd seasonRx5 y = y" "replaceEnd seasonRx6 y = y"
    using all c1_def c2_def c3_def c4_def c5_def c6_def by simp_all
  from fx s all have "trim y = y" by simp
  with r show "trim y = y \<and> (\<forall>r \<in> set seasonRxs. replaceEnd r y = y)"
    by (simp add: seasonRxs_def)
next
  assume "trim y = y \<and> (\<forall>r \<in> set seasonRxs. replaceEnd r y = y)"
  then show "stripSeasonSuffix y = y"
    by (simp add: stripSeasonSuffix_def Let_def seasonRxs_def)
qed

lemma docSamples_idempotent:
  "list_all (\<lambda>x. stripSeasonSuffix (stripSeasonSuffix x) = stripSeasonSuffix x) docSamples"
  by code_simp

text \<open>
  Claim C5, amended.  Applying \<open>stripSeasonSuffix\<close> twice equals applying it once exactly
  for the titles whose once-stripped form none of the six patterns changes any more; the
  sample titles of the function's documentation are among them.
\<close>

theorem strip_idempotent_amended:
  "(stripSeasonSuffix (stripSeasonSuffix x) = stripSeasonSuffix x
      \<longleftrightarrow> (\<forall>r \<in> set seasonRxs. replaceEnd r (stripSeasonSuffix x) = stripSeasonSuffix x))
   \<and> list_all (\<lambda>x. stripSeasonSuffix (stripSeasonSuffix x) = stripSeasonSuffix x) docSamples"
  using strip_fixed_iff[of "stripSeasonSuffix x"] strip_trimmed[of x] docSamples_idempotent
  by simp

theorem strip_idempotent_amended_witness:
  "list_all (\<lambda>r. replaceEnd r (stripSeasonSuffix ''Breaking Bad - Season 1'')
                    = stripSeasonSuffix ''Breaking Bad - Season 1'') seasonRxs
   \<and> stripSeasonSuffix (stripSeasonSuffix ''Breaking Bad - Season 1'')
       = stripSeasonSuffix ''Breaking Bad - Season 1''
   \<and> stripSeasonSuffix ''Breaking Bad - Season 1'' = ''Breaking Bad''"
proof -
  have h: "list_all (\<lambda>r. replaceEnd r (stripSeasonSuffix ''Breaking Bad - Season 1'')
                    = stripSeasonSuffix ''Breaking Bad - Season 1'') seasonRxs"
    by code_simp
  have v: "stripSeasonSuffix ''Breaking Bad - Season 1'' = ''Breaking Bad''" by code_simp
  from strip_idempotent_amended[of "''Breaking Bad - Season 1''"] h v
  show ?thesis by (simp add: list_all_iff)
qed

text \<open>
  Claim C5 as stated fails: each pattern is applied once, so a title with two
  parenthesised decorations loses one per application.
\<close>

theorem strip_not_idempotent:
  "stripSeasonSuffix ''Show (Season 1) (Season 2)'' = ''Show (Season 1)''
   \<and> stripSeasonSuffix (stripSeasonSuffix ''Show (Season 1) (Season 2)'') = ''Show''"
  by code_simp

subsection \<open>Fenced answers of the vision model\<close>

lemma space_no_tick: "isSpace c \<Longrightarrow> c \<noteq> CHR 0x60"
  by (auto simp: isSpace_def)

lemma cutFence_before: "CHR 0x60 \<notin> set b \<Longrightarrow> cutFence (b @ ''```'' @ xs) = Some (b, xs)"
proof (induction b)
  case Nil
  show ?case by simp
next
  case (Cons c cs)
  then have "c \<noteq> CHR 0x60" by auto
  then have "\<not> startsWith (c # cs @ ''```'' @ xs) ''```''" by simp
  with Cons show ?case by (simp del: startsWith.simps)
qed

lemma startsWith_before:
  assumes "startsWith (xs @ y # ys) ''```''" "y \<noteq> CHR 0x60"
  shows "startsWith xs ''```''"
proof (cases xs)
  case Nil
  with assms show ?thesis by simp
next
  case (Cons a as)
  note c1 = this
  show ?thesis
  proof (cases as)
    case Nil
    with c1 assms show ?thesis by simp
  next
    case (Cons b bs)
    note c2 = this
    show ?thesis
    proof (cases bs)
      case Nil
      with c1 c2 assms show ?thesis by simp
    next
      case (Cons c cs)
      with c1 c2 assms show ?thesis by simp
    qed
  qed
qed

lemma blank_no_tick: "list_all isSpace ws \<Longrightarrow> CHR 0x60 \<notin> set ws"
  using space_no_tick by (auto simp: list_all_iff)

lemma cutFence_close:
  assumes "\<not> includesStr q ''```''" "blank ws"
  shows "cutFence (q @ ws @ ''```'' @ after) = Some (q @ ws, after)"
  using assms(1)
proof (induction q)
  case Nil
  from assms(2) have "CHR 0x60 \<notin> set ws" by (simp add: blank_def blank_no_tick)
  from cutFence_before[OF this] show ?case by simp
next
  case (Cons c cs)
  from Cons.prems have n: "\<not> startsWith (c # cs) ''```''" and r: "\<not> includesStr cs ''```''"
    by simp_all
  from assms(2) obtain w ws' where w: "ws = w # ws'" "isSpace w"
    by (cases ws) (auto simp: blank_def)
  from n startsWith_before[of "c # cs" w "ws' @ ''```'' @ after"] space_no_tick[OF w(2)]
  have "\<not> startsWith ((c # cs) @ w # ws' @ ''```'' @ after) ''```''" by blast
  then have "\<not> startsWith (c # cs @ ws @ ''```'' @ after) ''```''" by (simp add: w)
  with Cons.IH[OF r] show ?case by (simp del: startsWith.simps)
qed

lemma includesStr_dropWhile:
  "includesStr (dropWhile P xs) ''```'' \<Longrightarrow> includesStr xs ''```''"
  by (induction xs) (auto split: if_splits)

lemma trim_inner:
  assumes "dropWhile isSpace p \<noteq> []" "list_all isSpace ws"
  shows "trim (dropWhile isSpace p @ ws) = trim p"
proof -
  define q where "q = dropWhile isSpace p"
  from assms(1) have "\<not> isSpace (hd q)" unfolding q_def by (rule hd_dropWhile)
  with assms(1) have d: "dropWhile isSpace (q @ ws) = q @ ws"
    unfolding q_def[symmetric] by (cases q) simp_all
  have "trim (q @ ws) = rev (dropWhile isSpace (rev (q @ ws)))"
    by (simp only: trim_def d)
  also have "rev (q @ ws) = rev ws @ rev q" by simp
  also have "dropWhile isSpace (rev ws @ rev q) = dropWhile isSpace (rev q)"
    using assms(2) by (intro dropWhile_append2) (simp add: list_all_iff)
  finally show ?thesis by (simp add: trim_def q_def)
qed

lemma trim_all_space:
  assumes "dropWhile isSpace p = []"
  shows "trim p = []"
proof -
  have "trim p = rev (dropWhile isSpace (rev []))" by (simp only: trim_def assms)
  then show ?thesis by simp
qed

lemma fenceMatch_fencedAs:
  assumes nb: "CHR 0x60 \<notin> set before"
      and tag: "tag = [] \<or> tag = ''json''"
      and w1: "blank ws1" and w2: "blank ws2"
      and nf: "\<not> includesStr payload ''```''"
  shows "\<exists>inner. fenceMatch (fencedAs before tag ws1 payload ws2 after) = Some inner
           \<and> trim inner = trim payload"
proof -
  define closing where "closing = ws2 @ ''```'' @ after"
  define rest where "rest = tag @ ws1 @ payload @ closing"
  from w1 obtain w ws' where w: "ws1 = w # ws'" "isSpace w"
    by (cases ws1) (auto simp: blank_def)
  then have nj: "w \<noteq> CHR ''j''" by (auto simp: isSpace_def)
  from w1 have a1: "\<And>x. x \<in> set ws1 \<Longrightarrow> isSpace x" by (simp add: blank_def list_all_iff)
  from w2 have a2: "\<And>x. x \<in> set ws2 \<Longrightarrow> isSpace x" by (simp add: blank_def list_all_iff)
  have c: "cutFence (fencedAs before tag ws1 payload ws2 after) = Some (before, rest)"
    unfolding fencedAs_def rest_def closing_def using cutFence_before[OF nb] by simp
  have r1: "(if startsWith rest ''json'' then drop 4 rest else rest) = ws1 @ payload @ closing"
    unfolding rest_def using tag nj by (auto simp: w)
  have r2: "dropWhile isSpace (ws1 @ payload @ closing) = dropWhile isSpace (payload @ closing)"
    using a1 by (intro dropWhile_append2) simp
  have fm: "fenceMatch (fencedAs before tag ws1 payload ws2 after)
      = (case cutFence (dropWhile isSpace (payload @ closing)) of
           None \<Rightarrow> None | Some (inner, rest) \<Rightarrow> Some inner)"
    by (simp add: fenceMatch_def c Let_def r1 r2)
  show ?thesis
  proof (cases "dropWhile isSpace payload = []")
    case True
    then have "\<And>x. x \<in> set payload \<Longrightarrow> isSpace x" by (simp add: dropWhile_eq_Nil_conv)
    then have "dropWhile isSpace (payload @ closing) = dropWhile isSpace closing"
      by (intro dropWhile_append2) simp
    also have "\<dots> = dropWhile isSpace (''```'' @ after)"
      unfolding closing_def using a2 by (intro dropWhile_append2) simp
    also have "\<dots> = ''```'' @ after" by (simp add: isSpace_def)
    finally have m: "fenceMatch (fencedAs before tag ws1 payload ws2 after) = Some []"
      unfolding fm by simp
    have "trim [] = trim payload" unfolding trim_all_space[OF True] by (simp add: trim_def)
    with m show ?thesis by blast
  next
    case False
    then obtain x where "x \<in> set payload" "\<not> isSpace x"
      by (auto simp: dropWhile_eq_Nil_conv)
    then have d: "dropWhile isSpace (payload @ closing) = dropWhile isSpace payload @ closing"
      by (rule dropWhile_append1)
    from nf includesStr_dropWhile have "\<not> includesStr (dropWhile isSpace payload) ''```''"
      by blast
    from cutFence_close[OF this w2, of after]
    have "cutFence (dropWhile isSpace payload @ closing) = Some (dropWhile isSpace payload @ ws2, after)"
      unfolding closing_def by simp
    then have "fenceMatch (fencedAs before tag ws1 payload ws2 after) = Some (dropWhile isSpace payload @ ws2)"
      by (simp add: fm d)
    with trim_inner[OF False] w2 show ?thesis by (simp add: blank_def)
  qed
qed

text \<open>The reader of the worked examples rejects every text that starts with a backtick.\<close>

lemma tryParseJson_fencedAs:
  assumes nb: "CHR 0x60 \<notin> set before"
      and tag: "tag = [] \<or> tag = ''json''"
      and w1: "blank ws1" and w2: "blank ws2"
      and nf: "\<not> includesStr payload ''```''"
      and direct: "parse (fencedAs before tag ws1 payload ws2 after) = None"
      and ws: "parse (trim payload) = parse payload"
  shows "tryParseJson parse (fencedAs before tag ws1 payload ws2 after)
           = (case parse payload of Some v \<Rightarrow> v | None \<Rightarrow> JNull)"
proof -
  from fenceMatch_fencedAs[OF nb tag w1 w2 nf] obtain inner where
    i: "fenceMatch (fencedAs before tag ws1 payload ws2 after) = Some inner"
       "trim inner = trim payload" by blast
  show ?thesis by (simp add: tryParseJson_def direct i ws)
qed

text \<open>
  Claim C9, amended.  \<open>tryParseJson\<close> returns the direct parse when it succeeds, else the
  parse of the trimmed content of the first fenced block, else \<open>null\<close>.  Take a payload
  that \<open>JSON.parse\<close> accepts and that holds no run of three backticks, and wrap it in a
  fence: three backticks directly followed by nothing or by \<open>json\<close> in lower case, white
  space (the line break), the payload, white space, and three backticks, with any text
  without a backtick before the fence and any text after it.  When the answer as a whole
  is not valid JSON, it reads as the payload does: the same value, the same items, and
  the analysing step returns after its first call.  Of \<open>JSON.parse\<close> the theorem
  assumes that it ignores white space around the payload.
\<close>

theorem fenced_payload_first_attempt:
  "(parse content = Some w \<longrightarrow> tryParseJson parse content = w)
   \<and> (parse content = None \<and> fenceMatch content = Some inner
        \<longrightarrow> tryParseJson parse content = (case parse (trim inner) of Some v \<Rightarrow> v | None \<Rightarrow> JNull))
   \<and> (parse content = None \<and> fenceMatch content = None \<longrightarrow> tryParseJson parse content = JNull)
   \<and> (CHR 0x60 \<notin> set before \<and> (tag = [] \<or> tag = ''json'') \<and> blank ws1 \<and> blank ws2
        \<and> \<not> includesStr payload ''```''
        \<and> parse (fencedAs before tag ws1 payload ws2 after) = None
        \<and> parse (trim payload) = parse payload \<and> parse payload = Some v \<and> payload \<noteq> []
        \<longrightarrow> tryParseJson parse (fencedAs before tag ws1 payload ws2 after) = v
            \<and> readResponse parse (fencedAs before tag ws1 payload ws2 after)
                = readResponse parse payload
            \<and> (llm 0 = Some (fencedAs before tag ws1 payload ws2 after)
                 \<and> readResponse parse payload = Inr items
                 \<longrightarrow> analyzeStep parse llm = (Inr items, 1)))"
proof (intro conjI impI)
  let ?c = "fencedAs before tag ws1 payload ws2 after"
  assume a: "CHR 0x60 \<notin> set before \<and> (tag = [] \<or> tag = ''json'') \<and> blank ws1 \<and> blank ws2
        \<and> \<not> includesStr payload ''```''
        \<and> parse ?c = None
        \<and> parse (trim payload) = parse payload \<and> parse payload = Some v \<and> payload \<noteq> []"
  with tryParseJson_fencedAs[of before tag ws1 ws2 payload parse after]
  have t: "tryParseJson parse ?c = v" "tryParseJson parse payload = v"
    by (simp_all add: tryParseJson_def)
  show "tryParseJson parse ?c = v" by (rule t)
  have ne: "?c \<noteq> []" by (simp add: fencedAs_def)
  show r: "readResponse parse ?c = readResponse parse payload"
    using a ne by (simp add: readResponse_def t)
  assume "llm 0 = Some ?c \<and> readResponse parse payload = Inr items"
  with r show "analyzeStep parse llm = (Inr items, 1)"
    by (simp add: analyzeStep_def numeral_2_eq_2)
qed (simp_all add: tryParseJson_def)

theorem fenced_payload_first_attempt_witness:
  "CHR 0x60 \<notin> set (''Here is the list:'' @ [CHR 0x0A])
   \<and> blank [CHR 0x0D, CHR 0x0A] \<and> blank [CHR 0x0A]
   \<and> \<not> includesStr plainPayload ''```''
   \<and> jsonParse proseAnswer = None
   \<and> jsonParse (trim plainPayload) = jsonParse plainPayload
   \<and> plainPayload \<noteq> []
   \<and> readResponse jsonParse plainPayload
       = Inr [\<lparr> title = ''Alien'', creator = [], type = Movie, year = Some 1979 \<rparr>]
   \<and> readResponse jsonParse proseAnswer = readResponse jsonParse plainPayload
   \<and> analyzeStep jsonParse (\<lambda>k. Some proseAnswer)
       = (Inr [\<lparr> title = ''Alien'', creator = [], type = Movie, year = Some 1979 \<rparr>], 1)"
proof -
  have h0: "CHR 0x60 \<notin> set (''Here is the list:'' @ [CHR 0x0A])" by simp
  have hb: "blank [CHR 0x0D, CHR 0x0A]" "blank [CHR 0x0A]" by (simp_all add: blank_def isSpace_def)
  have h1: "\<not> includesStr plainPayload ''```''" by code_simp
  have h2: "jsonParse proseAnswer = None" by code_simp
  have h3: "jsonParse (trim plainPayload) = jsonParse plainPayload" by code_simp
  have h4: "jsonParse plainPayload = Some plainJson" by code_simp
  have h5: "plainPayload \<noteq> []" by (simp add: plainPayload_def)
  have h6: "readResponse jsonParse plainPayload
       = Inr [\<lparr> title = ''Alien'', creator = [], type = Movie, year = Some 1979 \<rparr>]" by code_simp
  from fenced_payload_first_attempt[of jsonParse "[]" JNull "[]"
      "''Here is the list:'' @ [CHR 0x0A]" "''json''" "[CHR 0x0D, CHR 0x0A]" "[CHR 0x0A]"
      plainPayload "[CHR 0x0A] @ ''Two spines were unreadable.''" plainJson
      "\<lambda>k. Some proseAnswer"
      "[\<lparr> title = ''Alien'', creator = [], type = Movie, year = Some 1979 \<rparr>]"]
    h0 hb h1 h2[unfolded proseAnswer_def] h3 h4 h5 h6
  show ?thesis unfolding proseAnswer_def by simp
qed

text \<open>
  Claim C9 as stated fails for a valid payload with three backticks inside a title (the
  lazy group ends there), for a fence whose info string is \<open>JSON\<close> in capitals and for a
  fence with a space before the info string: both attempts are spent on the same answer.
\<close>

theorem fenced_payload_retry_consumed:
  "readResponse jsonParse tickPayload
     = Inr [\<lparr> title = ''a```b'', creator = [], type = Other, year = None \<rparr>]
   \<and> readResponse jsonParse (fenced ''json'' tickPayload) = Inl ParseFailed
   \<and> analyzeStep jsonParse (\<lambda>k. Some (fenced ''json'' tickPayload)) = (Inl (NoItems (Some ParseFailed)), 2)
   \<and> readResponse jsonParse (fenced ''JSON'' plainPayload) = Inl ParseFailed
   \<and> readResponse jsonParse (fenced '' json'' plainPayload) = Inl ParseFailed
   \<and> readResponse jsonParse plainPayload
       = Inr [\<lparr> title = ''Alien'', creator = [], type = Movie, year = Some 1979 \<rparr>]"
  by code_simp

subsection \<open>A year of zero, through the whole enrichment\<close>










end
